theory Spec2Isabelle
  imports Complex_Main
begin

section \<open>Moving Least Squares shape functions (MLS.ipynb)\<close>

text \<open>
  The notebook computes, for every node of a 2D point cloud, the MLS shape-function row
  and its x, y, xx, yy derivative rows over the 30 nearest neighbours, and assembles
  five sparse operators. The embedding below follows the code cell line by line.

  Numbers: a NumPy \<open>float64\<close> is modelled as a \<open>real\<close>; rounding, overflow and
  underflow are not modelled there. The weight lines, whose unguarded divisions can leave
  the finite numbers, are read a second time on \<open>float64\<close> values with their range and
  their special values (type \<open>fl\<close>): the real-valued reading is the code's only where
  that second reading stays finite.
  Arrays: a 1-D array is a list, a 2-D array is a list of rows. A row of the node array
  \<open>distnod\<close> (two columns) is a pair \<open>(x, y)\<close>.
  Names: the source's \<^verbatim>\<open>p_\<close> is \<open>p_mat\<close>, and \<^verbatim>\<open>w_\<close>, \<^verbatim>\<open>pdx_\<close>, ... are \<open>w_row\<close>,
  \<open>pdx_row\<close>, ...; a quantity of the loop body that depends on the node is a function
  of what it is computed from, named with the suffix \<open>_of\<close> (\<open>Dn_of\<close>, \<open>A_of\<close>, \<open>IAx_of\<close>).
\<close>

type_synonym vec = "real list"
type_synonym mat = "real list list"
type_synonym point = "real \<times> real"

subsection \<open>The NumPy array operations used by the notebook\<close>

text \<open>
  The shapes in the notebook are fixed by construction (6 basis terms, 30 neighbours), so
  NumPy's shape-mismatch errors cannot occur; the operations below are only ever applied
  to conforming shapes, and every theorem states the shapes it relies on.
\<close>

definition ncols :: "mat \<Rightarrow> nat" where
  "ncols M = (case M of [] \<Rightarrow> 0 | r # _ \<Rightarrow> length r)"

definition col :: "mat \<Rightarrow> nat \<Rightarrow> vec" where
  "col M j = map (\<lambda>r. r ! j) M"

text \<open>\<open>M.T\<close> and \<open>M.transpose()\<close>\<close>
definition transpose_m :: "mat \<Rightarrow> mat" where
  "transpose_m M = map (col M) [0..<ncols M]"

definition vdot :: "vec \<Rightarrow> vec \<Rightarrow> real" where
  "vdot u v = sum_list (map2 (*) u v)"

text \<open>\<open>M.dot(N)\<close> on 2-D arrays\<close>
definition dot :: "mat \<Rightarrow> mat \<Rightarrow> mat" where
  "dot M N = map (\<lambda>r. map (\<lambda>j. vdot r (col N j)) [0..<ncols N]) M"

text \<open>\<open>np.diag(v)\<close> on a 1-D array\<close>
definition diag :: "vec \<Rightarrow> mat" where
  "diag v = map (\<lambda>i. map (\<lambda>j. if i = j then v ! i else 0) [0..<length v]) [0..<length v]"

text \<open>elementwise \<open>M + N\<close>, \<open>M - N\<close>, \<open>-M\<close> and \<open>c * M\<close>\<close>
definition madd :: "mat \<Rightarrow> mat \<Rightarrow> mat" where
  "madd M N = map2 (map2 (+)) M N"

definition msub :: "mat \<Rightarrow> mat \<Rightarrow> mat" where
  "msub M N = map2 (map2 (-)) M N"

definition mneg :: "mat \<Rightarrow> mat" where
  "mneg M = map (map uminus) M"

definition smul :: "real \<Rightarrow> mat \<Rightarrow> mat" where
  "smul c M = map (map ((*) c)) M"

text \<open>\<open>np.ravel(M)\<close>: the rows of \<open>M\<close> one after the other\<close>
definition ravel :: "mat \<Rightarrow> vec" where
  "ravel M = concat M"

text \<open>The shape of a 2-D array: \<open>r\<close> rows of \<open>c\<close> entries each.\<close>
definition shape :: "nat \<Rightarrow> nat \<Rightarrow> mat \<Rightarrow> bool" where
  "shape r c M \<longleftrightarrow> length M = r \<and> list_all (\<lambda>row. length row = c) M"

text \<open>The identity matrix, used to say that \<open>IA\<close> is an inverse of \<open>A\<close>.\<close>
definition eye :: "nat \<Rightarrow> mat" where
  "eye n = map (\<lambda>i. map (\<lambda>j. if i = j then 1 else 0) [0..<n]) [0..<n]"

subsection \<open>Selector vectors\<close>

text \<open>
  \<^verbatim>\<open>w = np.array(([1], [0], [0], [0], [0], [0]))\<close> and its siblings are 6x1 columns;
  \<^verbatim>\<open>w_ = w.transpose()\<close> and its siblings are the 1x6 rows used in the products.
\<close>

definition w :: mat where "w = [[1], [0], [0], [0], [0], [0]]"
definition pdx :: mat where "pdx = [[0], [1], [0], [0], [0], [0]]"
definition pdxx :: mat where "pdxx = [[0], [0], [0], [2], [0], [0]]"
definition pdy :: mat where "pdy = [[0], [0], [1], [0], [0], [0]]"
definition pdyy :: mat where "pdyy = [[0], [0], [0], [0], [0], [2]]"

definition w_row :: mat where "w_row = transpose_m w"
definition pdx_row :: mat where "pdx_row = transpose_m pdx"
definition pdxx_row :: mat where "pdxx_row = transpose_m pdxx"
definition pdy_row :: mat where "pdy_row = transpose_m pdy"
definition pdyy_row :: mat where "pdyy_row = transpose_m pdyy"

subsection \<open>The body of the loop over the nodes\<close>

text \<open>
  Inside the loop, \<open>nsd\<close> is the 30x2 array of the neighbours' coordinates
  (\<^verbatim>\<open>distnod[indices[i, :]]\<close>), \<open>ds\<close> is \<^verbatim>\<open>distances[i, :]\<close> and \<open>a0\<close> is
  \<^verbatim>\<open>a0[i]\<close>. The local origin is \<^verbatim>\<open>nsd[0]\<close>, the first neighbour; \<open>nsd\<close> always
  has 30 rows, so the index 0 is in range.
\<close>

text \<open>\<^verbatim>\<open>p_\<close>: the 6x30 matrix of the quadratic basis at the neighbours\<close>
definition p_mat :: "point list \<Rightarrow> mat" where
  "p_mat nsd =
     [ map (\<lambda>q. 1) nsd,
       map (\<lambda>q. fst q - fst (nsd ! 0)) nsd,
       map (\<lambda>q. snd q - snd (nsd ! 0)) nsd,
       map (\<lambda>q. (fst q - fst (nsd ! 0)) ^ 2) nsd,
       map (\<lambda>q. (fst q - fst (nsd ! 0)) * (snd q - snd (nsd ! 0))) nsd,
       map (\<lambda>q. (snd q - snd (nsd ! 0)) ^ 2) nsd ]"

text \<open>The Gaussian weight and its first and second partial derivatives.\<close>

definition Dn_of :: "vec \<Rightarrow> real \<Rightarrow> vec" where
  "Dn_of ds a0 = map (\<lambda>d. exp (- ((d / a0) ^ 2))) ds"

definition Dx_of :: "point list \<Rightarrow> real \<Rightarrow> vec \<Rightarrow> vec" where
  "Dx_of nsd a0 Dn =
     map2 (\<lambda>q e. (- 2 / (a0 ^ 2)) * (fst (nsd ! 0) - fst q) * e) nsd Dn"

definition Dxx_of :: "point list \<Rightarrow> real \<Rightarrow> vec \<Rightarrow> vec" where
  "Dxx_of nsd a0 Dn =
     map2 (\<lambda>q e. (- 2 / (a0 ^ 4)) * (a0 ^ 2 - 2 * (fst (nsd ! 0) - fst q) ^ 2) * e) nsd Dn"

definition Dy_of :: "point list \<Rightarrow> real \<Rightarrow> vec \<Rightarrow> vec" where
  "Dy_of nsd a0 Dn =
     map2 (\<lambda>q e. (- 2 / (a0 ^ 2)) * (snd (nsd ! 0) - snd q) * e) nsd Dn"

definition Dyy_of :: "point list \<Rightarrow> real \<Rightarrow> vec \<Rightarrow> vec" where
  "Dyy_of nsd a0 Dn =
     map2 (\<lambda>q e. (- 2 / (a0 ^ 4)) * (a0 ^ 2 - 2 * (snd (nsd ! 0) - snd q) ^ 2) * e) nsd Dn"

text \<open>
  \<^verbatim>\<open>A = p_.dot(np.diag(Dn).dot(p_.T))\<close> and \<^verbatim>\<open>B = np.diag(Dn).dot(p_.T)\<close>; the
  derivative matrices are the same expressions with \<open>Dx\<close>, \<open>Dxx\<close>, \<open>Dy\<close>, \<open>Dyy\<close> for
  \<open>Dn\<close>, so both take the weight vector \<open>D\<close> as argument.
\<close>

definition B_of :: "point list \<Rightarrow> vec \<Rightarrow> mat" where
  "B_of nsd D = dot (diag D) (transpose_m (p_mat nsd))"

definition A_of :: "point list \<Rightarrow> vec \<Rightarrow> mat" where
  "A_of nsd D = dot (p_mat nsd) (dot (diag D) (transpose_m (p_mat nsd)))"

text \<open>
  \<^verbatim>\<open>IAx = -IA.dot(Ax).dot(IA)\<close>, and
  \<^verbatim>\<open>IAxx = -IAx.dot(Ax).dot(IA) - IA.dot(Axx).dot(IA) - IA.dot(Ax).dot(IAx)\<close>.
  \<open>IAy\<close> and \<open>IAyy\<close> are the same expressions applied to \<open>Ay\<close>, \<open>Ayy\<close>.
\<close>

definition IAx_of :: "mat \<Rightarrow> mat \<Rightarrow> mat" where
  "IAx_of IA Ax = mneg (dot (dot IA Ax) IA)"

definition IAxx_of :: "mat \<Rightarrow> mat \<Rightarrow> mat \<Rightarrow> mat" where
  "IAxx_of IA Ax Axx =
     msub (msub (mneg (dot (dot (IAx_of IA Ax) Ax) IA)) (dot (dot IA Axx) IA))
          (dot (dot IA Ax) (IAx_of IA Ax))"

text \<open>The five rows appended to \<open>sf_list\<close>, \<open>sfx_list\<close>, \<open>sfy_list\<close>, \<open>sfxx_list\<close>, \<open>sfyy_list\<close>.\<close>

definition sf_row :: "mat \<Rightarrow> mat \<Rightarrow> vec" where
  "sf_row IA B = ravel (transpose_m (dot (dot w_row IA) (transpose_m B)))"

definition sfx_row :: "mat \<Rightarrow> mat \<Rightarrow> mat \<Rightarrow> mat \<Rightarrow> vec" where
  "sfx_row IA IAx B Bx =
     ravel (transpose_m
       (madd (dot (madd (dot pdx_row IA) (dot w_row IAx)) (transpose_m B))
             (dot (dot w_row IA) (transpose_m Bx))))"

definition sfy_row :: "mat \<Rightarrow> mat \<Rightarrow> mat \<Rightarrow> mat \<Rightarrow> vec" where
  "sfy_row IA IAy B By =
     ravel (transpose_m
       (madd (dot (madd (dot pdy_row IA) (dot w_row IAy)) (transpose_m B))
             (dot (dot w_row IA) (transpose_m By))))"

definition sfxx_row :: "mat \<Rightarrow> mat \<Rightarrow> mat \<Rightarrow> mat \<Rightarrow> mat \<Rightarrow> mat \<Rightarrow> vec" where
  "sfxx_row IA IAx IAxx B Bx Bxx =
     ravel (transpose_m
       (madd
         (madd
           (dot (madd (madd (dot pdxx_row IA) (smul 2 (dot pdx_row IAx))) (dot w_row IAxx))
                (transpose_m B))
           (dot (madd (madd (dot w_row IAx) (smul 2 (dot pdx_row IA))) (dot w_row IAx))
                (transpose_m Bx)))
         (dot (dot w_row IA) (transpose_m Bxx))))"

definition sfyy_row :: "mat \<Rightarrow> mat \<Rightarrow> mat \<Rightarrow> mat \<Rightarrow> mat \<Rightarrow> mat \<Rightarrow> vec" where
  "sfyy_row IA IAy IAyy B By Byy =
     ravel (transpose_m
       (madd
         (madd
           (dot (madd (madd (dot pdyy_row IA) (smul 2 (dot pdy_row IAy))) (dot w_row IAyy))
                (transpose_m B))
           (dot (madd (madd (dot w_row IAy) (smul 2 (dot pdy_row IA))) (dot w_row IAy))
                (transpose_m By)))
         (dot (dot w_row IA) (transpose_m Byy))))"

subsection \<open>The weight lines on \<open>float64\<close> values\<close>

text \<open>
  The weight lines divide by \<^verbatim>\<open>a0[i]\<close>, \<^verbatim>\<open>a0[i] ** 2\<close> and \<^verbatim>\<open>a0[i] ** 4\<close> with no
  guard. On \<open>float64\<close> values NumPy does not raise on a zero divisor or on an overflow: it
  returns an infinity or a NaN (and warns). To say where these lines leave the finite
  numbers they are read a second time, on \<open>fl\<close>: a \<open>float64\<close> value is a finite real, one
  of the two infinities, or NaN.
\<close>

datatype fl = Fin real | PInf | NInf | NaN

text \<open>
  The range of \<open>float64\<close> is modelled, its precision is not. \<open>to_fl x\<close> is the \<open>float64\<close>
  result of an operation whose exact result is \<open>x\<close>: a magnitude of at least
  \<^verbatim>\<open>2^1024 - 2^970\<close> (half a unit in the last place above the largest finite value)
  overflows to an infinity, a magnitude of at most \<^verbatim>\<open>2^-1075\<close> (half the smallest positive
  value) underflows to 0, and any other result is kept as the real it is: the rounding
  of the significand is left out. The two zeros are not told apart; a zero divisor of
  the weight lines is \<open>+0.0\<close> (a power of \<open>a0\<close>, or \<open>0.3\<close> times a distance).
\<close>

definition fl_max :: real where
  "fl_max = 2 ^ 1024 - 2 ^ 970"

definition fl_tiny :: real where
  "fl_tiny = 1 / 2 ^ 1075"

definition to_fl :: "real \<Rightarrow> fl" where
  "to_fl x = (if fl_max \<le> \<bar>x\<bar> then (if 0 < x then PInf else NInf)
              else if \<bar>x\<bar> \<le> fl_tiny then Fin 0 else Fin x)"

text \<open>The IEEE rules for the operators of the weight lines: unary minus, \<open>/\<close>, \<open>*\<close>, \<open>-\<close>.\<close>

fun fl_neg :: "fl \<Rightarrow> fl" where
  "fl_neg (Fin x) = Fin (- x)"
| "fl_neg PInf = NInf"
| "fl_neg NInf = PInf"
| "fl_neg NaN = NaN"

fun fl_div :: "fl \<Rightarrow> fl \<Rightarrow> fl" where
  "fl_div (Fin x) (Fin y) =
     (if y \<noteq> 0 then to_fl (x / y) else if x = 0 then NaN else if 0 < x then PInf else NInf)"
| "fl_div (Fin x) PInf = Fin 0"
| "fl_div (Fin x) NInf = Fin 0"
| "fl_div PInf (Fin y) = (if 0 \<le> y then PInf else NInf)"
| "fl_div NInf (Fin y) = (if 0 \<le> y then NInf else PInf)"
| "fl_div _ _ = NaN"

fun fl_mul :: "fl \<Rightarrow> fl \<Rightarrow> fl" where
  "fl_mul (Fin x) (Fin y) = to_fl (x * y)"
| "fl_mul PInf (Fin y) = (if y = 0 then NaN else if 0 < y then PInf else NInf)"
| "fl_mul NInf (Fin y) = (if y = 0 then NaN else if 0 < y then NInf else PInf)"
| "fl_mul (Fin x) PInf = (if x = 0 then NaN else if 0 < x then PInf else NInf)"
| "fl_mul (Fin x) NInf = (if x = 0 then NaN else if 0 < x then NInf else PInf)"
| "fl_mul PInf PInf = PInf"
| "fl_mul NInf NInf = PInf"
| "fl_mul PInf NInf = NInf"
| "fl_mul NInf PInf = NInf"
| "fl_mul _ _ = NaN"

fun fl_sub :: "fl \<Rightarrow> fl \<Rightarrow> fl" where
  "fl_sub (Fin x) (Fin y) = to_fl (x - y)"
| "fl_sub (Fin x) PInf = NInf"
| "fl_sub (Fin x) NInf = PInf"
| "fl_sub PInf (Fin y) = PInf"
| "fl_sub NInf (Fin y) = NInf"
| "fl_sub PInf NInf = PInf"
| "fl_sub NInf PInf = NInf"
| "fl_sub _ _ = NaN"

text \<open>\<^verbatim>\<open>x ** n\<close> for the exponents 2 and 4 of the weight lines, and \<^verbatim>\<open>np.exp(x)\<close>\<close>

fun fl_pow :: "fl \<Rightarrow> nat \<Rightarrow> fl" where
  "fl_pow (Fin x) n = to_fl (x ^ n)"
| "fl_pow PInf n = (if n = 0 then Fin 1 else PInf)"
| "fl_pow NInf n = (if n = 0 then Fin 1 else if even n then PInf else NInf)"
| "fl_pow NaN n = (if n = 0 then Fin 1 else NaN)"

fun fl_exp :: "fl \<Rightarrow> fl" where
  "fl_exp (Fin x) = to_fl (exp x)"
| "fl_exp PInf = PInf"
| "fl_exp NInf = Fin 0"
| "fl_exp NaN = NaN"

fun finite_fl :: "fl \<Rightarrow> bool" where
  "finite_fl (Fin x) = True"
| "finite_fl _ = False"

text \<open>
  The five weight lines on \<open>fl\<close>, operator by operator. The distances and the coordinates
  are finite \<open>float64\<close> values; \<open>a0\<close> is the \<open>fl\<close> value of \<^verbatim>\<open>a0[i]\<close>.
\<close>

definition Dn_fl :: "vec \<Rightarrow> fl \<Rightarrow> fl list" where
  "Dn_fl ds a0 = map (\<lambda>d. fl_exp (fl_neg (fl_pow (fl_div (Fin d) a0) 2))) ds"

definition Dx_fl :: "point list \<Rightarrow> fl \<Rightarrow> fl list \<Rightarrow> fl list" where
  "Dx_fl nsd a0 Dn =
     map2 (\<lambda>q e. fl_mul (fl_mul (fl_div (Fin (- 2)) (fl_pow a0 2))
                                (fl_sub (Fin (fst (nsd ! 0))) (Fin (fst q)))) e) nsd Dn"

definition Dxx_fl :: "point list \<Rightarrow> fl \<Rightarrow> fl list \<Rightarrow> fl list" where
  "Dxx_fl nsd a0 Dn =
     map2 (\<lambda>q e. fl_mul (fl_mul (fl_div (Fin (- 2)) (fl_pow a0 4))
                                (fl_sub (fl_pow a0 2)
                                   (fl_mul (Fin 2)
                                      (fl_pow (fl_sub (Fin (fst (nsd ! 0))) (Fin (fst q))) 2)))) e)
          nsd Dn"

definition Dy_fl :: "point list \<Rightarrow> fl \<Rightarrow> fl list \<Rightarrow> fl list" where
  "Dy_fl nsd a0 Dn =
     map2 (\<lambda>q e. fl_mul (fl_mul (fl_div (Fin (- 2)) (fl_pow a0 2))
                                (fl_sub (Fin (snd (nsd ! 0))) (Fin (snd q)))) e) nsd Dn"

definition Dyy_fl :: "point list \<Rightarrow> fl \<Rightarrow> fl list \<Rightarrow> fl list" where
  "Dyy_fl nsd a0 Dn =
     map2 (\<lambda>q e. fl_mul (fl_mul (fl_div (Fin (- 2)) (fl_pow a0 4))
                                (fl_sub (fl_pow a0 2)
                                   (fl_mul (Fin 2)
                                      (fl_pow (fl_sub (Fin (snd (nsd ! 0))) (Fin (snd q))) 2)))) e)
          nsd Dn"

subsection \<open>Nearest neighbours\<close>

datatype error = InsufficientPoints

definition euclid :: "point \<Rightarrow> point \<Rightarrow> real" where
  "euclid p q = sqrt ((fst p - fst q) ^ 2 + (snd p - snd q) ^ 2)"

text \<open>
  Modelled from the spec: \<^verbatim>\<open>NearestNeighbors(n_neighbors=30).fit(distnod).kneighbors(distnod)\<close>
  is scikit-learn's, not the notebook's. Following the spec's NeighborIndex: for every
  point, the \<open>k\<close> nearest points of the cloud (itself included) by Euclidean distance,
  in ascending order of distance, with their distances; the query fails with
  \<open>InsufficientPoints\<close> when the cloud has fewer than \<open>k\<close> points. The order among equal
  distances is left to the implementation by the spec; here the lower index comes first
  (a stable sort of the indices). \<open>neighbors k pts q\<close> are the indices of the \<open>k\<close> points
  nearest to \<open>q\<close>.
\<close>

definition neighbors :: "nat \<Rightarrow> point list \<Rightarrow> point \<Rightarrow> nat list" where
  "neighbors k pts q = take k (sort_key (\<lambda>j. euclid q (pts ! j)) [0..<length pts])"

text \<open>
  Modelled from the spec: the two arrays the query returns, \<open>indices\<close> and \<open>distances\<close>,
  one row of \<open>k\<close> entries for every point of the cloud.
\<close>

definition knn_indices :: "nat \<Rightarrow> point list \<Rightarrow> nat list list" where
  "knn_indices k pts = map (neighbors k pts) pts"

definition knn_distances :: "nat \<Rightarrow> point list \<Rightarrow> mat" where
  "knn_distances k pts = map (\<lambda>q. map (\<lambda>j. euclid q (pts ! j)) (neighbors k pts q)) pts"

text \<open>
  Modelled from the spec: the query of scikit-learn, which is not in the notebook. It
  fails when the cloud has fewer than \<open>k\<close> points and returns the pair
  \<open>(distances, indices)\<close> otherwise.
\<close>

definition kneighbors :: "nat \<Rightarrow> point list \<Rightarrow> error + (mat \<times> nat list list)" where
  "kneighbors k pts =
     (if length pts < k then Inl InsufficientPoints
      else Inr (knn_distances k pts, knn_indices k pts))"

text \<open>\<^verbatim>\<open>a1 = distances[:, 29]\<close>, \<^verbatim>\<open>a0 = 0.3 * a1\<close>\<close>
definition a0_of :: "mat \<Rightarrow> vec" where
  "a0_of distances = map (\<lambda>a1. 0.3 * a1) (map (\<lambda>r. r ! 29) distances)"

text \<open>The same two lines on \<open>float64\<close> values: the product can underflow.\<close>
definition a0_fl_of :: "mat \<Rightarrow> fl list" where
  "a0_fl_of distances = map (\<lambda>a1. fl_mul (Fin 0.3) (Fin a1)) (map (\<lambda>r. r ! 29) distances)"

text \<open>\<^verbatim>\<open>nsd = distnod[indices[i, :]]\<close>\<close>
definition nsd_of :: "point list \<Rightarrow> nat list \<Rightarrow> point list" where
  "nsd_of distnod idx = map (\<lambda>j. distnod ! j) idx"

subsection \<open>The loop and the assembly\<close>

text \<open>
  The lists the loop appends to. The condition numbers (\<open>cond_number\<close>) are a diagnostic
  computed by \<^verbatim>\<open>numpy.linalg.cond\<close> and take no part in the operators; they are left out.
\<close>

record acc =
  i_list :: "nat list list"
  sf_list :: "vec list"
  sfx_list :: "vec list"
  sfxx_list :: "vec list"
  sfy_list :: "vec list"
  sfyy_list :: "vec list"

definition acc0 :: acc where
  "acc0 = \<lparr> i_list = [], sf_list = [], sfx_list = [], sfxx_list = [], sfy_list = [],
            sfyy_list = [] \<rparr>"

text \<open>
  The local variables of one iteration of \<^verbatim>\<open>for i in range(len(distnod))\<close>, each under
  the name it has in the source with the prefix \<open>loc_\<close>. A weight line has two fields:
  its real-valued reading (\<open>loc_Dn\<close>, ...), from which everything after it is computed,
  and its \<open>float64\<close> reading (\<open>loc_Dn_fl\<close>, ...; \<open>loc_a0_fl\<close> is \<^verbatim>\<open>a0[i]\<close>).
\<close>

record locals =
  loc_nsd :: "point list"
  loc_Dn :: vec
  loc_Dx :: vec
  loc_Dxx :: vec
  loc_Dy :: vec
  loc_Dyy :: vec
  loc_A :: mat
  loc_Ax :: mat
  loc_Axx :: mat
  loc_Ay :: mat
  loc_Ayy :: mat
  loc_B :: mat
  loc_Bx :: mat
  loc_Bxx :: mat
  loc_By :: mat
  loc_Byy :: mat
  loc_IA :: mat
  loc_IAx :: mat
  loc_IAxx :: mat
  loc_IAy :: mat
  loc_IAyy :: mat
  loc_a0_fl :: fl
  loc_Dn_fl :: "fl list"
  loc_Dx_fl :: "fl list"
  loc_Dxx_fl :: "fl list"
  loc_Dy_fl :: "fl list"
  loc_Dyy_fl :: "fl list"

text \<open>
  The assignments of one iteration, from \<^verbatim>\<open>nsd = distnod[indices[i, :]]\<close> to \<open>IAyy\<close>.
  \<open>pinv\<close> is \<^verbatim>\<open>numpy.linalg.pinv\<close>, a library routine, taken as a parameter: a function
  from matrices to matrices. What it returns is stated where a theorem needs it (for an
  invertible \<open>A\<close>, the inverse); its own failures on non-finite input are not modelled.
  The parameter \<open>a0\<close> is the real-valued reading of the array \<^verbatim>\<open>a0\<close>; its \<open>float64\<close>
  reading is \<open>a0_fl_of distances\<close>, and \<open>a0f\<close> is its entry for node \<open>i\<close>.
\<close>

definition loop_locals ::
  "(mat \<Rightarrow> mat) \<Rightarrow> point list \<Rightarrow> mat \<Rightarrow> nat list list \<Rightarrow> vec \<Rightarrow> nat \<Rightarrow> locals" where
  "loop_locals pinv distnod distances indices a0 i =
     (let nsd = nsd_of distnod (indices ! i);
          Dn = Dn_of (distances ! i) (a0 ! i);
          Dx = Dx_of nsd (a0 ! i) Dn;
          Dxx = Dxx_of nsd (a0 ! i) Dn;
          Dy = Dy_of nsd (a0 ! i) Dn;
          Dyy = Dyy_of nsd (a0 ! i) Dn;
          a0f = a0_fl_of distances ! i;
          Dnf = Dn_fl (distances ! i) a0f;
          A = A_of nsd Dn;
          Ax = A_of nsd Dx;
          Axx = A_of nsd Dxx;
          Ay = A_of nsd Dy;
          Ayy = A_of nsd Dyy;
          B = B_of nsd Dn;
          Bx = B_of nsd Dx;
          Bxx = B_of nsd Dxx;
          By = B_of nsd Dy;
          Byy = B_of nsd Dyy;
          IA = pinv A;
          IAx = IAx_of IA Ax;
          IAxx = IAxx_of IA Ax Axx;
          IAy = IAx_of IA Ay;
          IAyy = IAxx_of IA Ay Ayy
      in \<lparr> loc_nsd = nsd, loc_Dn = Dn, loc_Dx = Dx, loc_Dxx = Dxx, loc_Dy = Dy, loc_Dyy = Dyy,
           loc_A = A, loc_Ax = Ax, loc_Axx = Axx, loc_Ay = Ay, loc_Ayy = Ayy,
           loc_B = B, loc_Bx = Bx, loc_Bxx = Bxx, loc_By = By, loc_Byy = Byy,
           loc_IA = IA, loc_IAx = IAx, loc_IAxx = IAxx, loc_IAy = IAy, loc_IAyy = IAyy,
           loc_a0_fl = a0f, loc_Dn_fl = Dnf,
           loc_Dx_fl = Dx_fl nsd a0f Dnf, loc_Dxx_fl = Dxx_fl nsd a0f Dnf,
           loc_Dy_fl = Dy_fl nsd a0f Dnf, loc_Dyy_fl = Dyy_fl nsd a0f Dnf \<rparr>)"

text \<open>
  One iteration: the five rows computed from the local variables, and the row index
  repeated once for every neighbour, are appended to the lists.
\<close>

definition loop_body ::
  "(mat \<Rightarrow> mat) \<Rightarrow> point list \<Rightarrow> mat \<Rightarrow> nat list list \<Rightarrow> vec \<Rightarrow> acc \<Rightarrow> nat \<Rightarrow> acc" where
  "loop_body pinv distnod distances indices a0 s i =
     (let v = loop_locals pinv distnod distances indices a0 i
      in s \<lparr> sf_list := sf_list s @ [sf_row (loc_IA v) (loc_B v)],
             sfx_list := sfx_list s @ [sfx_row (loc_IA v) (loc_IAx v) (loc_B v) (loc_Bx v)],
             sfy_list := sfy_list s @ [sfy_row (loc_IA v) (loc_IAy v) (loc_B v) (loc_By v)],
             sfxx_list := sfxx_list s @
               [sfxx_row (loc_IA v) (loc_IAx v) (loc_IAxx v) (loc_B v) (loc_Bx v) (loc_Bxx v)],
             sfyy_list := sfyy_list s @
               [sfyy_row (loc_IA v) (loc_IAy v) (loc_IAyy v) (loc_B v) (loc_By v) (loc_Byy v)],
             i_list := i_list s @ [replicate (length (loc_nsd v)) i] \<rparr>)"

text \<open>The whole loop, started on the empty lists.\<close>

definition run_loop ::
  "(mat \<Rightarrow> mat) \<Rightarrow> point list \<Rightarrow> mat \<Rightarrow> nat list list \<Rightarrow> vec \<Rightarrow> acc" where
  "run_loop pinv distnod distances indices a0 =
     foldl (loop_body pinv distnod distances indices a0) acc0 [0..<length distnod]"

text \<open>
  A sparse matrix, by what it stores: its shape and one value for each stored position
  \<open>(row, column)\<close>.
\<close>

record sparse =
  n_rows :: nat
  n_cols :: nat
  stored :: "((nat \<times> nat) \<times> real) list"

text \<open>
  Modelled from the spec: \<^verbatim>\<open>sp.sparse.csc_matrix((data, (rows, cols)), shape)\<close> is SciPy's,
  not the notebook's. Following the spec's sparse assembly: the matrix stores one entry
  for every distinct (row, column) pair among the triplets, and the values of colliding
  pairs are summed.
\<close>

definition csc_matrix :: "vec \<Rightarrow> nat list \<Rightarrow> nat list \<Rightarrow> nat \<Rightarrow> nat \<Rightarrow> sparse" where
  "csc_matrix data rows cols m n =
     (let trip = zip (zip rows cols) data
      in \<lparr> n_rows = m, n_cols = n,
           stored = map (\<lambda>k. (k, sum_list (map snd (filter (\<lambda>t. fst t = k) trip))))
                        (remdups (map fst trip)) \<rparr>)"

text \<open>
  Two observations of a sparse matrix, used to state what it stores: the columns stored
  in row \<open>i\<close>, and the value stored at \<open>(i, c)\<close>, if any.
\<close>

definition row_cols :: "sparse \<Rightarrow> nat \<Rightarrow> nat list" where
  "row_cols S i = map (snd \<circ> fst) (filter (\<lambda>t. fst (fst t) = i) (stored S))"

definition entry :: "sparse \<Rightarrow> nat \<Rightarrow> nat \<Rightarrow> real option" where
  "entry S i c = map_of (stored S) (i, c)"

text \<open>
  The five operators \<^verbatim>\<open>sf\<close>, \<^verbatim>\<open>sfx\<close>, \<^verbatim>\<open>sfxx\<close>, \<^verbatim>\<open>sfy\<close>, \<^verbatim>\<open>sfyy\<close>, and the code cell
  from the neighbour query to the operators. Reading \<^verbatim>\<open>geom.dat\<close> and saving the result are
  input and output and are left out.
\<close>

record operators =
  sf :: sparse
  sfx :: sparse
  sfxx :: sparse
  sfy :: sparse
  sfyy :: sparse

definition mls :: "(mat \<Rightarrow> mat) \<Rightarrow> point list \<Rightarrow> error + operators" where
  "mls pinv distnod =
     (case kneighbors 30 distnod of
        Inl e \<Rightarrow> Inl e
      | Inr (distances, indices) \<Rightarrow>
          (let a0 = a0_of distances;
               s = run_loop pinv distnod distances indices a0;
               sdi = concat indices;
               il = concat (i_list s);
               n = length distnod
           in Inr \<lparr> sf = csc_matrix (concat (sf_list s)) il sdi n n,
                    sfx = csc_matrix (concat (sfx_list s)) il sdi n n,
                    sfxx = csc_matrix (concat (sfxx_list s)) il sdi n n,
                    sfy = csc_matrix (concat (sfy_list s)) il sdi n n,
                    sfyy = csc_matrix (concat (sfyy_list s)) il sdi n n \<rparr>))"

text \<open>The lists after one iteration for node \<open>i\<close> started on the empty lists.\<close>

definition node_acc ::
  "(mat \<Rightarrow> mat) \<Rightarrow> point list \<Rightarrow> mat \<Rightarrow> nat list list \<Rightarrow> vec \<Rightarrow> nat \<Rightarrow> acc" where
  "node_acc pinv distnod distances indices a0 i =
     loop_body pinv distnod distances indices a0 acc0 i"

subsection \<open>A sample cloud\<close>

text \<open>
  Thirty nodes: node 0 at the origin and 29 nodes with integer coordinates on the circle
  of radius 65 around it. The cloud has exactly 30 nodes, so the neighbours of node 0 are
  all of them: itself at distance 0 and the other 29 at distance 65 (\<open>ring_ds\<close>). Its
  support radius is \<open>0.3 * 65 = 39/2\<close>, and every node of the circle has the weight
  \<open>exp (-(65 / (39/2))\<^sup>2) = exp (-(100/9))\<close>.
\<close>

definition ring_cloud :: "point list" where
  "ring_cloud =
     [(0, 0), (65, 0), (- 65, 0), (0, 65), (- 63, - 16), (- 63, 16), (- 16, - 63), (- 16, 63),
      (16, - 63), (16, 63), (63, - 16), (63, 16), (- 60, - 25), (- 60, 25), (- 25, - 60),
      (- 25, 60), (25, - 60), (25, 60), (60, - 25), (60, 25), (- 56, - 33), (- 56, 33),
      (- 33, - 56), (- 33, 56), (33, - 56), (33, 56), (56, - 33), (56, 33), (39, 52),
      (- 39, 52)]"

definition ring_ds :: vec where
  "ring_ds = 0 # replicate 29 65"

text \<open>
  The same cloud scaled by \<^verbatim>\<open>2^-300\<close>: node 0 at the origin and 29 nodes at the distance
  \<^verbatim>\<open>65 * 2^-300\<close>. Its coordinates and distances are \<open>float64\<close> values.
\<close>

definition tiny_cloud :: "point list" where
  "tiny_cloud = map (\<lambda>q. (fst q / 2 ^ 300, snd q / 2 ^ 300)) ring_cloud"

text \<open>
  The moment matrix of node 0 of the sample cloud when every node of the circle has the
  weight \<open>c\<close>, and its inverse written with \<open>t = 1 / c\<close>.
\<close>

definition ring_A :: "real \<Rightarrow> mat" where
  "ring_A c =
     [ [1 + 29 * c, 0, 169 * c, 62192 * c, 0, 60333 * c],
       [0, 62192 * c, 0, 0, 158184 * c, 0],
       [169 * c, 0, 60333 * c, 158184 * c, 0, 555841 * c],
       [62192 * c, 0, 158184 * c, 201086288 * c, 0, 61674912 * c],
       [0, 158184 * c, 0, 0, 61674912 * c, 0],
       [60333 * c, 0, 555841 * c, 61674912 * c, 0, 193232013 * c] ]"

definition ring_IA :: "real \<Rightarrow> mat" where
  "ring_IA t =
     [ [1, 0, 0, - 1 / 4225, 0, - 1 / 4225],
       [0, 5491 / 339268514 * t, 0, 0, - (1 / 24090072 * t), 0],
       [0, 0, 9440661 / 554469461572 * t, 50031 / 27723473078600 * t, 0,
        - (686897 / 13861736539300 * t)],
       [- 1 / 4225, 0, 50031 / 27723473078600 * t,
        1 / 17850625 + 645727573 / 117131673757085000 * t, 0,
        1 / 17850625 - 206708427 / 117131673757085000 * t],
       [0, - (1 / 24090072 * t), 0, 0, 23 / 1409269212 * t, 0],
       [- 1 / 4225, 0, - (686897 / 13861736539300 * t),
        1 / 17850625 - 206708427 / 117131673757085000 * t, 0,
        1 / 17850625 + 344421849 / 58565836878542500 * t] ]"

subsection \<open>The formulas of the spec, entry by entry\<close>

text \<open>
  The spec gives the derivatives of the inverse and the second-derivative rows as matrix
  formulas. They are written here entry by entry, independently of the array operations
  above, to be compared with what the code computes.
  \<open>triple X Y Z r c\<close> is the entry \<open>(r, c)\<close> of the product \<open>X \<cdot> Y \<cdot> Z\<close> of 6x6 matrices.
\<close>

definition triple :: "mat \<Rightarrow> mat \<Rightarrow> mat \<Rightarrow> nat \<Rightarrow> nat \<Rightarrow> real" where
  "triple X Y Z r c =
     (\<Sum>a\<leftarrow>[0..<6]. \<Sum>b\<leftarrow>[0..<6]. X ! r ! a * Y ! a ! b * Z ! b ! c)"

text \<open>\<open>IAx = -IA \<cdot> Ax \<cdot> IA\<close>\<close>
definition spec_IAx :: "mat \<Rightarrow> mat \<Rightarrow> mat" where
  "spec_IAx IA Ax = map (\<lambda>r. map (\<lambda>c. - triple IA Ax IA r c) [0..<6]) [0..<6]"

text \<open>\<open>IAxx = -IAx \<cdot> Ax \<cdot> IA - IA \<cdot> Axx \<cdot> IA - IA \<cdot> Ax \<cdot> IAx\<close>\<close>
definition spec_IAxx :: "mat \<Rightarrow> mat \<Rightarrow> mat \<Rightarrow> mat \<Rightarrow> mat" where
  "spec_IAxx IA IAx Ax Axx =
     map (\<lambda>r. map (\<lambda>c. - triple IAx Ax IA r c - triple IA Axx IA r c - triple IA Ax IAx r c)
                [0..<6]) [0..<6]"

text \<open>\<open>vm v M a\<close> is the entry \<open>a\<close> of the row \<open>v\<^sup>T \<cdot> M\<close>, for a selector \<open>v\<close> of length 6.\<close>

definition vm :: "vec \<Rightarrow> mat \<Rightarrow> nat \<Rightarrow> real" where
  "vm v M a = (\<Sum>l\<leftarrow>[0..<6]. v ! l * M ! l ! a)"

text \<open>
  The second-derivative row as the spec's claim writes it,
  \<open>(pd2\<^sup>T IA + 2 pd1\<^sup>T IAd + w\<^sup>T IAdd) B\<^sup>T + (w\<^sup>T IAd + 2 pd1\<^sup>T IA + w\<^sup>T IAd) Bd\<^sup>T + w\<^sup>T IA Bdd\<^sup>T\<close>,
  with \<open>w\<^sup>T IAd\<close> twice in the coefficient of \<open>Bd\<^sup>T\<close> (\<open>pd1\<close>, \<open>pd2\<close> are \<open>pdx\<close>, \<open>pdxx\<close> or
  \<open>pdy\<close>, \<open>pdyy\<close>).
\<close>

definition literal_row ::
  "vec \<Rightarrow> vec \<Rightarrow> mat \<Rightarrow> mat \<Rightarrow> mat \<Rightarrow> mat \<Rightarrow> mat \<Rightarrow> mat \<Rightarrow> vec" where
  "literal_row pd1 pd2 IA IAd IAdd B Bd Bdd =
     map (\<lambda>j.
        (\<Sum>a\<leftarrow>[0..<6]. (vm pd2 IA a + 2 * vm pd1 IAd a + vm (ravel w) IAdd a) * B ! j ! a) +
        (\<Sum>a\<leftarrow>[0..<6]. (vm (ravel w) IAd a + 2 * vm pd1 IA a + vm (ravel w) IAd a) * Bd ! j ! a) +
        (\<Sum>a\<leftarrow>[0..<6]. vm (ravel w) IA a * Bdd ! j ! a))
      [0..<length B]"

text \<open>
  The product rule applied twice to \<open>p\<^sup>T \<cdot> IA \<cdot> B\<^sup>T\<close>:
  \<open>(pd2\<^sup>T IA + 2 pd1\<^sup>T IAd + w\<^sup>T IAdd) B\<^sup>T + 2 (pd1\<^sup>T IA + w\<^sup>T IAd) Bd\<^sup>T + w\<^sup>T IA Bdd\<^sup>T\<close>.
\<close>

definition textbook_row ::
  "vec \<Rightarrow> vec \<Rightarrow> mat \<Rightarrow> mat \<Rightarrow> mat \<Rightarrow> mat \<Rightarrow> mat \<Rightarrow> mat \<Rightarrow> vec" where
  "textbook_row pd1 pd2 IA IAd IAdd B Bd Bdd =
     map (\<lambda>j.
        (\<Sum>a\<leftarrow>[0..<6]. (vm pd2 IA a + 2 * vm pd1 IAd a + vm (ravel w) IAdd a) * B ! j ! a) +
        (\<Sum>a\<leftarrow>[0..<6]. 2 * (vm pd1 IA a + vm (ravel w) IAd a) * Bd ! j ! a) +
        (\<Sum>a\<leftarrow>[0..<6]. vm (ravel w) IA a * Bdd ! j ! a))
      [0..<length B]"

subsection \<open>Node 0 of the sample cloud\<close>

text \<open>
  The weights of node 0 of the sample cloud and their derivatives, and the inverse of its
  moment matrix.
\<close>

definition ring_Dn :: vec where "ring_Dn = Dn_of ring_ds (39 / 2)"
definition ring_Dx :: vec where "ring_Dx = Dx_of ring_cloud (39 / 2) ring_Dn"
definition ring_Dxx :: vec where "ring_Dxx = Dxx_of ring_cloud (39 / 2) ring_Dn"
definition ring_inv :: mat where "ring_inv = ring_IA (exp (100 / 9))"

text \<open>
  A stand-in for \<open>pinv\<close> on the sample cloud: it returns the inverse of the moment matrix
  of node 0.
\<close>

definition ring_pinv :: "mat \<Rightarrow> mat" where
  "ring_pinv A = ring_inv"
definition ring_IAx :: mat where "ring_IAx = IAx_of ring_inv (A_of ring_cloud ring_Dx)"
definition ring_IAxx :: mat where
  "ring_IAxx = IAxx_of ring_inv (A_of ring_cloud ring_Dx) (A_of ring_cloud ring_Dxx)"

section \<open>Auxiliary lemmas\<close>

subsection \<open>Shapes and entries of the array operations\<close>

lemma shape_length: "shape r c M \<Longrightarrow> length M = r"
  by (simp add: shape_def)

lemma shape_row: "shape r c M \<Longrightarrow> i < r \<Longrightarrow> length (M ! i) = c"
  by (simp add: shape_def list_all_length)

lemma shapeI: "length M = r \<Longrightarrow> (\<And>i. i < r \<Longrightarrow> length (M ! i) = c) \<Longrightarrow> shape r c M"
  by (simp add: shape_def list_all_length)

lemma ncols_shape: "shape r c M \<Longrightarrow> 0 < r \<Longrightarrow> ncols M = c"
  by (cases M) (auto simp: shape_def ncols_def)

lemma mat_eqI:
  assumes "shape r c M" "shape r c N"
    and "\<And>i j. i < r \<Longrightarrow> j < c \<Longrightarrow> M ! i ! j = N ! i ! j"
  shows "M = N"
proof (rule nth_equalityI)
  show "length M = length N" using assms(1,2) by (simp add: shape_def)
next
  fix i assume "i < length M"
  then have i: "i < r" using assms(1) by (simp add: shape_def)
  show "M ! i = N ! i"
  proof (rule nth_equalityI)
    show "length (M ! i) = length (N ! i)"
      using i assms(1,2) by (simp add: shape_row)
  next
    fix j assume "j < length (M ! i)"
    then have "j < c" using i assms(1) by (simp add: shape_row)
    then show "M ! i ! j = N ! i ! j" using i assms(3) by simp
  qed
qed

lemma vdot_sum: "length u = k \<Longrightarrow> length v = k \<Longrightarrow> vdot u v = (\<Sum>l<k. u ! l * v ! l)"
proof -
  assume a: "length u = k" "length v = k"
  have "vdot u v = (\<Sum>l = 0..<length (map2 (*) u v). map2 (*) u v ! l)"
    unfolding vdot_def by (rule sum_list_sum_nth)
  also have "\<dots> = (\<Sum>l<k. u ! l * v ! l)"
    using a by (intro sum.cong) (auto simp: lessThan_atLeast0)
  finally show ?thesis .
qed

lemma dot_shape: "shape r k M \<Longrightarrow> shape k c N \<Longrightarrow> 0 < k \<Longrightarrow> shape r c (dot M N)"
  by (rule shapeI) (simp_all add: dot_def shape_length ncols_shape)

lemma dot_nth:
  assumes "shape r k M" "shape k c N" "0 < k" "i < r" "j < c"
  shows "dot M N ! i ! j = (\<Sum>l<k. M ! i ! l * N ! l ! j)"
proof -
  have "dot M N ! i ! j = vdot (M ! i) (col N j)"
    using assms by (simp add: dot_def shape_length ncols_shape)
  also have "\<dots> = (\<Sum>l<k. M ! i ! l * col N j ! l)"
    using assms by (intro vdot_sum) (simp_all add: shape_row col_def shape_length)
  also have "\<dots> = (\<Sum>l<k. M ! i ! l * N ! l ! j)"
    using assms by (intro sum.cong) (simp_all add: col_def shape_length)
  finally show ?thesis .
qed

lemma transpose_shape: "shape r c M \<Longrightarrow> 0 < r \<Longrightarrow> shape c r (transpose_m M)"
  by (rule shapeI) (simp_all add: transpose_m_def ncols_shape col_def shape_length)

lemma transpose_nth: "shape r c M \<Longrightarrow> 0 < r \<Longrightarrow> i < r \<Longrightarrow> j < c \<Longrightarrow> transpose_m M ! j ! i = M ! i ! j"
  by (simp add: transpose_m_def ncols_shape col_def shape_length)

lemma diag_shape: "length v = k \<Longrightarrow> shape k k (diag v)"
  by (rule shapeI) (simp_all add: diag_def)

lemma diag_nth: "length v = k \<Longrightarrow> i < k \<Longrightarrow> j < k \<Longrightarrow> diag v ! i ! j = (if i = j then v ! i else 0)"
  by (simp add: diag_def)

lemma madd_shape: "shape r c M \<Longrightarrow> shape r c N \<Longrightarrow> shape r c (madd M N)"
  by (rule shapeI) (simp_all add: madd_def shape_length shape_row)

lemma madd_nth: "shape r c M \<Longrightarrow> shape r c N \<Longrightarrow> i < r \<Longrightarrow> j < c \<Longrightarrow> madd M N ! i ! j = M ! i ! j + N ! i ! j"
  by (simp add: madd_def shape_length shape_row)

lemma msub_shape: "shape r c M \<Longrightarrow> shape r c N \<Longrightarrow> shape r c (msub M N)"
  by (rule shapeI) (simp_all add: msub_def shape_length shape_row)

lemma msub_nth: "shape r c M \<Longrightarrow> shape r c N \<Longrightarrow> i < r \<Longrightarrow> j < c \<Longrightarrow> msub M N ! i ! j = M ! i ! j - N ! i ! j"
  by (simp add: msub_def shape_length shape_row)

lemma mneg_shape: "shape r c M \<Longrightarrow> shape r c (mneg M)"
  by (rule shapeI) (simp_all add: mneg_def shape_length shape_row)

lemma mneg_nth: "shape r c M \<Longrightarrow> i < r \<Longrightarrow> j < c \<Longrightarrow> mneg M ! i ! j = - (M ! i ! j)"
  by (simp add: mneg_def shape_length shape_row)

lemma smul_shape: "shape r c M \<Longrightarrow> shape r c (smul a M)"
  by (rule shapeI) (simp_all add: smul_def shape_length shape_row)

lemma smul_nth: "shape r c M \<Longrightarrow> i < r \<Longrightarrow> j < c \<Longrightarrow> smul a M ! i ! j = a * (M ! i ! j)"
  by (simp add: smul_def shape_length shape_row)

lemma eye_shape: "shape n n (eye n)"
  by (rule shapeI) (simp_all add: eye_def)

lemma eye_nth: "i < n \<Longrightarrow> j < n \<Longrightarrow> eye n ! i ! j = (if i = j then 1 else 0)"
  by (simp add: eye_def)

lemma w_row_eq: "w_row = [[1, 0, 0, 0, 0, 0]]"
  by (simp add: w_row_def w_def transpose_m_def ncols_def col_def)

lemma pdx_row_eq: "pdx_row = [[0, 1, 0, 0, 0, 0]]"
  by (simp add: pdx_row_def pdx_def transpose_m_def ncols_def col_def)

lemma pdxx_row_eq: "pdxx_row = [[0, 0, 0, 2, 0, 0]]"
  by (simp add: pdxx_row_def pdxx_def transpose_m_def ncols_def col_def)

lemma pdy_row_eq: "pdy_row = [[0, 0, 1, 0, 0, 0]]"
  by (simp add: pdy_row_def pdy_def transpose_m_def ncols_def col_def)

lemma pdyy_row_eq: "pdyy_row = [[0, 0, 0, 0, 0, 2]]"
  by (simp add: pdyy_row_def pdyy_def transpose_m_def ncols_def col_def)

lemma concat_singletons: "concat (map (\<lambda>j. [f j]) xs) = map f xs"
  by (induction xs) simp_all

lemma ravel_transpose_row: "ravel (transpose_m [r]) = r"
proof -
  have "col [r] = (\<lambda>j. [r ! j])" by (rule ext) (simp add: col_def)
  then show ?thesis
    by (simp add: ravel_def transpose_m_def ncols_def concat_singletons map_nth)
qed

lemma shape_one_row: "shape 1 c M \<Longrightarrow> M = [M ! 0]"
  by (cases M) (auto simp: shape_def)

lemma ravel_transpose_one: "shape 1 c M \<Longrightarrow> ravel (transpose_m M) = M ! 0"
  using ravel_transpose_row[of "M ! 0"] shape_one_row[of c M] by simp

subsection \<open>The weighted matrices and the shape-function row\<close>

lemma p_mat_shape: "length nsd = k \<Longrightarrow> shape 6 k (p_mat nsd)"
  by (simp add: shape_def p_mat_def)


lemma B_shape:
  assumes "length nsd = k" "length D = k" "0 < k"
  shows "shape k 6 (B_of nsd D)"
  unfolding B_of_def
  by (rule dot_shape[OF diag_shape[OF assms(2)] transpose_shape[OF p_mat_shape[OF assms(1)]] assms(3)]) simp

lemma B_nth:
  assumes "length nsd = k" "length D = k" "0 < k" "j < k" "a < 6"
  shows "B_of nsd D ! j ! a = D ! j * p_mat nsd ! a ! j"
proof -
  have T: "shape k 6 (transpose_m (p_mat nsd))"
    by (rule transpose_shape[OF p_mat_shape[OF assms(1)]]) simp
  have "B_of nsd D ! j ! a = (\<Sum>l<k. diag D ! j ! l * transpose_m (p_mat nsd) ! l ! a)"
    unfolding B_of_def by (rule dot_nth[OF diag_shape[OF assms(2)] T assms(3,4,5)])
  also have "\<dots> = (\<Sum>l<k. if l = j then D ! j * p_mat nsd ! a ! j else 0)"
    using assms
    by (intro sum.cong refl)
       (simp add: diag_nth transpose_nth[OF p_mat_shape[OF assms(1)]])
  also have "\<dots> = D ! j * p_mat nsd ! a ! j"
    using assms(4) by simp
  finally show ?thesis .
qed

lemma A_shape:
  assumes "length nsd = k" "length D = k" "0 < k"
  shows "shape 6 6 (A_of nsd D)"
  using dot_shape[OF p_mat_shape[OF assms(1)] B_shape[OF assms] assms(3)]
  by (simp add: A_of_def B_of_def)

lemma A_nth:
  assumes "length nsd = k" "length D = k" "0 < k" "a < 6" "b < 6"
  shows "A_of nsd D ! a ! b = (\<Sum>j<k. p_mat nsd ! a ! j * (D ! j * p_mat nsd ! b ! j))"
proof -
  have "A_of nsd D ! a ! b = (\<Sum>j<k. p_mat nsd ! a ! j * B_of nsd D ! j ! b)"
    using dot_nth[OF p_mat_shape[OF assms(1)] B_shape[OF assms(1,2,3)] assms(3,4,5)]
    by (simp add: A_of_def B_of_def)
  also have "\<dots> = (\<Sum>j<k. p_mat nsd ! a ! j * (D ! j * p_mat nsd ! b ! j))"
    by (intro sum.cong refl) (simp add: B_nth[OF assms(1,2,3) _ assms(5)])
  finally show ?thesis .
qed

lemma sum_lessThan_6: "(\<Sum>l<(6::nat). f l) = f 0 + f 1 + f 2 + f 3 + f 4 + (f 5 :: real)"
  by (simp add: eval_nat_numeral lessThan_Suc)

lemma w_row_shape: "shape 1 6 w_row" by (simp add: w_row_eq shape_def)

lemma pdx_row_shape: "shape 1 6 pdx_row" by (simp add: pdx_row_eq shape_def)

lemma pdxx_row_shape: "shape 1 6 pdxx_row" by (simp add: pdxx_row_eq shape_def)

lemma pdy_row_shape: "shape 1 6 pdy_row" by (simp add: pdy_row_eq shape_def)

lemma pdyy_row_shape: "shape 1 6 pdyy_row" by (simp add: pdyy_row_eq shape_def)


lemma dot_pdx_row: "shape 6 c M \<Longrightarrow> a < c \<Longrightarrow> dot pdx_row M ! 0 ! a = M ! 1 ! a"
  using dot_nth[OF pdx_row_shape, of c M 0 a]
  by (simp add: sum_lessThan_6 pdx_row_eq)

lemma dot_pdxx_row: "shape 6 c M \<Longrightarrow> a < c \<Longrightarrow> dot pdxx_row M ! 0 ! a = 2 * M ! 3 ! a"
  using dot_nth[OF pdxx_row_shape, of c M 0 a]
  by (simp add: sum_lessThan_6 pdxx_row_eq)

lemma dot_pdy_row: "shape 6 c M \<Longrightarrow> a < c \<Longrightarrow> dot pdy_row M ! 0 ! a = M ! 2 ! a"
  using dot_nth[OF pdy_row_shape, of c M 0 a]
  by (simp add: sum_lessThan_6 pdy_row_eq)

lemma dot_pdyy_row: "shape 6 c M \<Longrightarrow> a < c \<Longrightarrow> dot pdyy_row M ! 0 ! a = 2 * M ! 5 ! a"
  using dot_nth[OF pdyy_row_shape, of c M 0 a]
  by (simp add: sum_lessThan_6 pdyy_row_eq)

lemma row_dot_transpose_shape:
  assumes "shape 1 6 R" "shape k 6 B" "0 < k"
  shows "shape 1 k (dot R (transpose_m B))"
  by (rule dot_shape[OF assms(1) transpose_shape[OF assms(2,3)]]) simp

lemma row_dot_transpose_nth:
  assumes "shape 1 6 R" "shape k 6 B" "0 < k" "j < k"
  shows "dot R (transpose_m B) ! 0 ! j = (\<Sum>a<6. R ! 0 ! a * B ! j ! a)"
proof -
  have "dot R (transpose_m B) ! 0 ! j = (\<Sum>a<6. R ! 0 ! a * transpose_m B ! a ! j)"
    by (rule dot_nth[OF assms(1) transpose_shape[OF assms(2,3)] _ _ assms(4)]) simp_all
  also have "\<dots> = (\<Sum>a<6. R ! 0 ! a * B ! j ! a)"
    by (intro sum.cong refl) (simp add: transpose_nth[OF assms(2,3,4)])
  finally show ?thesis .
qed




subsection \<open>Nearest neighbours\<close>

lemma euclid_nonneg: "0 \<le> euclid p q"
  by (simp add: euclid_def)

lemma euclid_self: "euclid p p = 0"
  by (simp add: euclid_def)

lemma euclid_zero_iff: "euclid p q = 0 \<longleftrightarrow> p = q"
proof
  assume "euclid p q = 0"
  then have "(fst p - fst q)\<^sup>2 + (snd p - snd q)\<^sup>2 = 0"
    by (simp add: euclid_def)
  then have "fst p = fst q" "snd p = snd q"
    by (simp_all add: sum_power2_eq_zero_iff)
  then show "p = q" by (rule prod_eqI)
next
  assume "p = q" then show "euclid p q = 0" by (simp add: euclid_self)
qed

lemma map_insort_key: "map f (insort_key f x xs) = insort (f x) (map f xs)"
  by (induction xs) simp_all

lemma map_sort_key: "map f (sort_key f xs) = sort (map f xs)"
  by (induction xs) (simp_all add: map_insort_key)

lemma neighbors_length: "k \<le> length pts \<Longrightarrow> length (neighbors k pts q) = k"
  by (simp add: neighbors_def)

lemma neighbors_distinct: "distinct (neighbors k pts q)"
  by (simp add: neighbors_def distinct_take)

lemma neighbors_bound: "j \<in> set (neighbors k pts q) \<Longrightarrow> j < length pts"
  unfolding neighbors_def using set_take_subset[of k "sort_key (\<lambda>j. euclid q (pts ! j)) [0..<length pts]"]
  by auto

lemma keys_upt: "map (\<lambda>j. g (pts ! j)) [0..<length pts] = map g pts"
proof -
  have "map (\<lambda>j. g (pts ! j)) [0..<length pts] = map g (map (\<lambda>j. pts ! j) [0..<length pts])"
    by simp
  then show ?thesis by (simp only: map_nth)
qed

lemma neighbors_keys:
  "map (\<lambda>j. euclid q (pts ! j)) (neighbors k pts q) = take k (sort (map (euclid q) pts))"
proof -
  have "map (\<lambda>j. euclid q (pts ! j)) (sort_key (\<lambda>j. euclid q (pts ! j)) [0..<length pts])
        = sort (map (euclid q) pts)"
    by (simp only: map_sort_key keys_upt)
  then show ?thesis by (simp only: neighbors_def take_map[symmetric])
qed

lemma knn_distances_row:
  "i < length pts \<Longrightarrow> knn_distances k pts ! i = take k (sort (map (euclid (pts ! i)) pts))"
  by (simp add: knn_distances_def neighbors_keys)

lemma knn_indices_row:
  "i < length pts \<Longrightarrow> knn_indices k pts ! i = neighbors k pts (pts ! i)"
  by (simp add: knn_indices_def)

lemma knn_distances_nth:
  "i < length pts \<Longrightarrow> k \<le> length pts \<Longrightarrow> j < k \<Longrightarrow>
   knn_distances k pts ! i ! j = euclid (pts ! i) (pts ! (knn_indices k pts ! i ! j))"
  by (simp add: knn_distances_def knn_indices_def neighbors_length)

lemma first_neighbor:
  assumes "i < length pts" "0 < k"
  shows "pts ! (neighbors k pts (pts ! i) ! 0) = pts ! i"
proof -
  let ?q = "pts ! i"
  let ?f = "\<lambda>j. euclid ?q (pts ! j)"
  let ?L = "sort_key ?f [0..<length pts]"
  have len: "length ?L = length pts" by simp
  have "i \<in> set ?L" using assms(1) by simp
  then have "\<exists>m<length ?L. ?L ! m = i" by (simp only: in_set_conv_nth)
  then obtain m where m: "m < length ?L" "?L ! m = i" by blast
  have "sorted (map ?f ?L)" by (rule sorted_sort_key)
  then have "map ?f ?L ! 0 \<le> map ?f ?L ! m"
    by (rule sorted_nth_mono) (use m in simp_all)
  moreover have "map ?f ?L ! 0 = ?f (?L ! 0)" by (rule nth_map) (use assms(1) in auto)
  moreover have "map ?f ?L ! m = ?f (?L ! m)" by (rule nth_map) (rule m(1))
  ultimately have "?f (?L ! 0) \<le> ?f i" using m(2) by simp
  then have "?f (?L ! 0) = 0" using euclid_nonneg[of ?q "pts ! (?L ! 0)"] by (simp add: euclid_self)
  then have "pts ! (?L ! 0) = ?q" by (simp add: euclid_zero_iff)
  then show ?thesis using assms(2) by (simp add: neighbors_def)
qed

lemma nsd_length: "k \<le> length pts \<Longrightarrow> i < length pts \<Longrightarrow>
   length (nsd_of pts (knn_indices k pts ! i)) = k"
  by (simp add: nsd_of_def knn_indices_row neighbors_length)

lemma nsd_origin: "0 < k \<Longrightarrow> k \<le> length pts \<Longrightarrow> i < length pts \<Longrightarrow>
   nsd_of pts (knn_indices k pts ! i) ! 0 = pts ! i"
  by (simp add: nsd_of_def knn_indices_row neighbors_length first_neighbor)

lemma nsd_nth: "k \<le> length pts \<Longrightarrow> i < length pts \<Longrightarrow> j < k \<Longrightarrow>
   nsd_of pts (knn_indices k pts ! i) ! j = pts ! (knn_indices k pts ! i ! j)"
  by (simp add: nsd_of_def knn_indices_row neighbors_length)

subsection \<open>The weight kernel\<close>

lemma Dn_nth: "j < length ds \<Longrightarrow> Dn_of ds a0 ! j = exp (- ((ds ! j / a0) ^ 2))"
  by (simp add: Dn_of_def)

lemma Dn_length: "length (Dn_of ds a0) = length ds"
  by (simp add: Dn_of_def)

lemma Dx_nth: "j < length nsd \<Longrightarrow> j < length Dn \<Longrightarrow>
  Dx_of nsd a0 Dn ! j = (- 2 / (a0 ^ 2)) * (fst (nsd ! 0) - fst (nsd ! j)) * Dn ! j"
  by (simp add: Dx_of_def)

lemma Dxx_nth: "j < length nsd \<Longrightarrow> j < length Dn \<Longrightarrow>
  Dxx_of nsd a0 Dn ! j = (- 2 / (a0 ^ 4)) * (a0 ^ 2 - 2 * (fst (nsd ! 0) - fst (nsd ! j)) ^ 2) * Dn ! j"
  by (simp add: Dxx_of_def)

lemma Dy_nth: "j < length nsd \<Longrightarrow> j < length Dn \<Longrightarrow>
  Dy_of nsd a0 Dn ! j = (- 2 / (a0 ^ 2)) * (snd (nsd ! 0) - snd (nsd ! j)) * Dn ! j"
  by (simp add: Dy_of_def)

lemma Dyy_nth: "j < length nsd \<Longrightarrow> j < length Dn \<Longrightarrow>
  Dyy_of nsd a0 Dn ! j = (- 2 / (a0 ^ 4)) * (a0 ^ 2 - 2 * (snd (nsd ! 0) - snd (nsd ! j)) ^ 2) * Dn ! j"
  by (simp add: Dyy_of_def)

lemma second_at_zero: "a0 \<noteq> 0 \<Longrightarrow> (- 2 / (a0 ^ 4)) * (a0 ^ 2 - 2 * 0 ^ 2) * 1 = - 2 / (a0 ^ 2 :: real)"
  by (simp add: power4_eq_xxxx power2_eq_square)

lemma knn_distances_row_length:
  "k \<le> length pts \<Longrightarrow> i < length pts \<Longrightarrow> length (knn_distances k pts ! i) = k"
  by (simp add: knn_distances_def neighbors_length)

subsection \<open>The rows appended by the loop\<close>

lemma dot_length: "length (dot M N) = length M"
  by (simp add: dot_def)

lemma madd_length: "length (madd M N) = min (length M) (length N)"
  by (simp add: madd_def)

lemma smul_length: "length (smul c M) = length M"
  by (simp add: smul_def)

lemma w_row_length: "length w_row = 1" by (simp add: w_row_eq)

lemma pdx_row_length: "length pdx_row = 1" by (simp add: pdx_row_eq)

lemma pdxx_row_length: "length pdxx_row = 1" by (simp add: pdxx_row_eq)

lemma pdy_row_length: "length pdy_row = 1" by (simp add: pdy_row_eq)

lemma pdyy_row_length: "length pdyy_row = 1" by (simp add: pdyy_row_eq)

lemmas sel_lengths = w_row_length pdx_row_length pdxx_row_length pdy_row_length pdyy_row_length
  dot_length madd_length smul_length

lemma one_row_times:
  assumes "length R = 1" "shape k 6 B" "0 < k"
  shows "shape 1 k (dot R (transpose_m B))"
proof (rule shapeI)
  show "length (dot R (transpose_m B)) = 1" using assms(1) by (simp add: dot_length)
next
  fix i :: nat assume "i < 1"
  then show "length (dot R (transpose_m B) ! i) = k"
    using assms(1) ncols_shape[OF transpose_shape[OF assms(2,3)]]
    by (simp add: dot_def)
qed

lemma ravel_one_length: "shape 1 k X \<Longrightarrow> length (ravel (transpose_m X)) = k"
  using shape_row[of 1 k X 0] by (simp add: ravel_transpose_one)

lemma sf_row_len:
  assumes "shape k 6 B" "0 < k"
  shows "length (sf_row IA B) = k"
  unfolding sf_row_def
  by (rule ravel_one_length, rule one_row_times[OF _ assms]) (simp add: sel_lengths)

lemma sfx_row_len:
  assumes "shape k 6 B" "shape k 6 Bx" "0 < k"
  shows "length (sfx_row IA IAx B Bx) = k"
  unfolding sfx_row_def
  by (rule ravel_one_length, rule madd_shape;
      rule one_row_times[OF _ assms(1,3)] one_row_times[OF _ assms(2,3)])
     (simp_all add: sel_lengths)

lemma sfy_row_len:
  assumes "shape k 6 B" "shape k 6 By" "0 < k"
  shows "length (sfy_row IA IAy B By) = k"
  unfolding sfy_row_def
  by (rule ravel_one_length, rule madd_shape;
      rule one_row_times[OF _ assms(1,3)] one_row_times[OF _ assms(2,3)])
     (simp_all add: sel_lengths)

lemma sfxx_row_len:
  assumes "shape k 6 B" "shape k 6 Bx" "shape k 6 Bxx" "0 < k"
  shows "length (sfxx_row IA IAx IAxx B Bx Bxx) = k"
  unfolding sfxx_row_def
  apply (rule ravel_one_length)
  apply (rule madd_shape)
   apply (rule madd_shape)
    apply (rule one_row_times[OF _ assms(1,4)], simp add: sel_lengths)
   apply (rule one_row_times[OF _ assms(2,4)], simp add: sel_lengths)
  apply (rule one_row_times[OF _ assms(3,4)], simp add: sel_lengths)
  done

lemma sfyy_row_len:
  assumes "shape k 6 B" "shape k 6 By" "shape k 6 Byy" "0 < k"
  shows "length (sfyy_row IA IAy IAyy B By Byy) = k"
  unfolding sfyy_row_def
  apply (rule ravel_one_length)
  apply (rule madd_shape)
   apply (rule madd_shape)
    apply (rule one_row_times[OF _ assms(1,4)], simp add: sel_lengths)
   apply (rule one_row_times[OF _ assms(2,4)], simp add: sel_lengths)
  apply (rule one_row_times[OF _ assms(3,4)], simp add: sel_lengths)
  done

lemma D_lengths:
  "length (Dx_of nsd a0 Dn) = min (length nsd) (length Dn)"
  "length (Dxx_of nsd a0 Dn) = min (length nsd) (length Dn)"
  "length (Dy_of nsd a0 Dn) = min (length nsd) (length Dn)"
  "length (Dyy_of nsd a0 Dn) = min (length nsd) (length Dn)"
  by (simp_all add: Dx_of_def Dxx_of_def Dy_of_def Dyy_of_def)

lemma foldl_appends:
  assumes "\<And>s i. g (f s i) = g s @ [h i]"
  shows "g (foldl f s xs) = g s @ map h xs"
  by (induction xs arbitrary: s) (simp_all add: assms)

lemma loop_body_fields:
  "i_list (loop_body p dn ds idx a0 s i) = i_list s @ [hd (i_list (node_acc p dn ds idx a0 i))]"
  "sf_list (loop_body p dn ds idx a0 s i) = sf_list s @ [hd (sf_list (node_acc p dn ds idx a0 i))]"
  "sfx_list (loop_body p dn ds idx a0 s i) = sfx_list s @ [hd (sfx_list (node_acc p dn ds idx a0 i))]"
  "sfxx_list (loop_body p dn ds idx a0 s i) = sfxx_list s @ [hd (sfxx_list (node_acc p dn ds idx a0 i))]"
  "sfy_list (loop_body p dn ds idx a0 s i) = sfy_list s @ [hd (sfy_list (node_acc p dn ds idx a0 i))]"
  "sfyy_list (loop_body p dn ds idx a0 s i) = sfyy_list s @ [hd (sfyy_list (node_acc p dn ds idx a0 i))]"
  by (simp_all add: loop_body_def loop_locals_def node_acc_def acc0_def Let_def)

lemma run_loop_fields:
  "i_list (run_loop p dn ds idx a0) = map (\<lambda>i. hd (i_list (node_acc p dn ds idx a0 i))) [0..<length dn]"
  "sf_list (run_loop p dn ds idx a0) = map (\<lambda>i. hd (sf_list (node_acc p dn ds idx a0 i))) [0..<length dn]"
  "sfx_list (run_loop p dn ds idx a0) = map (\<lambda>i. hd (sfx_list (node_acc p dn ds idx a0 i))) [0..<length dn]"
  "sfxx_list (run_loop p dn ds idx a0) = map (\<lambda>i. hd (sfxx_list (node_acc p dn ds idx a0 i))) [0..<length dn]"
  "sfy_list (run_loop p dn ds idx a0) = map (\<lambda>i. hd (sfy_list (node_acc p dn ds idx a0 i))) [0..<length dn]"
  "sfyy_list (run_loop p dn ds idx a0) = map (\<lambda>i. hd (sfyy_list (node_acc p dn ds idx a0 i))) [0..<length dn]"
  unfolding run_loop_def
  using foldl_appends[of i_list "loop_body p dn ds idx a0", OF loop_body_fields(1), of acc0]
        foldl_appends[of sf_list "loop_body p dn ds idx a0", OF loop_body_fields(2), of acc0]
        foldl_appends[of sfx_list "loop_body p dn ds idx a0", OF loop_body_fields(3), of acc0]
        foldl_appends[of sfxx_list "loop_body p dn ds idx a0", OF loop_body_fields(4), of acc0]
        foldl_appends[of sfy_list "loop_body p dn ds idx a0", OF loop_body_fields(5), of acc0]
        foldl_appends[of sfyy_list "loop_body p dn ds idx a0", OF loop_body_fields(6), of acc0]
  by (simp_all add: acc0_def)

lemma node_i_list: "hd (i_list (node_acc p dn ds idx a0 i)) = replicate (length (nsd_of dn (idx ! i))) i"
  by (simp add: node_acc_def loop_body_def loop_locals_def acc0_def Let_def)


lemma node_row_lengths:
  assumes "length (nsd_of dn (idx ! i)) = k" "length (ds ! i) = k" "0 < k"
  shows "length (hd (sf_list (node_acc p dn ds idx a0 i))) = k"
    and "length (hd (sfx_list (node_acc p dn ds idx a0 i))) = k"
    and "length (hd (sfxx_list (node_acc p dn ds idx a0 i))) = k"
    and "length (hd (sfy_list (node_acc p dn ds idx a0 i))) = k"
    and "length (hd (sfyy_list (node_acc p dn ds idx a0 i))) = k"
proof -
  let ?nsd = "nsd_of dn (idx ! i)"
  let ?Dn = "Dn_of (ds ! i) (a0 ! i)"
  have lD: "length ?Dn = k" using assms(2) by (simp add: Dn_length)
  have B: "shape k 6 (B_of ?nsd D)" if "length D = k" for D
    by (rule B_shape[OF assms(1) that assms(3)])
  have l: "length (Dx_of ?nsd (a0 ! i) ?Dn) = k" "length (Dxx_of ?nsd (a0 ! i) ?Dn) = k"
      "length (Dy_of ?nsd (a0 ! i) ?Dn) = k" "length (Dyy_of ?nsd (a0 ! i) ?Dn) = k"
    using assms(1) lD by (simp_all add: D_lengths)
  show "length (hd (sf_list (node_acc p dn ds idx a0 i))) = k"
    by (simp add: node_acc_def loop_body_def loop_locals_def acc0_def Let_def sf_row_len[OF B[OF lD] assms(3)])
  show "length (hd (sfx_list (node_acc p dn ds idx a0 i))) = k"
    by (simp add: node_acc_def loop_body_def loop_locals_def acc0_def Let_def
        sfx_row_len[OF B[OF lD] B[OF l(1)] assms(3)])
  show "length (hd (sfxx_list (node_acc p dn ds idx a0 i))) = k"
    by (simp add: node_acc_def loop_body_def loop_locals_def acc0_def Let_def
        sfxx_row_len[OF B[OF lD] B[OF l(1)] B[OF l(2)] assms(3)])
  show "length (hd (sfy_list (node_acc p dn ds idx a0 i))) = k"
    by (simp add: node_acc_def loop_body_def loop_locals_def acc0_def Let_def
        sfy_row_len[OF B[OF lD] B[OF l(3)] assms(3)])
  show "length (hd (sfyy_list (node_acc p dn ds idx a0 i))) = k"
    by (simp add: node_acc_def loop_body_def loop_locals_def acc0_def Let_def
        sfyy_row_len[OF B[OF lD] B[OF l(3)] B[OF l(4)] assms(3)])
qed

subsection \<open>Blocks of triplets and the sparse constructor\<close>

lemma length_concat_uniform:
  "(\<And>xs. xs \<in> set xss \<Longrightarrow> length xs = n) \<Longrightarrow> length (concat xss) = length xss * n"
  by (induction xss) simp_all

lemma concat_nth_uniform:
  "(\<And>xs. xs \<in> set xss \<Longrightarrow> length xs = n) \<Longrightarrow> i < length xss \<Longrightarrow> j < n \<Longrightarrow>
   concat xss ! (i * n + j) = xss ! i ! j"
proof (induction xss arbitrary: i)
  case Nil
  then show ?case by simp
next
  case (Cons x xss)
  have lx: "length x = n" using Cons.prems(1) by simp
  show ?case
  proof (cases i)
    case 0
    then show ?thesis using lx Cons.prems(3) by (simp add: nth_append)
  next
    case (Suc i')
    have "concat (x # xss) ! (i * n + j) = (x @ concat xss) ! (length x + (i' * n + j))"
      using Suc lx by (simp add: add.assoc)
    also have "\<dots> = concat xss ! (i' * n + j)" by (rule nth_append_length_plus)
    also have "\<dots> = xss ! i' ! j"
      using Cons.IH[of i'] Cons.prems Suc by simp
    finally show ?thesis using Suc by simp
  qed
qed

lemma zip_concat_map:
  assumes "\<And>i. i \<in> set is \<Longrightarrow> length (f i) = length (g i)"
  shows "zip (concat (map f is)) (concat (map g is)) = concat (map (\<lambda>i. zip (f i) (g i)) is)"
  using assms by (induction "is") (simp_all add: zip_append)

lemma concat_map_pick:
  "i < n \<Longrightarrow> concat (map (\<lambda>i'. if i' = i then b else []) [0..<n]) = b"
proof (induction n)
  case 0
  then show ?case by simp
next
  case (Suc n)
  show ?case
  proof (cases "i = n")
    case True
    have "concat (map (\<lambda>i'. if i' = i then b else []) [0..<n]) = []"
      using True by (simp add: concat_eq_Nil_conv)
    then show ?thesis using True by simp
  next
    case False
    then have "i < n" using Suc.prems by simp
    then show ?thesis using Suc.IH False by simp
  qed
qed

lemma filter_concat_map: "filter P (concat (map f xs)) = concat (map (\<lambda>x. filter P (f x)) xs)"
  by (induction xs) simp_all

lemma distinct_keyed_blocks:
  assumes "\<And>i. i < n \<Longrightarrow> distinct (f i)"
  shows "distinct (concat (map (\<lambda>i. map (Pair i) (f i)) [0..<n])) \<and>
         (\<forall>x \<in> set (concat (map (\<lambda>i. map (Pair i) (f i)) [0..<n])). fst x < n)"
  using assms
proof (induction n)
  case 0
  then show ?case by simp
next
  case (Suc n)
  have IH: "distinct (concat (map (\<lambda>i. map (Pair i) (f i)) [0..<n]))"
    "\<forall>x \<in> set (concat (map (\<lambda>i. map (Pair i) (f i)) [0..<n])). fst x < n"
    using Suc.IH Suc.prems by simp_all
  have d: "distinct (map (Pair n) (f n))"
    using Suc.prems[of n] by (simp add: distinct_map inj_on_def)
  show ?case using IH d by (auto simp: less_Suc_eq)
qed

lemma filter_zip_distinct:
  "length ks = length vs \<Longrightarrow> distinct ks \<Longrightarrow> p < length ks \<Longrightarrow>
   filter (\<lambda>t. fst t = ks ! p) (zip ks vs) = [(ks ! p, vs ! p)]"
proof (induction ks vs arbitrary: p rule: list_induct2)
  case Nil
  then show ?case by simp
next
  case (Cons k ks v vs)
  show ?case
  proof (cases p)
    case 0
    have "\<And>t. t \<in> set (zip ks vs) \<Longrightarrow> fst t \<noteq> k"
      using Cons.prems(1) by (auto dest: set_zip_leftD)
    then have "filter (\<lambda>t. fst t = k) (zip ks vs) = []"
      by (simp add: filter_empty_conv)
    then show ?thesis using 0 by simp
  next
    case (Suc p')
    then have p': "p' < length ks" using Cons.prems(2) by simp
    then have "ks ! p' \<noteq> k" using Cons.prems(1) by auto
    then show ?thesis using Suc Cons.IH[of p'] Cons.prems(1) p' by auto
  qed
qed

lemma csc_stored:
  "stored (csc_matrix data rows cols m n) =
     map (\<lambda>k. (k, sum_list (map snd (filter (\<lambda>t. fst t = k) (zip (zip rows cols) data)))))
         (remdups (map fst (zip (zip rows cols) data)))"
  by (simp add: csc_matrix_def Let_def)

lemma csc_entry:
  "entry (csc_matrix data rows cols m n) r c =
     (if (r, c) \<in> set (map fst (zip (zip rows cols) data))
      then Some (sum_list (map snd (filter (\<lambda>t. fst t = (r, c)) (zip (zip rows cols) data))))
      else None)"
  unfolding entry_def csc_stored
  by (simp add: map_of_map_restrict restrict_map_def del: set_map)

lemma csc_row_cols:
  "row_cols (csc_matrix data rows cols m n) r =
     map snd (filter (\<lambda>k. fst k = r) (remdups (map fst (zip (zip rows cols) data))))"
  unfolding row_cols_def csc_stored
  by (simp add: filter_map comp_def)

lemma csc_row_count:
  "length (row_cols (csc_matrix data rows cols m n) r) \<le>
   length (filter (\<lambda>t. fst (fst t) = r) (zip (zip rows cols) data))"
proof -
  let ?keys = "map fst (zip (zip rows cols) data)"
  have "length (row_cols (csc_matrix data rows cols m n) r) =
        length (remdups (filter (\<lambda>k. fst k = r) ?keys))"
    by (simp add: csc_row_cols remdups_filter)
  also have "\<dots> \<le> length (filter (\<lambda>k. fst k = r) ?keys)" by (rule length_remdups_leq)
  also have "\<dots> = length (filter (\<lambda>t. fst (fst t) = r) (zip (zip rows cols) data))"
    by (simp add: filter_map comp_def)
  finally show ?thesis .
qed

lemma csc_blocks:
  assumes idx: "length idx = N" "\<And>i. i < N \<Longrightarrow> length (idx ! i) = k" "\<And>i. i < N \<Longrightarrow> distinct (idx ! i)"
    and rws: "length rws = N" "\<And>i. i < N \<Longrightarrow> length (rws ! i) = k"
    and i: "i < N"
  shows "row_cols (csc_matrix (concat rws) (concat (map (\<lambda>i. replicate k i) [0..<N])) (concat idx) m n) i
           = idx ! i"
    and "j < k \<Longrightarrow>
         entry (csc_matrix (concat rws) (concat (map (\<lambda>i. replicate k i) [0..<N])) (concat idx) m n)
           i (idx ! i ! j) = Some (rws ! i ! j)"
proof -
  let ?il = "concat (map (\<lambda>i. replicate k i) [0..<N])"
  let ?keys = "concat (map (\<lambda>i. map (Pair i) (idx ! i)) [0..<N])"
  let ?data = "concat rws"
  have idx_eq: "idx = map (\<lambda>i. idx ! i) [0..<N]"
    unfolding idx(1)[symmetric] by (simp only: map_nth)
  have "zip ?il (concat (map (\<lambda>i. idx ! i) [0..<N])) =
        concat (map (\<lambda>i. zip (replicate k i) (idx ! i)) [0..<N])"
    by (rule zip_concat_map) (simp add: idx(2))
  also have "\<dots> = ?keys"
    by (rule arg_cong[where f = concat], rule map_cong[OF refl])
       (simp add: zip_replicate1 idx(2))
  finally have z: "zip ?il (concat idx) = ?keys" using idx_eq by simp
  have "length ?keys = length (map (\<lambda>i. map (Pair i) (idx ! i)) [0..<N]) * k"
    by (rule length_concat_uniform) (use idx(2) in auto)
  then have lk: "length ?keys = N * k" by simp
  have "length ?data = length rws * k"
    by (rule length_concat_uniform) (use rws in \<open>auto simp: in_set_conv_nth\<close>)
  then have ld: "length ?data = N * k" using rws(1) by simp
  have keys: "map fst (zip (zip ?il (concat idx)) ?data) = ?keys"
    unfolding z using lk ld by simp
  have dk: "distinct ?keys" using distinct_keyed_blocks[of N "\<lambda>i. idx ! i"] idx(3) by simp
  have "filter (\<lambda>k. fst k = i) ?keys =
        concat (map (\<lambda>i'. filter (\<lambda>k. fst k = i) (map (Pair i') (idx ! i'))) [0..<N])"
    by (rule filter_concat_map)
  also have "\<dots> = concat (map (\<lambda>i'. if i' = i then map (Pair i) (idx ! i) else []) [0..<N])"
    by (rule arg_cong[where f = concat], rule map_cong[OF refl])
       (auto simp: filter_map comp_def)
  also have "\<dots> = map (Pair i) (idx ! i)" by (rule concat_map_pick[OF i])
  finally have f: "filter (\<lambda>k. fst k = i) ?keys = map (Pair i) (idx ! i)" .
  show "row_cols (csc_matrix ?data ?il (concat idx) m n) i = idx ! i"
    unfolding csc_row_cols keys using dk f by (simp add: distinct_remdups_id comp_def)
  show "entry (csc_matrix ?data ?il (concat idx) m n) i (idx ! i ! j) = Some (rws ! i ! j)"
    if j: "j < k"
  proof -
    have p: "i * k + j < length ?keys"
    proof -
      have "i * k + j < i * k + k" using j by simp
      also have "\<dots> = Suc i * k" by simp
      also have "\<dots> \<le> N * k" using i by (intro mult_le_mono1) simp
      finally show ?thesis using lk by simp
    qed
    have kp: "?keys ! (i * k + j) = (i, idx ! i ! j)"
    proof -
      have "?keys ! (i * k + j) = map (\<lambda>i. map (Pair i) (idx ! i)) [0..<N] ! i ! j"
        by (rule concat_nth_uniform) (use idx(2) i j in auto)
      then show ?thesis using i j idx(2) by simp
    qed
    have dp: "?data ! (i * k + j) = rws ! i ! j"
      by (rule concat_nth_uniform) (use rws i j in \<open>auto simp: in_set_conv_nth\<close>)
    have zz: "zip (zip ?il (concat idx)) ?data = zip ?keys ?data" by (simp only: z)
    have mem: "(i, idx ! i ! j) \<in> set ?keys" using kp p nth_mem by metis
    have "filter (\<lambda>t. fst t = ?keys ! (i * k + j)) (zip ?keys ?data)
          = [(?keys ! (i * k + j), ?data ! (i * k + j))]"
      by (rule filter_zip_distinct) (use lk ld dk p in simp_all)
    then have fl: "filter (\<lambda>t. fst t = (i, idx ! i ! j)) (zip ?keys ?data) = [((i, idx ! i ! j), rws ! i ! j)]"
      by (simp only: kp dp)
    have keys2: "map fst (zip ?keys ?data) = ?keys" using lk ld by simp
    show ?thesis
      unfolding csc_entry zz keys2 fl by (simp only: mem if_True list.map snd_conv sum_list.Cons sum_list.Nil add_0_right)
  qed
qed

subsection \<open>The sample cloud\<close>

lemma eye_6: "eye 6 = [[1, 0, 0, 0, 0, 0], [0, 1, 0, 0, 0, 0], [0, 0, 1, 0, 0, 0],
      [0, 0, 0, 1, 0, 0], [0, 0, 0, 0, 1, 0], [0, 0, 0, 0, 0, 1]]"
  by (simp add: eye_def eval_nat_numeral)

lemma ring_A_inverse: "c \<noteq> 0 \<Longrightarrow> dot (ring_IA (1 / c)) (ring_A c) = eye 6"
  unfolding eye_6
  by (simp add: ring_IA_def ring_A_def dot_def vdot_def col_def ncols_def field_simps)

lemma A_of_rows:
  assumes "length nsd = k" "length D = k" "0 < k"
  shows "A_of nsd D = map (\<lambda>ra. map (\<lambda>rb. vdot ra (map2 (*) D rb)) (p_mat nsd)) (p_mat nsd)"
proof (rule mat_eqI[OF A_shape[OF assms]])
  show "shape 6 6 (map (\<lambda>ra. map (\<lambda>rb. vdot ra (map2 (*) D rb)) (p_mat nsd)) (p_mat nsd))"
    by (simp add: shape_def p_mat_def)
next
  fix a b :: nat assume ab: "a < 6" "b < 6"
  have P: "shape 6 k (p_mat nsd)" by (rule p_mat_shape[OF assms(1)])
  have la: "length (p_mat nsd ! a) = k" and lb: "length (p_mat nsd ! b) = k"
    using shape_row[OF P] ab by simp_all
  have "map (\<lambda>ra. map (\<lambda>rb. vdot ra (map2 (*) D rb)) (p_mat nsd)) (p_mat nsd) ! a ! b
        = vdot (p_mat nsd ! a) (map2 (*) D (p_mat nsd ! b))"
    using ab shape_length[OF P] by simp
  also have "\<dots> = (\<Sum>j<k. p_mat nsd ! a ! j * map2 (*) D (p_mat nsd ! b) ! j)"
    by (rule vdot_sum) (simp_all add: la lb assms)
  also have "\<dots> = (\<Sum>j<k. p_mat nsd ! a ! j * (D ! j * p_mat nsd ! b ! j))"
    by (intro sum.cong refl) (simp add: lb assms)
  finally show "A_of nsd D ! a ! b =
      map (\<lambda>ra. map (\<lambda>rb. vdot ra (map2 (*) D rb)) (p_mat nsd)) (p_mat nsd) ! a ! b"
    using A_nth[OF assms ab] by simp
qed

lemma ring_A_eq: "A_of ring_cloud (1 # replicate 29 c) = ring_A c"
proof -
  have "A_of ring_cloud (1 # replicate 29 c) =
     map (\<lambda>ra. map (\<lambda>rb. vdot ra (map2 (*) (1 # replicate 29 c) rb)) (p_mat ring_cloud)) (p_mat ring_cloud)"
    by (rule A_of_rows[of _ 30]) (simp_all add: ring_cloud_def)
  also have "\<dots> = ring_A c"
    by (simp add: p_mat_def ring_cloud_def vdot_def ring_A_def eval_nat_numeral)
  finally show ?thesis .
qed

lemma ring_cloud_length: "length ring_cloud = 30"
  by (simp add: ring_cloud_def)

lemma sqrt_4225: "sqrt 4225 = 65"
  by (rule real_sqrt_unique) simp_all

lemma ring_keys: "map (euclid (0, 0)) ring_cloud = ring_ds"
  by (simp add: ring_cloud_def ring_ds_def euclid_def sqrt_4225 eval_nat_numeral)

lemma ring_ds_sorted: "sorted ring_ds"
  by (simp add: ring_ds_def)

lemma ring_origin: "ring_cloud ! 0 = (0, 0)"
  by (simp add: ring_cloud_def)

lemma ring_indices: "knn_indices 30 ring_cloud ! 0 = [0..<30]"
proof -
  have "sorted (map (\<lambda>j. euclid (0, 0) (ring_cloud ! j)) [0..<length ring_cloud])"
    by (simp only: keys_upt ring_keys ring_ds_sorted)
  then have "sort_key (\<lambda>j. euclid (0, 0) (ring_cloud ! j)) [0..<length ring_cloud] = [0..<length ring_cloud]"
    by (rule sort_key_id_if_sorted)
  then show ?thesis
    by (simp add: knn_indices_row ring_cloud_length neighbors_def ring_origin)
qed

lemma ring_nsd: "nsd_of ring_cloud (knn_indices 30 ring_cloud ! 0) = ring_cloud"
  unfolding ring_indices nsd_of_def using map_nth[of ring_cloud] by (simp add: ring_cloud_length)

lemma ring_distances: "knn_distances 30 ring_cloud ! 0 = ring_ds"
  using knn_distances_row[of 0 ring_cloud 30] sorted_sort_id[OF ring_ds_sorted]
  by (simp add: ring_cloud_length ring_origin ring_keys) (simp add: ring_ds_def)

lemma ring_a0: "a0_of (knn_distances 30 ring_cloud) ! 0 = 39 / 2"
proof -
  have "length (knn_distances 30 ring_cloud) = 30" by (simp add: knn_distances_def ring_cloud_length)
  then have "a0_of (knn_distances 30 ring_cloud) ! 0 = 0.3 * knn_distances 30 ring_cloud ! 0 ! 29"
    by (simp add: a0_of_def)
  then show ?thesis by (simp add: ring_distances ring_ds_def)
qed

lemma ring_Dn: "Dn_of ring_ds (39 / 2) = 1 # replicate 29 (exp (- (100 / 9)))"
  by (simp add: Dn_of_def ring_ds_def power2_eq_square)

lemma exp_reciprocal: "1 / exp (- x) = (exp x :: real)"
  by (simp add: exp_minus inverse_eq_divide)

lemma ring_inverse: "dot (ring_IA (exp (100 / 9))) (A_of ring_cloud (Dn_of ring_ds (39 / 2))) = eye 6"
proof -
  have t: "1 / exp (- (100 / 9)) = (exp (100 / 9) :: real)"
    by (rule exp_reciprocal)
  have "dot (ring_IA (1 / exp (- (100 / 9)))) (ring_A (exp (- (100 / 9)))) = eye 6"
    by (rule ring_A_inverse) simp
  then have "dot (ring_IA (exp (100 / 9))) (ring_A (exp (- (100 / 9)))) = eye 6"
    unfolding t .
  then show ?thesis unfolding ring_Dn ring_A_eq .
qed

lemma ring_IA_shape: "shape 6 6 (ring_IA t)"
  by (simp add: shape_def ring_IA_def)

lemma ring_a0_pos: "0 < a0_of (knn_distances 30 ring_cloud) ! 0"
  by (simp add: ring_a0)

lemma ring_ds_length: "length ring_ds = 30"
  by (simp add: ring_ds_def)

subsection \<open>The whole computation\<close>

lemma mls_success:
  assumes "30 \<le> length distnod"
  shows "mls pinv distnod =
     Inr \<lparr> sf = csc_matrix
                 (concat (sf_list (run_loop pinv distnod (knn_distances 30 distnod)
                    (knn_indices 30 distnod) (a0_of (knn_distances 30 distnod)))))
                 (concat (i_list (run_loop pinv distnod (knn_distances 30 distnod)
                    (knn_indices 30 distnod) (a0_of (knn_distances 30 distnod)))))
                 (concat (knn_indices 30 distnod)) (length distnod) (length distnod),
            sfx = csc_matrix
                 (concat (sfx_list (run_loop pinv distnod (knn_distances 30 distnod)
                    (knn_indices 30 distnod) (a0_of (knn_distances 30 distnod)))))
                 (concat (i_list (run_loop pinv distnod (knn_distances 30 distnod)
                    (knn_indices 30 distnod) (a0_of (knn_distances 30 distnod)))))
                 (concat (knn_indices 30 distnod)) (length distnod) (length distnod),
            sfxx = csc_matrix
                 (concat (sfxx_list (run_loop pinv distnod (knn_distances 30 distnod)
                    (knn_indices 30 distnod) (a0_of (knn_distances 30 distnod)))))
                 (concat (i_list (run_loop pinv distnod (knn_distances 30 distnod)
                    (knn_indices 30 distnod) (a0_of (knn_distances 30 distnod)))))
                 (concat (knn_indices 30 distnod)) (length distnod) (length distnod),
            sfy = csc_matrix
                 (concat (sfy_list (run_loop pinv distnod (knn_distances 30 distnod)
                    (knn_indices 30 distnod) (a0_of (knn_distances 30 distnod)))))
                 (concat (i_list (run_loop pinv distnod (knn_distances 30 distnod)
                    (knn_indices 30 distnod) (a0_of (knn_distances 30 distnod)))))
                 (concat (knn_indices 30 distnod)) (length distnod) (length distnod),
            sfyy = csc_matrix
                 (concat (sfyy_list (run_loop pinv distnod (knn_distances 30 distnod)
                    (knn_indices 30 distnod) (a0_of (knn_distances 30 distnod)))))
                 (concat (i_list (run_loop pinv distnod (knn_distances 30 distnod)
                    (knn_indices 30 distnod) (a0_of (knn_distances 30 distnod)))))
                 (concat (knn_indices 30 distnod)) (length distnod) (length distnod) \<rparr>"
  using assms by (simp add: mls_def kneighbors_def Let_def)

lemma mls_failure: "length distnod < 30 \<Longrightarrow> mls pinv distnod = Inl InsufficientPoints"
  by (simp add: mls_def kneighbors_def)

lemma run_loop_i_list:
  assumes "30 \<le> length distnod"
  shows "i_list (run_loop pinv distnod (knn_distances 30 distnod) (knn_indices 30 distnod) a0)
         = map (\<lambda>i. replicate 30 i) [0..<length distnod]"
  unfolding run_loop_fields node_i_list
  by (rule map_cong[OF refl]) (simp add: nsd_length[OF assms])

lemma run_loop_rows:
  fixes pinv :: "mat \<Rightarrow> mat"
  assumes N: "30 \<le> length distnod" and i: "i < length distnod"
  defines "s \<equiv> run_loop pinv distnod (knn_distances 30 distnod) (knn_indices 30 distnod)
                  (a0_of (knn_distances 30 distnod))"
  shows "length (sf_list s) = length distnod \<and> length (sf_list s ! i) = 30"
    and "length (sfx_list s) = length distnod \<and> length (sfx_list s ! i) = 30"
    and "length (sfxx_list s) = length distnod \<and> length (sfxx_list s ! i) = 30"
    and "length (sfy_list s) = length distnod \<and> length (sfy_list s ! i) = 30"
    and "length (sfyy_list s) = length distnod \<and> length (sfyy_list s ! i) = 30"
proof -
  have a: "length (nsd_of distnod (knn_indices 30 distnod ! i)) = 30"
    by (rule nsd_length[OF N i])
  have b: "length (knn_distances 30 distnod ! i) = 30"
    by (rule knn_distances_row_length[OF N i])
  have c: "0 < (30::nat)" by simp
  note r = node_row_lengths[OF a b c]
  show "length (sf_list s) = length distnod \<and> length (sf_list s ! i) = 30"
    unfolding s_def run_loop_fields using i r(1) by simp
  show "length (sfx_list s) = length distnod \<and> length (sfx_list s ! i) = 30"
    unfolding s_def run_loop_fields using i r(2) by simp
  show "length (sfxx_list s) = length distnod \<and> length (sfxx_list s ! i) = 30"
    unfolding s_def run_loop_fields using i r(3) by simp
  show "length (sfy_list s) = length distnod \<and> length (sfy_list s ! i) = 30"
    unfolding s_def run_loop_fields using i r(4) by simp
  show "length (sfyy_list s) = length distnod \<and> length (sfyy_list s ! i) = 30"
    unfolding s_def run_loop_fields using i r(5) by simp
qed

lemma assembled_row:
  assumes N: "30 \<le> length distnod" and i: "i < length distnod"
    and rws: "length rws = length distnod" "\<And>i. i < length distnod \<Longrightarrow> length (rws ! i) = 30"
  shows "row_cols (csc_matrix (concat rws) (concat (map (\<lambda>i. replicate 30 i) [0..<length distnod]))
            (concat (knn_indices 30 distnod)) m n) i = knn_indices 30 distnod ! i"
    and "j < 30 \<Longrightarrow>
         entry (csc_matrix (concat rws) (concat (map (\<lambda>i. replicate 30 i) [0..<length distnod]))
            (concat (knn_indices 30 distnod)) m n) i (knn_indices 30 distnod ! i ! j)
         = Some (rws ! i ! j)"
proof -
  have l: "length (knn_indices 30 distnod) = length distnod" by (simp add: knn_indices_def)
  have k: "length (knn_indices 30 distnod ! i) = 30" if "i < length distnod" for i
    using that N by (simp add: knn_indices_row neighbors_length)
  have d: "distinct (knn_indices 30 distnod ! i)" if "i < length distnod" for i
    using that by (simp add: knn_indices_row neighbors_distinct)
  show "row_cols (csc_matrix (concat rws) (concat (map (\<lambda>i. replicate 30 i) [0..<length distnod]))
            (concat (knn_indices 30 distnod)) m n) i = knn_indices 30 distnod ! i"
    by (rule csc_blocks(1)[OF l k d rws i])
  show "entry (csc_matrix (concat rws) (concat (map (\<lambda>i. replicate 30 i) [0..<length distnod]))
            (concat (knn_indices 30 distnod)) m n) i (knn_indices 30 distnod ! i ! j)
         = Some (rws ! i ! j)" if "j < 30"
    by (rule csc_blocks(2)[OF l k d rws i that])
qed

subsection \<open>Matrix algebra and the formulas of the spec\<close>

lemma sum_list_upt_6: "(\<Sum>a\<leftarrow>[0..<6]. f a) = (\<Sum>a<(6::nat). (f a :: real))"
  by (simp add: eval_nat_numeral lessThan_Suc)

lemma dot_assoc:
  assumes X: "shape r k X" and Y: "shape k l Y" and Z: "shape l c Z" and k: "0 < k" and l: "0 < l"
  shows "dot (dot X Y) Z = dot X (dot Y Z)"
proof (rule mat_eqI)
  show "shape r c (dot (dot X Y) Z)" by (rule dot_shape[OF dot_shape[OF X Y k] Z l])
  show "shape r c (dot X (dot Y Z))" by (rule dot_shape[OF X dot_shape[OF Y Z l] k])
next
  fix i j assume i: "i < r" and j: "j < c"
  have "dot (dot X Y) Z ! i ! j = (\<Sum>b<l. dot X Y ! i ! b * Z ! b ! j)"
    by (rule dot_nth[OF dot_shape[OF X Y k] Z l i j])
  also have "\<dots> = (\<Sum>b<l. (\<Sum>a<k. X ! i ! a * Y ! a ! b) * Z ! b ! j)"
    by (intro sum.cong refl) (simp add: dot_nth[OF X Y k i])
  also have "\<dots> = (\<Sum>b<l. \<Sum>a<k. X ! i ! a * (Y ! a ! b * Z ! b ! j))"
    by (simp add: sum_distrib_right mult.assoc)
  also have "\<dots> = (\<Sum>a<k. \<Sum>b<l. X ! i ! a * (Y ! a ! b * Z ! b ! j))"
    by (rule sum.swap)
  also have "\<dots> = (\<Sum>a<k. X ! i ! a * (\<Sum>b<l. Y ! a ! b * Z ! b ! j))"
    by (simp add: sum_distrib_left)
  also have "\<dots> = (\<Sum>a<k. X ! i ! a * dot Y Z ! a ! j)"
    by (intro sum.cong refl) (simp add: dot_nth[OF Y Z l _ j])
  also have "\<dots> = dot X (dot Y Z) ! i ! j"
    by (rule dot_nth[OF X dot_shape[OF Y Z l] k i j, symmetric])
  finally show "dot (dot X Y) Z ! i ! j = dot X (dot Y Z) ! i ! j" .
qed

lemma dot_mneg_left:
  assumes X: "shape r k X" and Y: "shape k c Y" and k: "0 < k"
  shows "dot (mneg X) Y = mneg (dot X Y)"
proof (rule mat_eqI)
  show "shape r c (dot (mneg X) Y)" by (rule dot_shape[OF mneg_shape[OF X] Y k])
  show "shape r c (mneg (dot X Y))" by (rule mneg_shape[OF dot_shape[OF X Y k]])
next
  fix i j assume i: "i < r" and j: "j < c"
  have "dot (mneg X) Y ! i ! j = (\<Sum>a<k. mneg X ! i ! a * Y ! a ! j)"
    by (rule dot_nth[OF mneg_shape[OF X] Y k i j])
  also have "\<dots> = (\<Sum>a<k. - (X ! i ! a * Y ! a ! j))"
    by (intro sum.cong refl) (simp add: mneg_nth[OF X i])
  also have "\<dots> = - (\<Sum>a<k. X ! i ! a * Y ! a ! j)" by (rule sum_negf)
  also have "\<dots> = mneg (dot X Y) ! i ! j"
    by (simp add: mneg_nth[OF dot_shape[OF X Y k] i j] dot_nth[OF X Y k i j])
  finally show "dot (mneg X) Y ! i ! j = mneg (dot X Y) ! i ! j" .
qed

lemma dot_mneg_right:
  assumes X: "shape r k X" and Y: "shape k c Y" and k: "0 < k"
  shows "dot X (mneg Y) = mneg (dot X Y)"
proof (rule mat_eqI)
  show "shape r c (dot X (mneg Y))" by (rule dot_shape[OF X mneg_shape[OF Y] k])
  show "shape r c (mneg (dot X Y))" by (rule mneg_shape[OF dot_shape[OF X Y k]])
next
  fix i j assume i: "i < r" and j: "j < c"
  have "dot X (mneg Y) ! i ! j = (\<Sum>a<k. X ! i ! a * mneg Y ! a ! j)"
    by (rule dot_nth[OF X mneg_shape[OF Y] k i j])
  also have "\<dots> = (\<Sum>a<k. - (X ! i ! a * Y ! a ! j))"
    by (intro sum.cong refl) (simp add: mneg_nth[OF Y _ j])
  also have "\<dots> = - (\<Sum>a<k. X ! i ! a * Y ! a ! j)" by (rule sum_negf)
  also have "\<dots> = mneg (dot X Y) ! i ! j"
    by (simp add: mneg_nth[OF dot_shape[OF X Y k] i j] dot_nth[OF X Y k i j])
  finally show "dot X (mneg Y) ! i ! j = mneg (dot X Y) ! i ! j" .
qed

lemma dot_msub_left:
  assumes X: "shape r k X" and X': "shape r k X'" and Y: "shape k c Y" and k: "0 < k"
  shows "dot (msub X X') Y = msub (dot X Y) (dot X' Y)"
proof (rule mat_eqI)
  show "shape r c (dot (msub X X') Y)" by (rule dot_shape[OF msub_shape[OF X X'] Y k])
  show "shape r c (msub (dot X Y) (dot X' Y))"
    by (rule msub_shape[OF dot_shape[OF X Y k] dot_shape[OF X' Y k]])
next
  fix i j assume i: "i < r" and j: "j < c"
  have "dot (msub X X') Y ! i ! j = (\<Sum>a<k. msub X X' ! i ! a * Y ! a ! j)"
    by (rule dot_nth[OF msub_shape[OF X X'] Y k i j])
  also have "\<dots> = (\<Sum>a<k. X ! i ! a * Y ! a ! j - X' ! i ! a * Y ! a ! j)"
    by (intro sum.cong refl) (simp add: msub_nth[OF X X' i] left_diff_distrib)
  also have "\<dots> = (\<Sum>a<k. X ! i ! a * Y ! a ! j) - (\<Sum>a<k. X' ! i ! a * Y ! a ! j)"
    by (rule sum_subtractf)
  also have "\<dots> = msub (dot X Y) (dot X' Y) ! i ! j"
    by (simp add: msub_nth[OF dot_shape[OF X Y k] dot_shape[OF X' Y k] i j]
        dot_nth[OF X Y k i j] dot_nth[OF X' Y k i j])
  finally show "dot (msub X X') Y ! i ! j = msub (dot X Y) (dot X' Y) ! i ! j" .
qed

lemma dot_eye_right:
  assumes X: "shape r k X" and k: "0 < k"
  shows "dot X (eye k) = X"
proof (rule mat_eqI[OF dot_shape[OF X eye_shape k] X])
  fix i j assume i: "i < r" and j: "j < k"
  have "dot X (eye k) ! i ! j = (\<Sum>a<k. X ! i ! a * eye k ! a ! j)"
    by (rule dot_nth[OF X eye_shape k i j])
  also have "\<dots> = (\<Sum>a<k. if a = j then X ! i ! j else 0)"
    by (intro sum.cong refl) (simp add: eye_nth j)
  also have "\<dots> = X ! i ! j" using j by simp
  finally show "dot X (eye k) ! i ! j = X ! i ! j" .
qed

lemma triple_dot:
  assumes X: "shape 6 6 X" and Y: "shape 6 6 Y" and Z: "shape 6 6 Z" and r: "r < 6" and c: "c < 6"
  shows "dot (dot X Y) Z ! r ! c = triple X Y Z r c"
proof -
  have k: "0 < (6::nat)" by simp
  have "dot (dot X Y) Z ! r ! c = (\<Sum>b<6. dot X Y ! r ! b * Z ! b ! c)"
    by (rule dot_nth[OF dot_shape[OF X Y k] Z k r c])
  also have "\<dots> = (\<Sum>b<6. \<Sum>a<6. X ! r ! a * Y ! a ! b * Z ! b ! c)"
    by (intro sum.cong refl) (simp add: dot_nth[OF X Y k r] sum_distrib_right)
  also have "\<dots> = (\<Sum>a<6. \<Sum>b<6. X ! r ! a * Y ! a ! b * Z ! b ! c)"
    by (rule sum.swap)
  also have "\<dots> = triple X Y Z r c"
    unfolding triple_def sum_list_upt_6 ..
  finally show ?thesis .
qed

lemma spec_shape: "shape 6 6 (map (\<lambda>r. map (\<lambda>c. f r c) [0..<6]) [0..<6])"
  by (rule shapeI) simp_all

lemma spec_nth: "r < 6 \<Longrightarrow> c < 6 \<Longrightarrow> map (\<lambda>r. map (\<lambda>c. f r c) [0..<6]) [0..<6] ! r ! c = f r c"
  by simp

lemma IAx_shape:
  assumes "shape 6 6 IA" "shape 6 6 Ax"
  shows "shape 6 6 (IAx_of IA Ax)"
  unfolding IAx_of_def
  by (rule mneg_shape[OF dot_shape[OF dot_shape[OF assms] assms(1)]]) simp_all

lemma IAxx_shape:
  assumes IA: "shape 6 6 IA" and Ax: "shape 6 6 Ax" and Axx: "shape 6 6 Axx"
  shows "shape 6 6 (IAxx_of IA Ax Axx)"
proof -
  have k: "0 < (6::nat)" by simp
  note I = IAx_shape[OF IA Ax]
  show ?thesis unfolding IAxx_of_def
    by (intro msub_shape mneg_shape dot_shape[OF _ _ k] I IA Ax Axx)
qed

lemma IAx_refines:
  assumes IA: "shape 6 6 IA" and Ax: "shape 6 6 Ax"
  shows "IAx_of IA Ax = spec_IAx IA Ax"
proof (rule mat_eqI[OF IAx_shape[OF assms]])
  show "shape 6 6 (spec_IAx IA Ax)" unfolding spec_IAx_def by (rule spec_shape)
next
  fix r c :: nat assume r: "r < 6" and c: "c < 6"
  have k: "0 < (6::nat)" by simp
  have "IAx_of IA Ax ! r ! c = - (dot (dot IA Ax) IA ! r ! c)"
    unfolding IAx_of_def
    by (rule mneg_nth[OF dot_shape[OF dot_shape[OF IA Ax k] IA k] r c])
  also have "\<dots> = - triple IA Ax IA r c" by (simp only: triple_dot[OF IA Ax IA r c])
  also have "\<dots> = spec_IAx IA Ax ! r ! c" unfolding spec_IAx_def using r c by simp
  finally show "IAx_of IA Ax ! r ! c = spec_IAx IA Ax ! r ! c" .
qed

lemma IAxx_refines:
  assumes IA: "shape 6 6 IA" and Ax: "shape 6 6 Ax" and Axx: "shape 6 6 Axx"
  shows "IAxx_of IA Ax Axx = spec_IAxx IA (IAx_of IA Ax) Ax Axx"
proof (rule mat_eqI[OF IAxx_shape[OF assms]])
  show "shape 6 6 (spec_IAxx IA (IAx_of IA Ax) Ax Axx)" unfolding spec_IAxx_def by (rule spec_shape)
next
  fix r c :: nat assume r: "r < 6" and c: "c < 6"
  have k: "0 < (6::nat)" by simp
  note I = IAx_shape[OF IA Ax]
  have s1: "shape 6 6 (dot (dot (IAx_of IA Ax) Ax) IA)" by (intro dot_shape[OF _ _ k] I IA Ax)
  have s2: "shape 6 6 (dot (dot IA Axx) IA)" by (intro dot_shape[OF _ _ k] IA Axx)
  have s3: "shape 6 6 (dot (dot IA Ax) (IAx_of IA Ax))" by (intro dot_shape[OF _ _ k] I IA Ax)
  have "IAxx_of IA Ax Axx ! r ! c =
        - (dot (dot (IAx_of IA Ax) Ax) IA ! r ! c) - dot (dot IA Axx) IA ! r ! c
        - dot (dot IA Ax) (IAx_of IA Ax) ! r ! c"
    unfolding IAxx_of_def
    by (simp add: msub_nth[OF msub_shape[OF mneg_shape[OF s1] s2] s3 r c]
        msub_nth[OF mneg_shape[OF s1] s2 r c] mneg_nth[OF s1 r c])
  also have "\<dots> = - triple (IAx_of IA Ax) Ax IA r c - triple IA Axx IA r c
                   - triple IA Ax (IAx_of IA Ax) r c"
    by (simp only: triple_dot[OF I Ax IA r c] triple_dot[OF IA Axx IA r c]
        triple_dot[OF IA Ax I r c])
  also have "\<dots> = spec_IAxx IA (IAx_of IA Ax) Ax Axx ! r ! c"
    unfolding spec_IAxx_def using r c by simp
  finally show "IAxx_of IA Ax Axx ! r ! c = spec_IAxx IA (IAx_of IA Ax) Ax Axx ! r ! c" .
qed

lemma IAx_times_A:
  assumes IA: "shape 6 6 IA" and Ax: "shape 6 6 Ax" and A: "shape 6 6 A"
    and inv: "dot IA A = eye 6"
  shows "dot (IAx_of IA Ax) A = mneg (dot IA Ax)"
proof -
  have k: "0 < (6::nat)" by simp
  have P: "shape 6 6 (dot IA Ax)" by (rule dot_shape[OF IA Ax k])
  have "dot (IAx_of IA Ax) A = mneg (dot (dot (dot IA Ax) IA) A)"
    unfolding IAx_of_def by (rule dot_mneg_left[OF dot_shape[OF P IA k] A k])
  also have "dot (dot (dot IA Ax) IA) A = dot (dot IA Ax) (dot IA A)"
    by (rule dot_assoc[OF P IA A k k])
  also have "\<dots> = dot IA Ax" unfolding inv by (rule dot_eye_right[OF P k])
  finally show ?thesis .
qed

lemma IAx_times_Ax:
  assumes IA: "shape 6 6 IA" and Ax: "shape 6 6 Ax"
  shows "dot (IAx_of IA Ax) Ax = mneg (dot (dot IA Ax) (dot IA Ax))"
proof -
  have k: "0 < (6::nat)" by simp
  have P: "shape 6 6 (dot IA Ax)" by (rule dot_shape[OF IA Ax k])
  have "dot (IAx_of IA Ax) Ax = mneg (dot (dot (dot IA Ax) IA) Ax)"
    unfolding IAx_of_def by (rule dot_mneg_left[OF dot_shape[OF P IA k] Ax k])
  also have "dot (dot (dot IA Ax) IA) Ax = dot (dot IA Ax) (dot IA Ax)"
    by (rule dot_assoc[OF P IA Ax k k])
  finally show ?thesis .
qed

lemma IAxx_times_A:
  assumes IA: "shape 6 6 IA" and Ax: "shape 6 6 Ax" and Axx: "shape 6 6 Axx" and A: "shape 6 6 A"
    and inv: "dot IA A = eye 6"
  shows "dot (IAxx_of IA Ax Axx) A = mneg (madd (smul 2 (dot (IAx_of IA Ax) Ax)) (dot IA Axx))"
proof -
  have k: "0 < (6::nat)" by simp
  note I = IAx_shape[OF IA Ax]
  let ?I = "IAx_of IA Ax"
  let ?P = "dot ?I Ax"
  let ?Q = "dot IA Axx"
  let ?R = "dot IA Ax"
  have P: "shape 6 6 ?P" by (rule dot_shape[OF I Ax k])
  have Q: "shape 6 6 ?Q" by (rule dot_shape[OF IA Axx k])
  have R: "shape 6 6 ?R" by (rule dot_shape[OF IA Ax k])
  have PI: "shape 6 6 (dot ?P IA)" by (rule dot_shape[OF P IA k])
  have QI: "shape 6 6 (dot ?Q IA)" by (rule dot_shape[OF Q IA k])
  have RI: "shape 6 6 (dot ?R ?I)" by (rule dot_shape[OF R I k])
  have t1: "dot (dot ?P IA) A = ?P"
    using dot_assoc[OF P IA A k k] dot_eye_right[OF P k] by (simp add: inv)
  have t2: "dot (dot ?Q IA) A = ?Q"
    using dot_assoc[OF Q IA A k k] dot_eye_right[OF Q k] by (simp add: inv)
  have "dot (dot ?R ?I) A = dot ?R (dot ?I A)" by (rule dot_assoc[OF R I A k k])
  also have "\<dots> = dot ?R (mneg ?R)" by (simp only: IAx_times_A[OF IA Ax A inv])
  also have "\<dots> = mneg (dot ?R ?R)" by (rule dot_mneg_right[OF R R k])
  also have "\<dots> = ?P" by (simp only: IAx_times_Ax[OF IA Ax])
  finally have t3: "dot (dot ?R ?I) A = ?P" .
  have "dot (IAxx_of IA Ax Axx) A =
        msub (msub (dot (mneg (dot ?P IA)) A) (dot (dot ?Q IA) A)) (dot (dot ?R ?I) A)"
    unfolding IAxx_of_def
    by (simp only: dot_msub_left[OF msub_shape[OF mneg_shape[OF PI] QI] RI A k]
        dot_msub_left[OF mneg_shape[OF PI] QI A k])
  also have "\<dots> = msub (msub (mneg ?P) ?Q) ?P"
    by (simp only: dot_mneg_left[OF PI A k] t1 t2 t3)
  also have "\<dots> = mneg (madd (smul 2 ?P) ?Q)"
  proof (rule mat_eqI)
    show "shape 6 6 (msub (msub (mneg ?P) ?Q) ?P)" by (intro msub_shape mneg_shape P Q)
    show "shape 6 6 (mneg (madd (smul 2 ?P) ?Q))" by (intro mneg_shape madd_shape smul_shape P Q)
  next
    fix i j :: nat assume i: "i < 6" and j: "j < 6"
    show "msub (msub (mneg ?P) ?Q) ?P ! i ! j = mneg (madd (smul 2 ?P) ?Q) ! i ! j"
      by (simp add: msub_nth[OF msub_shape[OF mneg_shape[OF P] Q] P i j]
          msub_nth[OF mneg_shape[OF P] Q i j] mneg_nth[OF P i j]
          mneg_nth[OF madd_shape[OF smul_shape[OF P] Q] i j]
          madd_nth[OF smul_shape[OF P] Q i j] smul_nth[OF P i j])
  qed
  finally show ?thesis .
qed

lemma ring_lengths:
  "length ring_Dn = 30" "length ring_Dx = 30" "length ring_Dxx = 30"
  by (simp_all add: ring_Dn_def ring_Dx_def ring_Dxx_def Dn_length D_lengths
      ring_ds_length ring_cloud_length)

lemma ring_shapes:
  "shape 6 6 ring_inv" "shape 6 6 (A_of ring_cloud ring_Dn)"
  "shape 6 6 (A_of ring_cloud ring_Dx)" "shape 6 6 (A_of ring_cloud ring_Dxx)"
  "shape 30 6 (B_of ring_cloud ring_Dn)" "shape 30 6 (B_of ring_cloud ring_Dx)"
  "shape 30 6 (B_of ring_cloud ring_Dxx)"
  by (simp_all add: ring_inv_def ring_IA_shape A_shape[OF ring_cloud_length] B_shape[OF ring_cloud_length]
      ring_lengths)

lemma ring_inv_inverse: "dot ring_inv (A_of ring_cloud ring_Dn) = eye 6"
  unfolding ring_inv_def ring_Dn_def by (rule ring_inverse)

lemma vm_sum: "vm v M a = (\<Sum>l<(6::nat). v ! l * M ! l ! a)"
  unfolding vm_def by (rule sum_list_upt_6)

lemma row_vm:
  assumes R: "shape 1 6 R" and M: "shape 6 6 M" and a: "a < 6"
  shows "dot R M ! 0 ! a = vm (R ! 0) M a"
  unfolding vm_sum by (rule dot_nth[OF R M _ _ a]) simp_all

lemma selector_rows:
  "w_row ! 0 = ravel w" "pdx_row ! 0 = ravel pdx" "pdxx_row ! 0 = ravel pdxx"
  "pdy_row ! 0 = ravel pdy" "pdyy_row ! 0 = ravel pdyy"
  by (simp_all add: w_row_eq pdx_row_eq pdxx_row_eq pdy_row_eq pdyy_row_eq ravel_def
      w_def pdx_def pdxx_def pdy_def pdyy_def)

lemma second_row_generic:
  assumes R1: "shape 1 6 R1" and R2: "shape 1 6 R2"
    and IA: "shape 6 6 IA" and IAd: "shape 6 6 IAd" and IAdd: "shape 6 6 IAdd"
    and B: "shape k 6 B" and Bd: "shape k 6 Bd" and Bdd: "shape k 6 Bdd" and k: "0 < k"
  shows "ravel (transpose_m
       (madd
         (madd
           (dot (madd (madd (dot R2 IA) (smul 2 (dot R1 IAd))) (dot w_row IAdd))
                (transpose_m B))
           (dot (madd (madd (dot w_row IAd) (smul 2 (dot R1 IA))) (dot w_row IAd))
                (transpose_m Bd)))
         (dot (dot w_row IA) (transpose_m Bdd))))
     = literal_row (R1 ! 0) (R2 ! 0) IA IAd IAdd B Bd Bdd"
proof -
  have six: "0 < (6::nat)" by simp
  let ?C1 = "madd (madd (dot R2 IA) (smul 2 (dot R1 IAd))) (dot w_row IAdd)"
  let ?C2 = "madd (madd (dot w_row IAd) (smul 2 (dot R1 IA))) (dot w_row IAd)"
  let ?C3 = "dot w_row IA"
  let ?X = "madd (madd (dot ?C1 (transpose_m B)) (dot ?C2 (transpose_m Bd)))
              (dot ?C3 (transpose_m Bdd))"
  have s: "shape 1 6 (dot R M)" if "shape 1 6 R" "shape 6 6 M" for R M
    by (rule dot_shape[OF that six])
  have C1: "shape 1 6 ?C1"
    by (intro madd_shape smul_shape s R1 R2 w_row_shape IA IAd IAdd)
  have C2: "shape 1 6 ?C2"
    by (intro madd_shape smul_shape s R1 R2 w_row_shape IA IAd IAdd)
  have C3: "shape 1 6 ?C3" by (rule s[OF w_row_shape IA])
  have T1: "shape 1 k (dot ?C1 (transpose_m B))" by (rule row_dot_transpose_shape[OF C1 B k])
  have T2: "shape 1 k (dot ?C2 (transpose_m Bd))" by (rule row_dot_transpose_shape[OF C2 Bd k])
  have T3: "shape 1 k (dot ?C3 (transpose_m Bdd))" by (rule row_dot_transpose_shape[OF C3 Bdd k])
  have X: "shape 1 k ?X" by (intro madd_shape T1 T2 T3)
  have c1: "?C1 ! 0 ! a = vm (R2 ! 0) IA a + 2 * vm (R1 ! 0) IAd a + vm (ravel w) IAdd a"
    if a: "a < 6" for a
    using a
    by (simp add: madd_nth[OF madd_shape[OF s[OF R2 IA] smul_shape[OF s[OF R1 IAd]]] s[OF w_row_shape IAdd]]
        madd_nth[OF s[OF R2 IA] smul_shape[OF s[OF R1 IAd]]] smul_nth[OF s[OF R1 IAd]]
        row_vm[OF R2 IA] row_vm[OF R1 IAd] row_vm[OF w_row_shape IAdd] selector_rows(1))
  have c2: "?C2 ! 0 ! a = vm (ravel w) IAd a + 2 * vm (R1 ! 0) IA a + vm (ravel w) IAd a"
    if a: "a < 6" for a
    using a
    by (simp add: madd_nth[OF madd_shape[OF s[OF w_row_shape IAd] smul_shape[OF s[OF R1 IA]]] s[OF w_row_shape IAd]]
        madd_nth[OF s[OF w_row_shape IAd] smul_shape[OF s[OF R1 IA]]] smul_nth[OF s[OF R1 IA]]
        row_vm[OF R1 IA] row_vm[OF w_row_shape IAd] selector_rows(1))
  have c3: "?C3 ! 0 ! a = vm (ravel w) IA a" if a: "a < 6" for a
    using a by (simp add: row_vm[OF w_row_shape IA] selector_rows(1))
  have lB: "length B = k" by (rule shape_length[OF B])
  have "ravel (transpose_m ?X) = ?X ! 0" by (rule ravel_transpose_one[OF X])
  also have "\<dots> = literal_row (R1 ! 0) (R2 ! 0) IA IAd IAdd B Bd Bdd"
  proof (rule nth_equalityI)
    show "length (?X ! 0) = length (literal_row (R1 ! 0) (R2 ! 0) IA IAd IAdd B Bd Bdd)"
      using shape_row[OF X, of 0] by (simp add: literal_row_def lB)
  next
    fix j assume "j < length (?X ! 0)"
    then have j: "j < k" using shape_row[OF X, of 0] by simp
    have "?X ! 0 ! j = dot ?C1 (transpose_m B) ! 0 ! j + dot ?C2 (transpose_m Bd) ! 0 ! j
                       + dot ?C3 (transpose_m Bdd) ! 0 ! j"
      using j by (simp add: madd_nth[OF madd_shape[OF T1 T2] T3] madd_nth[OF T1 T2])
    also have "\<dots> = (\<Sum>a<6. ?C1 ! 0 ! a * B ! j ! a) + (\<Sum>a<6. ?C2 ! 0 ! a * Bd ! j ! a)
                     + (\<Sum>a<6. ?C3 ! 0 ! a * Bdd ! j ! a)"
      by (simp only: row_dot_transpose_nth[OF C1 B k j] row_dot_transpose_nth[OF C2 Bd k j]
          row_dot_transpose_nth[OF C3 Bdd k j])
    also have "\<dots> = literal_row (R1 ! 0) (R2 ! 0) IA IAd IAdd B Bd Bdd ! j"
      using j by (simp add: literal_row_def lB sum_list_upt_6 c1 c2 c3)
    finally show "?X ! 0 ! j = literal_row (R1 ! 0) (R2 ! 0) IA IAd IAdd B Bd Bdd ! j" .
  qed
  finally show ?thesis .
qed

lemma literal_is_textbook:
  "literal_row pd1 pd2 IA IAd IAdd B Bd Bdd = textbook_row pd1 pd2 IA IAd IAdd B Bd Bdd"
proof -
  have "vm (ravel w) IAd a + 2 * vm pd1 IA a + vm (ravel w) IAd a
        = 2 * (vm pd1 IA a + vm (ravel w) IAd a)" for a
    by simp
  then show ?thesis unfolding literal_row_def textbook_row_def by (simp only:)
qed

lemma sfxx_literal:
  assumes "shape 6 6 IA" "shape 6 6 IAx" "shape 6 6 IAxx"
    "shape k 6 B" "shape k 6 Bx" "shape k 6 Bxx" "0 < k"
  shows "sfxx_row IA IAx IAxx B Bx Bxx = literal_row (ravel pdx) (ravel pdxx) IA IAx IAxx B Bx Bxx"
  unfolding sfxx_row_def
  using second_row_generic[OF pdx_row_shape pdxx_row_shape assms]
  by (simp only: selector_rows)

lemma sfyy_literal:
  assumes "shape 6 6 IA" "shape 6 6 IAy" "shape 6 6 IAyy"
    "shape k 6 B" "shape k 6 By" "shape k 6 Byy" "0 < k"
  shows "sfyy_row IA IAy IAyy B By Byy = literal_row (ravel pdy) (ravel pdyy) IA IAy IAyy B By Byy"
  unfolding sfyy_row_def
  using second_row_generic[OF pdy_row_shape pdyy_row_shape assms]
  by (simp only: selector_rows)

lemma ring_IAx_shape: "shape 6 6 ring_IAx"
  unfolding ring_IAx_def by (rule IAx_shape[OF ring_shapes(1) ring_shapes(3)])

lemma ring_IAxx_shape: "shape 6 6 ring_IAxx"
  unfolding ring_IAxx_def by (rule IAxx_shape[OF ring_shapes(1) ring_shapes(3) ring_shapes(4)])

subsection \<open>The degenerate node\<close>

lemma sorted_take_prefix: "sorted xs \<Longrightarrow> sorted (take n xs)"
  using sorted_append[of "take n xs" "drop n xs"] by simp

lemma knn_row_sorted: "i < length pts \<Longrightarrow> sorted (knn_distances k pts ! i)"
  by (simp add: knn_distances_row sorted_take_prefix)

lemma knn_row_nonneg:
  assumes "i < length pts" "k \<le> length pts" "j < k"
  shows "0 \<le> knn_distances k pts ! i ! j"
  using knn_distances_nth[OF assms] by (simp add: euclid_nonneg)

lemma all_coincide:
  assumes N: "30 \<le> length pts" and i: "i < length pts" and z: "knn_distances 30 pts ! i ! 29 = 0"
    and j: "j < 30"
  shows "knn_distances 30 pts ! i ! j = 0"
    and "nsd_of pts (knn_indices 30 pts ! i) ! j = nsd_of pts (knn_indices 30 pts ! i) ! 0"
proof -
  have l: "length (knn_distances 30 pts ! i) = 30" by (rule knn_distances_row_length[OF N i])
  have "knn_distances 30 pts ! i ! j \<le> knn_distances 30 pts ! i ! 29"
    by (rule sorted_nth_mono[OF knn_row_sorted[OF i]]) (use j l in simp_all)
  then show d: "knn_distances 30 pts ! i ! j = 0"
    using z knn_row_nonneg[OF i N j] by simp
  have "euclid (pts ! i) (pts ! (knn_indices 30 pts ! i ! j)) = 0"
    using d knn_distances_nth[OF i N j] by simp
  then have "pts ! (knn_indices 30 pts ! i ! j) = pts ! i" by (simp add: euclid_zero_iff)
  then show "nsd_of pts (knn_indices 30 pts ! i) ! j = nsd_of pts (knn_indices 30 pts ! i) ! 0"
    using nsd_nth[OF N i j] nsd_origin[OF _ N i] by simp
qed

lemma map2_const:
  assumes "length xs = n" "length ys = n" "\<And>j. j < n \<Longrightarrow> f (xs ! j) (ys ! j) = c"
  shows "map2 f xs ys = replicate n c"
  by (rule nth_equalityI) (simp_all add: assms)


subsection \<open>The local variables of a node and the derivative rows\<close>

lemma locals_inverse:
  "loc_IA (loop_locals pinv distnod distances indices a0 i) =
     pinv (A_of (nsd_of distnod (indices ! i)) (Dn_of (distances ! i) (a0 ! i)))"
  "loc_IAx (loop_locals pinv distnod distances indices a0 i) =
     IAx_of (pinv (A_of (nsd_of distnod (indices ! i)) (Dn_of (distances ! i) (a0 ! i))))
            (A_of (nsd_of distnod (indices ! i))
               (Dx_of (nsd_of distnod (indices ! i)) (a0 ! i) (Dn_of (distances ! i) (a0 ! i))))"
  "loc_IAxx (loop_locals pinv distnod distances indices a0 i) =
     IAxx_of (pinv (A_of (nsd_of distnod (indices ! i)) (Dn_of (distances ! i) (a0 ! i))))
            (A_of (nsd_of distnod (indices ! i))
               (Dx_of (nsd_of distnod (indices ! i)) (a0 ! i) (Dn_of (distances ! i) (a0 ! i))))
            (A_of (nsd_of distnod (indices ! i))
               (Dxx_of (nsd_of distnod (indices ! i)) (a0 ! i) (Dn_of (distances ! i) (a0 ! i))))"
  "loc_IAy (loop_locals pinv distnod distances indices a0 i) =
     IAx_of (pinv (A_of (nsd_of distnod (indices ! i)) (Dn_of (distances ! i) (a0 ! i))))
            (A_of (nsd_of distnod (indices ! i))
               (Dy_of (nsd_of distnod (indices ! i)) (a0 ! i) (Dn_of (distances ! i) (a0 ! i))))"
  "loc_IAyy (loop_locals pinv distnod distances indices a0 i) =
     IAxx_of (pinv (A_of (nsd_of distnod (indices ! i)) (Dn_of (distances ! i) (a0 ! i))))
            (A_of (nsd_of distnod (indices ! i))
               (Dy_of (nsd_of distnod (indices ! i)) (a0 ! i) (Dn_of (distances ! i) (a0 ! i))))
            (A_of (nsd_of distnod (indices ! i))
               (Dyy_of (nsd_of distnod (indices ! i)) (a0 ! i) (Dn_of (distances ! i) (a0 ! i))))"
  by (simp_all add: loop_locals_def Let_def)

lemma run_loop_derivative_rows:
  assumes "i < length distnod"
  shows "sfx_list (run_loop pinv distnod distances indices a0) ! i =
     sfx_row (pinv (A_of (nsd_of distnod (indices ! i)) (Dn_of (distances ! i) (a0 ! i))))
       (IAx_of (pinv (A_of (nsd_of distnod (indices ! i)) (Dn_of (distances ! i) (a0 ! i))))
            (A_of (nsd_of distnod (indices ! i))
               (Dx_of (nsd_of distnod (indices ! i)) (a0 ! i) (Dn_of (distances ! i) (a0 ! i)))))
       (B_of (nsd_of distnod (indices ! i)) (Dn_of (distances ! i) (a0 ! i)))
       (B_of (nsd_of distnod (indices ! i))
          (Dx_of (nsd_of distnod (indices ! i)) (a0 ! i) (Dn_of (distances ! i) (a0 ! i))))"
    and "sfy_list (run_loop pinv distnod distances indices a0) ! i =
     sfy_row (pinv (A_of (nsd_of distnod (indices ! i)) (Dn_of (distances ! i) (a0 ! i))))
       (IAx_of (pinv (A_of (nsd_of distnod (indices ! i)) (Dn_of (distances ! i) (a0 ! i))))
            (A_of (nsd_of distnod (indices ! i))
               (Dy_of (nsd_of distnod (indices ! i)) (a0 ! i) (Dn_of (distances ! i) (a0 ! i)))))
       (B_of (nsd_of distnod (indices ! i)) (Dn_of (distances ! i) (a0 ! i)))
       (B_of (nsd_of distnod (indices ! i))
          (Dy_of (nsd_of distnod (indices ! i)) (a0 ! i) (Dn_of (distances ! i) (a0 ! i))))"
    and "sfxx_list (run_loop pinv distnod distances indices a0) ! i =
     sfxx_row (pinv (A_of (nsd_of distnod (indices ! i)) (Dn_of (distances ! i) (a0 ! i))))
       (IAx_of (pinv (A_of (nsd_of distnod (indices ! i)) (Dn_of (distances ! i) (a0 ! i))))
            (A_of (nsd_of distnod (indices ! i))
               (Dx_of (nsd_of distnod (indices ! i)) (a0 ! i) (Dn_of (distances ! i) (a0 ! i)))))
       (IAxx_of (pinv (A_of (nsd_of distnod (indices ! i)) (Dn_of (distances ! i) (a0 ! i))))
            (A_of (nsd_of distnod (indices ! i))
               (Dx_of (nsd_of distnod (indices ! i)) (a0 ! i) (Dn_of (distances ! i) (a0 ! i))))
            (A_of (nsd_of distnod (indices ! i))
               (Dxx_of (nsd_of distnod (indices ! i)) (a0 ! i) (Dn_of (distances ! i) (a0 ! i)))))
       (B_of (nsd_of distnod (indices ! i)) (Dn_of (distances ! i) (a0 ! i)))
       (B_of (nsd_of distnod (indices ! i))
          (Dx_of (nsd_of distnod (indices ! i)) (a0 ! i) (Dn_of (distances ! i) (a0 ! i))))
       (B_of (nsd_of distnod (indices ! i))
          (Dxx_of (nsd_of distnod (indices ! i)) (a0 ! i) (Dn_of (distances ! i) (a0 ! i))))"
    and "sfyy_list (run_loop pinv distnod distances indices a0) ! i =
     sfyy_row (pinv (A_of (nsd_of distnod (indices ! i)) (Dn_of (distances ! i) (a0 ! i))))
       (IAx_of (pinv (A_of (nsd_of distnod (indices ! i)) (Dn_of (distances ! i) (a0 ! i))))
            (A_of (nsd_of distnod (indices ! i))
               (Dy_of (nsd_of distnod (indices ! i)) (a0 ! i) (Dn_of (distances ! i) (a0 ! i)))))
       (IAxx_of (pinv (A_of (nsd_of distnod (indices ! i)) (Dn_of (distances ! i) (a0 ! i))))
            (A_of (nsd_of distnod (indices ! i))
               (Dy_of (nsd_of distnod (indices ! i)) (a0 ! i) (Dn_of (distances ! i) (a0 ! i))))
            (A_of (nsd_of distnod (indices ! i))
               (Dyy_of (nsd_of distnod (indices ! i)) (a0 ! i) (Dn_of (distances ! i) (a0 ! i)))))
       (B_of (nsd_of distnod (indices ! i)) (Dn_of (distances ! i) (a0 ! i)))
       (B_of (nsd_of distnod (indices ! i))
          (Dy_of (nsd_of distnod (indices ! i)) (a0 ! i) (Dn_of (distances ! i) (a0 ! i))))
       (B_of (nsd_of distnod (indices ! i))
          (Dyy_of (nsd_of distnod (indices ! i)) (a0 ! i) (Dn_of (distances ! i) (a0 ! i))))"
  unfolding run_loop_fields using assms
  by (simp_all add: node_acc_def loop_body_def loop_locals_def acc0_def Let_def)

lemma node_shapes:
  assumes N: "30 \<le> length distnod" and i: "i < length distnod"
  defines "nsd \<equiv> nsd_of distnod (knn_indices 30 distnod ! i)"
    and "Dn \<equiv> Dn_of (knn_distances 30 distnod ! i) (a0_of (knn_distances 30 distnod) ! i)"
  shows "shape 6 6 (A_of nsd Dn)"
    and "shape 6 6 (A_of nsd (Dx_of nsd a Dn))" and "shape 6 6 (A_of nsd (Dxx_of nsd a Dn))"
    and "shape 6 6 (A_of nsd (Dy_of nsd a Dn))" and "shape 6 6 (A_of nsd (Dyy_of nsd a Dn))"
    and "shape 30 6 (B_of nsd Dn)"
    and "shape 30 6 (B_of nsd (Dx_of nsd a Dn))" and "shape 30 6 (B_of nsd (Dxx_of nsd a Dn))"
    and "shape 30 6 (B_of nsd (Dy_of nsd a Dn))" and "shape 30 6 (B_of nsd (Dyy_of nsd a Dn))"
proof -
  have ln: "length nsd = 30" unfolding nsd_def by (rule nsd_length[OF N i])
  have ld: "length Dn = 30" unfolding Dn_def by (simp add: Dn_length knn_distances_row_length[OF N i])
  have l: "length (Dx_of nsd a Dn) = 30" "length (Dxx_of nsd a Dn) = 30"
      "length (Dy_of nsd a Dn) = 30" "length (Dyy_of nsd a Dn) = 30"
    using ln ld by (simp_all add: D_lengths)
  have k: "(0::nat) < 30" by simp
  show "shape 6 6 (A_of nsd Dn)" by (rule A_shape[OF ln ld k])
  show "shape 6 6 (A_of nsd (Dx_of nsd a Dn))" by (rule A_shape[OF ln l(1) k])
  show "shape 6 6 (A_of nsd (Dxx_of nsd a Dn))" by (rule A_shape[OF ln l(2) k])
  show "shape 6 6 (A_of nsd (Dy_of nsd a Dn))" by (rule A_shape[OF ln l(3) k])
  show "shape 6 6 (A_of nsd (Dyy_of nsd a Dn))" by (rule A_shape[OF ln l(4) k])
  show "shape 30 6 (B_of nsd Dn)" by (rule B_shape[OF ln ld k])
  show "shape 30 6 (B_of nsd (Dx_of nsd a Dn))" by (rule B_shape[OF ln l(1) k])
  show "shape 30 6 (B_of nsd (Dxx_of nsd a Dn))" by (rule B_shape[OF ln l(2) k])
  show "shape 30 6 (B_of nsd (Dy_of nsd a Dn))" by (rule B_shape[OF ln l(3) k])
  show "shape 30 6 (B_of nsd (Dyy_of nsd a Dn))" by (rule B_shape[OF ln l(4) k])
qed

lemma ring_node_A:
  "A_of (nsd_of ring_cloud (knn_indices 30 ring_cloud ! 0))
     (Dn_of (knn_distances 30 ring_cloud ! 0) (a0_of (knn_distances 30 ring_cloud) ! 0))
   = A_of ring_cloud ring_Dn"
  unfolding ring_nsd ring_distances ring_a0 ring_Dn_def ..

lemma ring_pinv_shape: "shape 6 6 (ring_pinv A)"
  unfolding ring_pinv_def by (rule ring_shapes(1))

lemma ring_pinv_inverse:
  "dot (ring_pinv (A_of (nsd_of ring_cloud (knn_indices 30 ring_cloud ! 0))
          (Dn_of (knn_distances 30 ring_cloud ! 0) (a0_of (knn_distances 30 ring_cloud) ! 0))))
       (A_of (nsd_of ring_cloud (knn_indices 30 ring_cloud ! 0))
          (Dn_of (knn_distances 30 ring_cloud ! 0) (a0_of (knn_distances 30 ring_cloud) ! 0)))
   = eye 6"
  unfolding ring_node_A ring_pinv_def by (rule ring_inv_inverse)

subsection \<open>The weight lines on \<open>float64\<close> values\<close>

lemma fl_max_ge: "2 ^ 1023 \<le> fl_max"
  by (simp add: fl_max_def)

lemma fl_max_pos: "0 < fl_max"
  using fl_max_ge by (smt (verit) zero_less_power)

lemma fl_tiny_pos: "0 < fl_tiny"
  by (simp add: fl_tiny_def)

lemma to_fl_cases: "\<bar>x\<bar> < fl_max \<Longrightarrow> to_fl x = Fin x \<or> to_fl x = Fin 0"
  by (simp add: to_fl_def)

lemma to_fl_exact: "fl_tiny < \<bar>x\<bar> \<Longrightarrow> \<bar>x\<bar> < fl_max \<Longrightarrow> to_fl x = Fin x"
  by (simp add: to_fl_def)

lemma to_fl_zero: "to_fl 0 = Fin 0"
  using fl_tiny_pos fl_max_pos by (simp add: to_fl_def)

lemma to_fl_bound:
  assumes "\<bar>x\<bar> \<le> b" "b < fl_max"
  obtains y where "to_fl x = Fin y" "\<bar>y\<bar> \<le> b" "y = x \<or> y = 0"
proof -
  have "\<bar>x\<bar> < fl_max" using assms by simp
  then consider "to_fl x = Fin x" | "to_fl x = Fin 0" using to_fl_cases by blast
  then show ?thesis
  proof cases
    case 1 then show ?thesis using that[of x] assms by simp
  next
    case 2 
    have "0 \<le> b" using assms(1) by simp
    then show ?thesis using that[of 0] 2 by simp
  qed
qed

lemma range_numbers:
  fixes L :: real
  assumes "L = 2 ^ 250"
  shows "0 < L"
    and "fl_tiny < 3/10 / L" and "3/10 * L < fl_max"
    and "fl_tiny < 9/100 / L^2" and "9/100 * L^2 < fl_max"
    and "fl_tiny < 81/10000 / L^4" and "81/10000 * L^4 < fl_max"
    and "fl_tiny < 200/9 / L^2" and "200/9 * L^2 < fl_max"
    and "fl_tiny < 20000/81 / L^4" and "20000/81 * L^4 < fl_max"
    and "10/3 < fl_max" and "100/9 < fl_max" and "1 < fl_max" and "L < fl_max"
    and "200/9 * L < fl_max" and "L^2 < fl_max" and "2 * L^2 < fl_max" and "3 * L^2 < fl_max"
    and "20000/27 * L^2 < fl_max"
  unfolding assms by (simp_all add: fl_max_def fl_tiny_def)

lemma scale_bounds:
  fixes dk L :: real
  assumes L: "0 < L" and lo: "1 / L \<le> dk" and hi: "dk \<le> L"
  shows "0 < dk" and "1 / dk \<le> L"
    and "dk^2 \<le> L^2" and "1 / L^2 \<le> dk^2" and "1 / dk^2 \<le> L^2"
    and "dk^4 \<le> L^4" and "1 / L^4 \<le> dk^4" and "1 / dk^4 \<le> L^4"
proof -
  have "0 < 1 / L" using L by simp
  then show p: "0 < dk" using lo by linarith
  have "1 \<le> dk * L" using lo L by (simp add: field_simps)
  then show i: "1 / dk \<le> L" using p by (simp add: field_simps)
  have il: "0 \<le> 1 / L" and id: "0 \<le> 1 / dk" using L p by simp_all
  show "dk^2 \<le> L^2" using hi p by (intro power_mono) simp_all
  show "dk^4 \<le> L^4" using hi p by (intro power_mono) simp_all
  have "(1 / L)^2 \<le> dk^2" using lo il by (rule power_mono)
  then show "1 / L^2 \<le> dk^2" by (simp add: power_one_over)
  have "(1 / L)^4 \<le> dk^4" using lo il by (rule power_mono)
  then show "1 / L^4 \<le> dk^4" by (simp add: power_one_over)
  have "(1 / dk)^2 \<le> L^2" using i id by (rule power_mono)
  then show "1 / dk^2 \<le> L^2" by (simp add: power_one_over)
  have "(1 / dk)^4 \<le> L^4" using i id by (rule power_mono)
  then show "1 / dk^4 \<le> L^4" by (simp add: power_one_over)
qed

lemma a0_in_range:
  fixes dk :: real
  assumes lo: "1 / 2 ^ 250 \<le> dk" and hi: "dk \<le> 2 ^ 250"
  defines "a \<equiv> 0.3 * dk"
  shows "0 < a"
    and "fl_mul (Fin 0.3) (Fin dk) = Fin a"
    and "fl_pow (Fin a) 2 = Fin (a ^ 2)"
    and "fl_pow (Fin a) 4 = Fin (a ^ 4)"
    and "fl_div (Fin (- 2)) (Fin (a ^ 2)) = Fin (- 2 / a ^ 2)"
    and "fl_div (Fin (- 2)) (Fin (a ^ 4)) = Fin (- 2 / a ^ 4)"
proof -
  define L :: real where "L = 2 ^ 250"
  note n = range_numbers[OF L_def]
  have lo': "1 / L \<le> dk" and hi': "dk \<le> L" using lo hi by (simp_all add: L_def)
  note s = scale_bounds[OF n(1) lo' hi']
  show ap: "0 < a" using s(1) by (simp add: a_def)
  have a1: "3/10 / L \<le> a" "a \<le> 3/10 * L" using lo' hi' by (simp_all add: a_def)
  have "to_fl a = Fin a"
    by (rule to_fl_exact) (use a1 n(2,3) ap in simp_all)
  then show "fl_mul (Fin 0.3) (Fin dk) = Fin a" by (simp add: a_def)
  have a2: "a ^ 2 = 9/100 * dk ^ 2" by (simp add: a_def power_mult_distrib power2_eq_square)
  have a4: "a ^ 4 = 81/10000 * dk ^ 4" by (simp add: a_def power_mult_distrib power4_eq_xxxx)
  have b2: "9/100 / L^2 \<le> a ^ 2" "a ^ 2 \<le> 9/100 * L^2" using s(3,4) by (simp_all add: a2)
  have b4: "81/10000 / L^4 \<le> a ^ 4" "a ^ 4 \<le> 81/10000 * L^4" using s(6,7) by (simp_all add: a4)
  have p2: "0 < a ^ 2" and p4: "0 < a ^ 4" using ap by simp_all
  have "to_fl (a ^ 2) = Fin (a ^ 2)"
    by (rule to_fl_exact) (use b2 n(4,5) p2 in simp_all)
  then show "fl_pow (Fin a) 2 = Fin (a ^ 2)" by simp
  have "to_fl (a ^ 4) = Fin (a ^ 4)"
    by (rule to_fl_exact) (use b4 n(6,7) p4 in simp_all)
  then show "fl_pow (Fin a) 4 = Fin (a ^ 4)" by simp
  have q2: "2 / a ^ 2 = 200/9 * (1 / dk ^ 2)" by (simp add: a2)
  have q4: "2 / a ^ 4 = 20000/81 * (1 / dk ^ 4)" by (simp add: a4)
  have r2: "1 / L^2 \<le> 1 / dk^2" using s(3) s(1) by (simp add: frac_le)
  have r4: "1 / L^4 \<le> 1 / dk^4" using s(6) s(1) by (simp add: frac_le)
  have c2: "200/9 / L^2 \<le> 2 / a ^ 2" "2 / a ^ 2 \<le> 200/9 * L^2"
    using r2 s(5) unfolding q2 by simp_all
  have c4: "20000/81 / L^4 \<le> 2 / a ^ 4" "2 / a ^ 4 \<le> 20000/81 * L^4"
    using r4 s(8) unfolding q4 by simp_all
  have "to_fl (- 2 / a ^ 2) = Fin (- 2 / a ^ 2)"
    by (rule to_fl_exact) (use c2 n(8,9) p2 in simp_all)
  then show "fl_div (Fin (- 2)) (Fin (a ^ 2)) = Fin (- 2 / a ^ 2)" using p2 by simp
  have "to_fl (- 2 / a ^ 4) = Fin (- 2 / a ^ 4)"
    by (rule to_fl_exact) (use c4 n(10,11) p4 in simp_all)
  then show "fl_div (Fin (- 2)) (Fin (a ^ 4)) = Fin (- 2 / a ^ 4)" using p4 by simp
qed

lemma Dn_elem_finite:
  fixes dk d :: real
  assumes lo: "1 / 2 ^ 250 \<le> dk" and hi: "dk \<le> 2 ^ 250" and d: "0 \<le> d" "d \<le> dk"
  shows "\<exists>e. fl_exp (fl_neg (fl_pow (fl_div (Fin d) (Fin (0.3 * dk))) 2)) = Fin e \<and> 0 \<le> e \<and> e \<le> 1"
proof -
  define L :: real where "L = 2 ^ 250"
  note n = range_numbers[OF L_def]
  define a where "a = 0.3 * dk"
  have ap: "0 < a" unfolding a_def by (rule a0_in_range(1)[OF lo hi])
  have "d / a \<le> 10/3" using d ap by (simp add: a_def field_simps)
  moreover have "0 \<le> d / a" using d ap by simp
  ultimately have "\<bar>d / a\<bar> \<le> 10/3" by simp
  then obtain y1 where y1: "to_fl (d / a) = Fin y1" "\<bar>y1\<bar> \<le> 10/3"
    using to_fl_bound[OF _ n(12)] by blast
  have "y1 ^ 2 \<le> (10/3) ^ 2" using y1(2) by (simp add: abs_le_square_iff[symmetric])
  then have "\<bar>y1 ^ 2\<bar> \<le> 100/9" by (simp add: power2_eq_square)
  then obtain y2 where y2: "to_fl (y1 ^ 2) = Fin y2" "y2 = y1 ^ 2 \<or> y2 = 0"
    using to_fl_bound[OF _ n(13)] by blast
  have y2p: "0 \<le> y2" using y2(2) by auto
  then have "\<bar>exp (- y2)\<bar> \<le> 1" by simp
  then obtain e where e: "to_fl (exp (- y2)) = Fin e" "\<bar>e\<bar> \<le> 1" "e = exp (- y2) \<or> e = 0"
    using to_fl_bound[OF _ n(14)] by blast
  have "0 \<le> e" using e(3) by auto
  moreover have "e \<le> 1" using e(2) by simp
  moreover have "fl_exp (fl_neg (fl_pow (fl_div (Fin d) (Fin a)) 2)) = Fin e"
    using ap y1(1) y2(1) e(1) by simp
  ultimately show ?thesis unfolding a_def by blast
qed

lemma first_elem_finite:
  fixes dk u e :: real
  assumes lo: "1 / 2 ^ 250 \<le> dk" and hi: "dk \<le> 2 ^ 250"
    and u: "\<bar>x0 - x\<bar> \<le> dk" and e: "0 \<le> e" "e \<le> 1"
  shows "finite_fl (fl_mul (fl_mul (fl_div (Fin (- 2)) (fl_pow (Fin (0.3 * dk)) 2))
                                   (fl_sub (Fin x0) (Fin x))) (Fin e))"
proof -
  define L :: real where "L = 2 ^ 250"
  note n = range_numbers[OF L_def]
  have lo': "1 / L \<le> dk" and hi': "dk \<le> L" using lo hi by (simp_all add: L_def)
  note s = scale_bounds[OF n(1) lo' hi']
  define a where "a = 0.3 * dk"
  note r = a0_in_range[OF lo hi, folded a_def]
  have "\<bar>x0 - x\<bar> \<le> L" using u hi' by simp
  then obtain w where w: "to_fl (x0 - x) = Fin w" "w = x0 - x \<or> w = 0"
    using to_fl_bound[OF _ n(15)] by blast
  have wb: "\<bar>w\<bar> \<le> dk" using w(2) u s(1) by auto
  have a2: "a ^ 2 = 9/100 * dk ^ 2" by (simp add: a_def power_mult_distrib power2_eq_square)
  have "\<bar>- 2 / a ^ 2 * w\<bar> = 2 / a ^ 2 * \<bar>w\<bar>" using r(1) by (simp add: abs_mult)
  also have "\<dots> \<le> 2 / a ^ 2 * dk" using wb r(1) by (intro mult_left_mono) simp_all
  also have "\<dots> = 200/9 * (1 / dk)" unfolding a2 using s(1) by (simp add: power2_eq_square)
  also have "\<dots> \<le> 200/9 * L" using s(2) by simp
  finally have "\<bar>- 2 / a ^ 2 * w\<bar> \<le> 200/9 * L" .
  then obtain m where m: "to_fl (- 2 / a ^ 2 * w) = Fin m" "\<bar>m\<bar> \<le> 200/9 * L"
    using to_fl_bound[OF _ n(16)] by blast
  have "\<bar>m * e\<bar> = \<bar>m\<bar> * e" using e by (simp add: abs_mult)
  also have "\<dots> \<le> \<bar>m\<bar> * 1" using e by (intro mult_left_mono) simp_all
  finally have "\<bar>m * e\<bar> \<le> 200/9 * L" using m(2) by simp
  then obtain z where z: "to_fl (m * e) = Fin z"
    using to_fl_bound[OF _ n(16)] by blast
  have 1: "fl_sub (Fin x0) (Fin x) = Fin w" by (simp only: fl_sub.simps w(1))
  have 2: "fl_mul (Fin (- 2 / a ^ 2)) (Fin w) = Fin m" by (simp only: fl_mul.simps m(1))
  have 3: "fl_mul (Fin m) (Fin e) = Fin z" by (simp only: fl_mul.simps z)
  have "finite_fl (fl_mul (fl_mul (fl_div (Fin (- 2)) (fl_pow (Fin a) 2))
                                   (fl_sub (Fin x0) (Fin x))) (Fin e))"
    by (simp only: r(3) r(5) 1 2 3 finite_fl.simps)
  then show ?thesis unfolding a_def .
qed

lemma second_elem_finite:
  fixes dk u e :: real
  assumes lo: "1 / 2 ^ 250 \<le> dk" and hi: "dk \<le> 2 ^ 250"
    and u: "\<bar>x0 - x\<bar> \<le> dk" and e: "0 \<le> e" "e \<le> 1"
  shows "finite_fl (fl_mul (fl_mul (fl_div (Fin (- 2)) (fl_pow (Fin (0.3 * dk)) 4))
            (fl_sub (fl_pow (Fin (0.3 * dk)) 2)
               (fl_mul (Fin 2) (fl_pow (fl_sub (Fin x0) (Fin x)) 2)))) (Fin e))"
proof -
  define L :: real where "L = 2 ^ 250"
  note n = range_numbers[OF L_def]
  have lo': "1 / L \<le> dk" and hi': "dk \<le> L" using lo hi by (simp_all add: L_def)
  note s = scale_bounds[OF n(1) lo' hi']
  define a where "a = 0.3 * dk"
  note r = a0_in_range[OF lo hi, folded a_def]
  have "\<bar>x0 - x\<bar> \<le> L" using u hi' by simp
  then obtain w where w: "to_fl (x0 - x) = Fin w" "w = x0 - x \<or> w = 0"
    using to_fl_bound[OF _ n(15)] by blast
  have wb: "\<bar>w\<bar> \<le> dk" using w(2) u s(1) by auto
  have w2: "w ^ 2 \<le> dk ^ 2" using wb s(1) by (simp add: abs_le_square_iff[symmetric])
  then have "\<bar>w ^ 2\<bar> \<le> L ^ 2" using s(3) by simp
  then obtain t where t: "to_fl (w ^ 2) = Fin t" "t = w ^ 2 \<or> t = 0"
    using to_fl_bound[OF _ n(17)] by blast
  have tb: "0 \<le> t" "t \<le> dk ^ 2" using t(2) w2 by auto
  then have "\<bar>2 * t\<bar> \<le> 2 * L ^ 2" using s(3) by simp
  then obtain t2 where t2: "to_fl (2 * t) = Fin t2" "t2 = 2 * t \<or> t2 = 0"
    using to_fl_bound[OF _ n(18)] by blast
  have t2b: "0 \<le> t2" "t2 \<le> 2 * dk ^ 2" using t2(2) tb by auto
  have a2: "a ^ 2 = 9/100 * dk ^ 2" by (simp add: a_def power_mult_distrib power2_eq_square)
  have a4: "a ^ 4 = 81/10000 * dk ^ 4" by (simp add: a_def power_mult_distrib power4_eq_xxxx)
  have d2: "0 \<le> dk ^ 2" by simp
  have ab: "\<bar>a ^ 2 - t2\<bar> \<le> 3 * dk ^ 2" using t2b d2 unfolding a2 by (simp add: abs_le_iff)
  then have "\<bar>a ^ 2 - t2\<bar> \<le> 3 * L ^ 2" using s(3) by simp
  then obtain q where q: "to_fl (a ^ 2 - t2) = Fin q" "q = a ^ 2 - t2 \<or> q = 0"
    using to_fl_bound[OF _ n(19)] by blast
  have qb: "\<bar>q\<bar> \<le> 3 * dk ^ 2" using q(2) ab d2 by auto
  have p4: "0 < a ^ 4" using r(1) by simp
  have "\<bar>- 2 / a ^ 4 * q\<bar> = 2 / a ^ 4 * \<bar>q\<bar>" using p4 by (simp add: abs_mult)
  also have "\<dots> \<le> 2 / a ^ 4 * (3 * dk ^ 2)" using qb p4 by (intro mult_left_mono) simp_all
  also have "\<dots> = 20000/27 * (1 / dk ^ 2)" unfolding a4 using s(1) by (simp add: power4_eq_xxxx power2_eq_square)
  also have "\<dots> \<le> 20000/27 * L ^ 2" using s(5) by simp
  finally have "\<bar>- 2 / a ^ 4 * q\<bar> \<le> 20000/27 * L ^ 2" .
  then obtain m where m: "to_fl (- 2 / a ^ 4 * q) = Fin m" "\<bar>m\<bar> \<le> 20000/27 * L ^ 2"
    using to_fl_bound[OF _ n(20)] by blast
  have "\<bar>m * e\<bar> = \<bar>m\<bar> * e" using e by (simp add: abs_mult)
  also have "\<dots> \<le> \<bar>m\<bar> * 1" using e by (intro mult_left_mono) simp_all
  finally have "\<bar>m * e\<bar> \<le> 20000/27 * L ^ 2" using m(2) by simp
  then obtain z where z: "to_fl (m * e) = Fin z"
    using to_fl_bound[OF _ n(20)] by blast
  have 1: "fl_pow (fl_sub (Fin x0) (Fin x)) 2 = Fin t"
    by (simp only: fl_sub.simps w(1) fl_pow.simps t(1))
  have 2: "fl_mul (Fin 2) (Fin t) = Fin t2" by (simp only: fl_mul.simps t2(1))
  have 3: "fl_sub (Fin (a ^ 2)) (Fin t2) = Fin q" by (simp only: fl_sub.simps q(1))
  have 4: "fl_mul (Fin (- 2 / a ^ 4)) (Fin q) = Fin m" by (simp only: fl_mul.simps m(1))
  have 5: "fl_mul (Fin m) (Fin e) = Fin z" by (simp only: fl_mul.simps z)
  have "finite_fl (fl_mul (fl_mul (fl_div (Fin (- 2)) (fl_pow (Fin a) 4))
            (fl_sub (fl_pow (Fin a) 2)
               (fl_mul (Fin 2) (fl_pow (fl_sub (Fin x0) (Fin x)) 2)))) (Fin e))"
    by (simp only: r(3) r(4) r(6) 1 2 3 4 5 finite_fl.simps)
  then show ?thesis unfolding a_def .
qed

lemma coord_le_euclid:
  "\<bar>fst p - fst q\<bar> \<le> euclid p q" "\<bar>snd p - snd q\<bar> \<le> euclid p q"
proof -
  have "\<bar>fst p - fst q\<bar> = sqrt ((fst p - fst q) ^ 2)" by simp
  also have "\<dots> \<le> euclid p q" unfolding euclid_def by (rule real_sqrt_le_mono) simp
  finally show "\<bar>fst p - fst q\<bar> \<le> euclid p q" .
  have "\<bar>snd p - snd q\<bar> = sqrt ((snd p - snd q) ^ 2)" by simp
  also have "\<dots> \<le> euclid p q" unfolding euclid_def by (rule real_sqrt_le_mono) simp
  finally show "\<bar>snd p - snd q\<bar> \<le> euclid p q" .
qed

lemma node_bounds:
  assumes N: "30 \<le> length pts" and i: "i < length pts" and j: "j < 30"
  shows "0 \<le> knn_distances 30 pts ! i ! j"
    and "knn_distances 30 pts ! i ! j \<le> knn_distances 30 pts ! i ! 29"
    and "\<bar>fst (nsd_of pts (knn_indices 30 pts ! i) ! 0) - fst (nsd_of pts (knn_indices 30 pts ! i) ! j)\<bar>
           \<le> knn_distances 30 pts ! i ! 29"
    and "\<bar>snd (nsd_of pts (knn_indices 30 pts ! i) ! 0) - snd (nsd_of pts (knn_indices 30 pts ! i) ! j)\<bar>
           \<le> knn_distances 30 pts ! i ! 29"
proof -
  have l: "length (knn_distances 30 pts ! i) = 30" by (rule knn_distances_row_length[OF N i])
  show "0 \<le> knn_distances 30 pts ! i ! j" by (rule knn_row_nonneg[OF i N j])
  show le: "knn_distances 30 pts ! i ! j \<le> knn_distances 30 pts ! i ! 29"
    by (rule sorted_nth_mono[OF knn_row_sorted[OF i]]) (use j l in simp_all)
  have o: "nsd_of pts (knn_indices 30 pts ! i) ! 0 = pts ! i"
    by (rule nsd_origin[OF _ N i]) simp
  have d: "knn_distances 30 pts ! i ! j =
      euclid (nsd_of pts (knn_indices 30 pts ! i) ! 0) (nsd_of pts (knn_indices 30 pts ! i) ! j)"
    unfolding o nsd_nth[OF N i j] by (rule knn_distances_nth[OF i N j])
  show "\<bar>fst (nsd_of pts (knn_indices 30 pts ! i) ! 0) - fst (nsd_of pts (knn_indices 30 pts ! i) ! j)\<bar>
           \<le> knn_distances 30 pts ! i ! 29"
    using coord_le_euclid(1)[of "nsd_of pts (knn_indices 30 pts ! i) ! 0"
        "nsd_of pts (knn_indices 30 pts ! i) ! j"] le unfolding d by linarith
  show "\<bar>snd (nsd_of pts (knn_indices 30 pts ! i) ! 0) - snd (nsd_of pts (knn_indices 30 pts ! i) ! j)\<bar>
           \<le> knn_distances 30 pts ! i ! 29"
    using coord_le_euclid(2)[of "nsd_of pts (knn_indices 30 pts ! i) ! 0"
        "nsd_of pts (knn_indices 30 pts ! i) ! j"] le unfolding d by linarith
qed

lemma fl_lengths:
  "length (Dn_fl ds a0) = length ds"
  "length (Dx_fl nsd a0 Dn) = min (length nsd) (length Dn)"
  "length (Dxx_fl nsd a0 Dn) = min (length nsd) (length Dn)"
  "length (Dy_fl nsd a0 Dn) = min (length nsd) (length Dn)"
  "length (Dyy_fl nsd a0 Dn) = min (length nsd) (length Dn)"
  by (simp_all add: Dn_fl_def Dx_fl_def Dxx_fl_def Dy_fl_def Dyy_fl_def)

lemma weights_finite:
  fixes dk :: real
  assumes lo: "1 / 2 ^ 250 \<le> dk" and hi: "dk \<le> 2 ^ 250"
    and len: "length nsd = n" "length ds = n"
    and ds: "\<And>j. j < n \<Longrightarrow> 0 \<le> ds ! j \<and> ds ! j \<le> dk"
    and xs: "\<And>j. j < n \<Longrightarrow> \<bar>fst (nsd ! 0) - fst (nsd ! j)\<bar> \<le> dk"
    and ys: "\<And>j. j < n \<Longrightarrow> \<bar>snd (nsd ! 0) - snd (nsd ! j)\<bar> \<le> dk"
  shows "list_all finite_fl (Dn_fl ds (Fin (0.3 * dk)))"
    and "list_all finite_fl (Dx_fl nsd (Fin (0.3 * dk)) (Dn_fl ds (Fin (0.3 * dk))))"
    and "list_all finite_fl (Dxx_fl nsd (Fin (0.3 * dk)) (Dn_fl ds (Fin (0.3 * dk))))"
    and "list_all finite_fl (Dy_fl nsd (Fin (0.3 * dk)) (Dn_fl ds (Fin (0.3 * dk))))"
    and "list_all finite_fl (Dyy_fl nsd (Fin (0.3 * dk)) (Dn_fl ds (Fin (0.3 * dk))))"
proof -
  have e: "\<exists>e. Dn_fl ds (Fin (0.3 * dk)) ! j = Fin e \<and> 0 \<le> e \<and> e \<le> 1" if "j < n" for j
    using Dn_elem_finite[OF lo hi, of "ds ! j"] ds[OF that] that len by (simp add: Dn_fl_def)
  show "list_all finite_fl (Dn_fl ds (Fin (0.3 * dk)))"
    unfolding list_all_length
  proof (intro allI impI)
    fix j assume "j < length (Dn_fl ds (Fin (0.3 * dk)))"
    then have "j < n" using len by (simp add: fl_lengths)
    then show "finite_fl (Dn_fl ds (Fin (0.3 * dk)) ! j)" using e by fastforce
  qed
  show "list_all finite_fl (Dx_fl nsd (Fin (0.3 * dk)) (Dn_fl ds (Fin (0.3 * dk))))"
    unfolding list_all_length
  proof (intro allI impI)
    fix j assume "j < length (Dx_fl nsd (Fin (0.3 * dk)) (Dn_fl ds (Fin (0.3 * dk))))"
    then have j: "j < n" using len by (simp add: fl_lengths)
    obtain e where e: "Dn_fl ds (Fin (0.3 * dk)) ! j = Fin e" "0 \<le> e" "e \<le> 1"
      using e[OF j] by blast
    have "Dx_fl nsd (Fin (0.3 * dk)) (Dn_fl ds (Fin (0.3 * dk))) ! j =
        fl_mul (fl_mul (fl_div (Fin (- 2)) (fl_pow (Fin (0.3 * dk)) 2))
                       (fl_sub (Fin (fst (nsd ! 0))) (Fin (fst (nsd ! j))))) (Fin e)"
      using j len e(1) by (simp add: Dx_fl_def fl_lengths del: fl_pow.simps fl_div.simps fl_sub.simps fl_mul.simps)
    then show "finite_fl (Dx_fl nsd (Fin (0.3 * dk)) (Dn_fl ds (Fin (0.3 * dk))) ! j)"
      using first_elem_finite[OF lo hi xs[OF j] e(2,3)] by (simp only:)
  qed
  show "list_all finite_fl (Dy_fl nsd (Fin (0.3 * dk)) (Dn_fl ds (Fin (0.3 * dk))))"
    unfolding list_all_length
  proof (intro allI impI)
    fix j assume "j < length (Dy_fl nsd (Fin (0.3 * dk)) (Dn_fl ds (Fin (0.3 * dk))))"
    then have j: "j < n" using len by (simp add: fl_lengths)
    obtain e where e: "Dn_fl ds (Fin (0.3 * dk)) ! j = Fin e" "0 \<le> e" "e \<le> 1"
      using e[OF j] by blast
    have "Dy_fl nsd (Fin (0.3 * dk)) (Dn_fl ds (Fin (0.3 * dk))) ! j =
        fl_mul (fl_mul (fl_div (Fin (- 2)) (fl_pow (Fin (0.3 * dk)) 2))
                       (fl_sub (Fin (snd (nsd ! 0))) (Fin (snd (nsd ! j))))) (Fin e)"
      using j len e(1) by (simp add: Dy_fl_def fl_lengths del: fl_pow.simps fl_div.simps fl_sub.simps fl_mul.simps)
    then show "finite_fl (Dy_fl nsd (Fin (0.3 * dk)) (Dn_fl ds (Fin (0.3 * dk))) ! j)"
      using first_elem_finite[OF lo hi ys[OF j] e(2,3)] by (simp only:)
  qed
  show "list_all finite_fl (Dxx_fl nsd (Fin (0.3 * dk)) (Dn_fl ds (Fin (0.3 * dk))))"
    unfolding list_all_length
  proof (intro allI impI)
    fix j assume "j < length (Dxx_fl nsd (Fin (0.3 * dk)) (Dn_fl ds (Fin (0.3 * dk))))"
    then have j: "j < n" using len by (simp add: fl_lengths)
    obtain e where e: "Dn_fl ds (Fin (0.3 * dk)) ! j = Fin e" "0 \<le> e" "e \<le> 1"
      using e[OF j] by blast
    have "Dxx_fl nsd (Fin (0.3 * dk)) (Dn_fl ds (Fin (0.3 * dk))) ! j =
        fl_mul (fl_mul (fl_div (Fin (- 2)) (fl_pow (Fin (0.3 * dk)) 4))
            (fl_sub (fl_pow (Fin (0.3 * dk)) 2)
               (fl_mul (Fin 2) (fl_pow (fl_sub (Fin (fst (nsd ! 0))) (Fin (fst (nsd ! j)))) 2)))) (Fin e)"
      using j len e(1) by (simp add: Dxx_fl_def fl_lengths del: fl_pow.simps fl_div.simps fl_sub.simps fl_mul.simps)
    then show "finite_fl (Dxx_fl nsd (Fin (0.3 * dk)) (Dn_fl ds (Fin (0.3 * dk))) ! j)"
      using second_elem_finite[OF lo hi xs[OF j] e(2,3)] by (simp only:)
  qed
  show "list_all finite_fl (Dyy_fl nsd (Fin (0.3 * dk)) (Dn_fl ds (Fin (0.3 * dk))))"
    unfolding list_all_length
  proof (intro allI impI)
    fix j assume "j < length (Dyy_fl nsd (Fin (0.3 * dk)) (Dn_fl ds (Fin (0.3 * dk))))"
    then have j: "j < n" using len by (simp add: fl_lengths)
    obtain e where e: "Dn_fl ds (Fin (0.3 * dk)) ! j = Fin e" "0 \<le> e" "e \<le> 1"
      using e[OF j] by blast
    have "Dyy_fl nsd (Fin (0.3 * dk)) (Dn_fl ds (Fin (0.3 * dk))) ! j =
        fl_mul (fl_mul (fl_div (Fin (- 2)) (fl_pow (Fin (0.3 * dk)) 4))
            (fl_sub (fl_pow (Fin (0.3 * dk)) 2)
               (fl_mul (Fin 2) (fl_pow (fl_sub (Fin (snd (nsd ! 0))) (Fin (snd (nsd ! j)))) 2)))) (Fin e)"
      using j len e(1) by (simp add: Dyy_fl_def fl_lengths del: fl_pow.simps fl_div.simps fl_sub.simps fl_mul.simps)
    then show "finite_fl (Dyy_fl nsd (Fin (0.3 * dk)) (Dn_fl ds (Fin (0.3 * dk))) ! j)"
      using second_elem_finite[OF lo hi ys[OF j] e(2,3)] by (simp only:)
  qed
qed

lemma fl_mul_NaN: "fl_mul x NaN = NaN"
  by (cases x) simp_all

lemma weights_nan:
  assumes len: "length nsd = n" "length ds = n"
    and ds: "\<And>j. j < n \<Longrightarrow> ds ! j = 0"
  shows "Dn_fl ds (Fin 0) = replicate n NaN"
    and "Dx_fl nsd (Fin 0) (Dn_fl ds (Fin 0)) = replicate n NaN"
    and "Dxx_fl nsd (Fin 0) (Dn_fl ds (Fin 0)) = replicate n NaN"
    and "Dy_fl nsd (Fin 0) (Dn_fl ds (Fin 0)) = replicate n NaN"
    and "Dyy_fl nsd (Fin 0) (Dn_fl ds (Fin 0)) = replicate n NaN"
proof -
  show n: "Dn_fl ds (Fin 0) = replicate n NaN"
    by (rule nth_equalityI) (simp_all add: Dn_fl_def len ds)
  show "Dx_fl nsd (Fin 0) (Dn_fl ds (Fin 0)) = replicate n NaN"
    unfolding n Dx_fl_def by (rule map2_const[OF len(1)]) (simp_all only: fl_mul_NaN length_replicate nth_replicate)
  show "Dxx_fl nsd (Fin 0) (Dn_fl ds (Fin 0)) = replicate n NaN"
    unfolding n Dxx_fl_def by (rule map2_const[OF len(1)]) (simp_all only: fl_mul_NaN length_replicate nth_replicate)
  show "Dy_fl nsd (Fin 0) (Dn_fl ds (Fin 0)) = replicate n NaN"
    unfolding n Dy_fl_def by (rule map2_const[OF len(1)]) (simp_all only: fl_mul_NaN length_replicate nth_replicate)
  show "Dyy_fl nsd (Fin 0) (Dn_fl ds (Fin 0)) = replicate n NaN"
    unfolding n Dyy_fl_def by (rule map2_const[OF len(1)]) (simp_all only: fl_mul_NaN length_replicate nth_replicate)
qed

lemma a0_of_nth:
  "i < length distances \<Longrightarrow> a0_of distances ! i = 0.3 * distances ! i ! 29"
  by (simp add: a0_of_def)

lemma locals_weights:
  "loc_nsd (loop_locals pinv distnod distances indices a0 i) = nsd_of distnod (indices ! i)"
  "loc_Dn (loop_locals pinv distnod distances indices a0 i) = Dn_of (distances ! i) (a0 ! i)"
  "loc_Dx (loop_locals pinv distnod distances indices a0 i) =
     Dx_of (nsd_of distnod (indices ! i)) (a0 ! i) (Dn_of (distances ! i) (a0 ! i))"
  "loc_Dxx (loop_locals pinv distnod distances indices a0 i) =
     Dxx_of (nsd_of distnod (indices ! i)) (a0 ! i) (Dn_of (distances ! i) (a0 ! i))"
  "loc_Dy (loop_locals pinv distnod distances indices a0 i) =
     Dy_of (nsd_of distnod (indices ! i)) (a0 ! i) (Dn_of (distances ! i) (a0 ! i))"
  "loc_Dyy (loop_locals pinv distnod distances indices a0 i) =
     Dyy_of (nsd_of distnod (indices ! i)) (a0 ! i) (Dn_of (distances ! i) (a0 ! i))"
  by (simp_all add: loop_locals_def Let_def)

lemma locals_fl:
  assumes "i < length distances"
  shows "loc_a0_fl (loop_locals pinv distnod distances indices a0 i)
           = fl_mul (Fin 0.3) (Fin (distances ! i ! 29))"
    and "loc_Dn_fl (loop_locals pinv distnod distances indices a0 i)
           = Dn_fl (distances ! i) (fl_mul (Fin 0.3) (Fin (distances ! i ! 29)))"
    and "loc_Dx_fl (loop_locals pinv distnod distances indices a0 i)
           = Dx_fl (nsd_of distnod (indices ! i)) (fl_mul (Fin 0.3) (Fin (distances ! i ! 29)))
               (Dn_fl (distances ! i) (fl_mul (Fin 0.3) (Fin (distances ! i ! 29))))"
    and "loc_Dxx_fl (loop_locals pinv distnod distances indices a0 i)
           = Dxx_fl (nsd_of distnod (indices ! i)) (fl_mul (Fin 0.3) (Fin (distances ! i ! 29)))
               (Dn_fl (distances ! i) (fl_mul (Fin 0.3) (Fin (distances ! i ! 29))))"
    and "loc_Dy_fl (loop_locals pinv distnod distances indices a0 i)
           = Dy_fl (nsd_of distnod (indices ! i)) (fl_mul (Fin 0.3) (Fin (distances ! i ! 29)))
               (Dn_fl (distances ! i) (fl_mul (Fin 0.3) (Fin (distances ! i ! 29))))"
    and "loc_Dyy_fl (loop_locals pinv distnod distances indices a0 i)
           = Dyy_fl (nsd_of distnod (indices ! i)) (fl_mul (Fin 0.3) (Fin (distances ! i ! 29)))
               (Dn_fl (distances ! i) (fl_mul (Fin 0.3) (Fin (distances ! i ! 29))))"
  using assms
  by (simp_all add: loop_locals_def Let_def a0_fl_of_def del: fl_mul.simps)

lemma zero_cloud_kth: "knn_distances 30 (replicate 30 p) ! 0 ! 29 = 0"
proof -
  let ?pts = "replicate 30 p"
  have l: "length (knn_indices 30 ?pts ! 0) = 30"
    by (simp add: knn_indices_row neighbors_length)
  have "knn_indices 30 ?pts ! 0 ! 29 \<in> set (neighbors 30 ?pts (?pts ! 0))"
    using l by (simp add: knn_indices_row)
  then have b: "knn_indices 30 ?pts ! 0 ! 29 < 30" using neighbors_bound by fastforce
  have "knn_distances 30 ?pts ! 0 ! 29 = euclid (?pts ! 0) (?pts ! (knn_indices 30 ?pts ! 0 ! 29))"
    by (rule knn_distances_nth) simp_all
  also have "\<dots> = 0" using b by (simp add: euclid_self)
  finally show ?thesis .
qed

lemma ring_kth: "knn_distances 30 ring_cloud ! 0 ! 29 = 65"
  by (simp add: ring_distances ring_ds_def)

lemma knn_distances_length: "length (knn_distances k pts) = length pts"
  by (simp add: knn_distances_def)

lemma euclid_scaled:
  assumes "0 < s"
  shows "euclid (0, 0) (fst q / s, snd q / s) = euclid (0, 0) q / s"
proof -
  have "(fst q / s)\<^sup>2 + (snd q / s)\<^sup>2 = ((fst q)\<^sup>2 + (snd q)\<^sup>2) / s\<^sup>2"
    by (simp add: power_divide add_divide_distrib)
  then have "sqrt ((fst q / s)\<^sup>2 + (snd q / s)\<^sup>2) = sqrt ((fst q)\<^sup>2 + (snd q)\<^sup>2) / sqrt (s\<^sup>2)"
    by (simp only: real_sqrt_divide)
  also have "sqrt (s\<^sup>2) = s" using assms by simp
  finally show ?thesis by (simp add: euclid_def)
qed

lemma tiny_cloud_length: "length tiny_cloud = 30"
  by (simp add: tiny_cloud_def ring_cloud_length)

lemma tiny_origin: "tiny_cloud ! 0 = (0, 0)"
  by (simp add: tiny_cloud_def ring_cloud_def)

lemma tiny_keys: "map (euclid (0, 0)) tiny_cloud = map (\<lambda>d. d / 2 ^ 300) ring_ds"
proof -
  have "map (euclid (0, 0)) tiny_cloud = map (\<lambda>q. euclid (0, 0) q / 2 ^ 300) ring_cloud"
    unfolding tiny_cloud_def map_map comp_def
    by (rule map_cong[OF refl]) (rule euclid_scaled, simp)
  also have "\<dots> = map (\<lambda>d. d / 2 ^ 300) (map (euclid (0, 0)) ring_cloud)"
    by (simp only: map_map comp_def)
  finally show ?thesis by (simp only: ring_keys)
qed

lemma tiny_sorted: "sorted (map (\<lambda>d. d / 2 ^ 300) ring_ds)"
  by (simp add: ring_ds_def)

lemma tiny_indices: "knn_indices 30 tiny_cloud ! 0 = [0..<30]"
proof -
  have "sorted (map (\<lambda>j. euclid (0, 0) (tiny_cloud ! j)) [0..<length tiny_cloud])"
    by (simp only: keys_upt tiny_keys tiny_sorted)
  then have "sort_key (\<lambda>j. euclid (0, 0) (tiny_cloud ! j)) [0..<length tiny_cloud] = [0..<length tiny_cloud]"
    by (rule sort_key_id_if_sorted)
  then show ?thesis
    by (simp add: knn_indices_row tiny_cloud_length neighbors_def tiny_origin)
qed

lemma tiny_nsd: "nsd_of tiny_cloud (knn_indices 30 tiny_cloud ! 0) = tiny_cloud"
  unfolding tiny_indices nsd_of_def using map_nth[of tiny_cloud] by (simp add: tiny_cloud_length)

lemma tiny_distances: "knn_distances 30 tiny_cloud ! 0 = 0 # replicate 29 (65 / 2 ^ 300)"
proof -
  have "knn_distances 30 tiny_cloud ! 0 = take 30 (sort (map (euclid (0, 0)) tiny_cloud))"
    using knn_distances_row[of 0 tiny_cloud 30] by (simp add: tiny_cloud_length tiny_origin)
  also have "\<dots> = take 30 (map (\<lambda>d. d / 2 ^ 300) ring_ds)"
    unfolding tiny_keys by (simp only: sorted_sort_id[OF tiny_sorted])
  also have "\<dots> = 0 # replicate 29 (65 / 2 ^ 300)"
    by (simp add: ring_ds_def)
  finally show ?thesis .
qed

lemma tiny_kth: "knn_distances 30 tiny_cloud ! 0 ! 29 = 65 / 2 ^ 300"
  by (simp add: tiny_distances)

lemma tiny_a0:
  "fl_mul (Fin 0.3) (Fin (65 / 2 ^ 300)) = Fin (39 / 2 / 2 ^ 300)"
  by (simp add: to_fl_def fl_max_def fl_tiny_def)

lemma tiny_powers:
  "fl_pow (Fin (39 / 2 / 2 ^ 300)) 4 = Fin 0"
  "fl_pow (Fin (39 / 2 / 2 ^ 300)) 2 = Fin ((39 / 2 / 2 ^ 300) ^ 2)"
  by (simp_all add: to_fl_def fl_max_def fl_tiny_def power_divide)

lemma tiny_Dn0:
  "fl_exp (fl_neg (fl_pow (fl_div (Fin 0) (Fin (39 / 2 / 2 ^ 300))) 2)) = Fin 1"
proof -
  have o: "to_fl 1 = Fin 1" by (simp add: to_fl_def fl_max_def fl_tiny_def)
  show ?thesis by (simp add: to_fl_zero o)
qed

lemma tiny_Dxx0:
  "fl_mul (fl_mul (fl_div (Fin (- 2)) (fl_pow (Fin (39 / 2 / 2 ^ 300)) 4))
      (fl_sub (fl_pow (Fin (39 / 2 / 2 ^ 300)) 2)
         (fl_mul (Fin 2) (fl_pow (fl_sub (Fin 0) (Fin 0)) 2)))) (Fin 1) = NInf"
proof -
  have 1: "fl_div (Fin (- 2)) (fl_pow (Fin (39 / 2 / 2 ^ 300)) 4) = NInf"
    unfolding tiny_powers(1) by simp
  have 2: "fl_mul (Fin 2) (fl_pow (fl_sub (Fin 0) (Fin 0)) 2) = Fin 0"
    by (simp add: to_fl_zero)
  have 3: "fl_sub (fl_pow (Fin (39 / 2 / 2 ^ 300)) 2) (Fin 0) = Fin ((39 / 2 / 2 ^ 300) ^ 2)"
    unfolding tiny_powers(2) using tiny_powers(2) by simp
  have 4: "fl_mul NInf (Fin ((39 / 2 / 2 ^ 300) ^ 2)) = NInf" by simp
  show ?thesis unfolding 1 2 3 4 by simp
qed


section \<open>The claims\<close>

subsection \<open>C1\<close>



subsection \<open>C2\<close>

text \<open>
  Claim C2 (derivatives of the inverse). For node \<open>i\<close> of a cloud of at least 30 nodes,
  let \<open>A\<close>, \<open>Ax\<close>, \<open>Axx\<close>, \<open>Ay\<close>, \<open>Ayy\<close> be the moment matrix of the node and its
  derivative matrices, and let \<open>IA = pinv A\<close> be a 6x6 matrix. Then the loop's \<open>IAx\<close>,
  \<open>IAxx\<close>, \<open>IAy\<close>, \<open>IAyy\<close> for node \<open>i\<close> are, entry by entry, \<open>-IA \<cdot> Ax \<cdot> IA\<close>,
  \<open>-IAx \<cdot> Ax \<cdot> IA - IA \<cdot> Axx \<cdot> IA - IA \<cdot> Ax \<cdot> IAx\<close>, and the same two formulas with
  \<open>Ay\<close>, \<open>Ayy\<close>; and the four derivative rows that the loop appends for node \<open>i\<close> are
  computed from them, the x and xx rows from \<open>IAx\<close>, \<open>IAxx\<close> and the y and yy rows from
  \<open>IAy\<close>, \<open>IAyy\<close>. When \<open>IA\<close> is an inverse of \<open>A\<close> the propagation is exact: in x and
  in y, the matrices satisfy the identities obtained by differentiating \<open>IA \<cdot> A = I\<close>
  once and twice, \<open>IAx \<cdot> A = -IA \<cdot> Ax\<close> and \<open>IAxx \<cdot> A = -(2 IAx \<cdot> Ax + IA \<cdot> Axx)\<close>.
\<close>

theorem inverse_derivatives:
  fixes pinv :: "mat \<Rightarrow> mat"
  assumes N: "30 \<le> length distnod" and i: "i < length distnod"
    and IA: "shape 6 6
       (pinv (A_of (nsd_of distnod (knn_indices 30 distnod ! i))
                (Dn_of (knn_distances 30 distnod ! i) (a0_of (knn_distances 30 distnod) ! i))))"
  shows "let nsd = nsd_of distnod (knn_indices 30 distnod ! i);
             a0 = a0_of (knn_distances 30 distnod) ! i;
             Dn = Dn_of (knn_distances 30 distnod ! i) a0;
             A = A_of nsd Dn;
             Ax = A_of nsd (Dx_of nsd a0 Dn);
             Axx = A_of nsd (Dxx_of nsd a0 Dn);
             Ay = A_of nsd (Dy_of nsd a0 Dn);
             Ayy = A_of nsd (Dyy_of nsd a0 Dn);
             B = B_of nsd Dn;
             Bx = B_of nsd (Dx_of nsd a0 Dn);
             Bxx = B_of nsd (Dxx_of nsd a0 Dn);
             By = B_of nsd (Dy_of nsd a0 Dn);
             Byy = B_of nsd (Dyy_of nsd a0 Dn);
             IA = pinv A;
             IAx = spec_IAx IA Ax;
             IAxx = spec_IAxx IA IAx Ax Axx;
             IAy = spec_IAx IA Ay;
             IAyy = spec_IAxx IA IAy Ay Ayy;
             v = loop_locals pinv distnod (knn_distances 30 distnod) (knn_indices 30 distnod)
                   (a0_of (knn_distances 30 distnod)) i;
             s = run_loop pinv distnod (knn_distances 30 distnod) (knn_indices 30 distnod)
                   (a0_of (knn_distances 30 distnod))
         in loc_IA v = IA \<and> loc_IAx v = IAx \<and> loc_IAxx v = IAxx \<and>
            loc_IAy v = IAy \<and> loc_IAyy v = IAyy \<and>
            sfx_list s ! i = sfx_row IA IAx B Bx \<and>
            sfy_list s ! i = sfy_row IA IAy B By \<and>
            sfxx_list s ! i = sfxx_row IA IAx IAxx B Bx Bxx \<and>
            sfyy_list s ! i = sfyy_row IA IAy IAyy B By Byy \<and>
            (dot IA A = eye 6 \<longrightarrow>
               dot IAx A = mneg (dot IA Ax) \<and>
               dot IAxx A = mneg (madd (smul 2 (dot IAx Ax)) (dot IA Axx)) \<and>
               dot IAy A = mneg (dot IA Ay) \<and>
               dot IAyy A = mneg (madd (smul 2 (dot IAy Ay)) (dot IA Ayy)))"
proof -
  let ?a0 = "a0_of (knn_distances 30 distnod) ! i"
  note S = node_shapes[OF N i]
  note x1 = IAx_refines[OF IA S(2)]
  note x2 = IAxx_refines[OF IA S(2) S(3), unfolded x1]
  note y1 = IAx_refines[OF IA S(4)]
  note y2 = IAxx_refines[OF IA S(4) S(5), unfolded y1]
  note ex1 = IAx_times_A[OF IA S(2) S(1), unfolded x1]
  note ex2 = IAxx_times_A[OF IA S(2) S(3) S(1), unfolded x1 x2]
  note ey1 = IAx_times_A[OF IA S(4) S(1), unfolded y1]
  note ey2 = IAxx_times_A[OF IA S(4) S(5) S(1), unfolded y1 y2]
  show ?thesis
    unfolding Let_def locals_inverse run_loop_derivative_rows[OF i] x1 x2 y1 y2
    using ex1 ex2 ey1 ey2 by blast
qed

text \<open>
  Node 0 of the sample cloud, with the inverse of its moment matrix for \<open>pinv\<close>.
\<close>

theorem inverse_derivatives_witness:
  "30 \<le> length ring_cloud \<and> (0::nat) < length ring_cloud \<and>
   (let nsd = nsd_of ring_cloud (knn_indices 30 ring_cloud ! 0);
        a0 = a0_of (knn_distances 30 ring_cloud) ! 0;
        Dn = Dn_of (knn_distances 30 ring_cloud ! 0) a0;
        A = A_of nsd Dn;
        Ax = A_of nsd (Dx_of nsd a0 Dn);
        Axx = A_of nsd (Dxx_of nsd a0 Dn);
        Ay = A_of nsd (Dy_of nsd a0 Dn);
        Ayy = A_of nsd (Dyy_of nsd a0 Dn);
        B = B_of nsd Dn;
        Bx = B_of nsd (Dx_of nsd a0 Dn);
        Bxx = B_of nsd (Dxx_of nsd a0 Dn);
        By = B_of nsd (Dy_of nsd a0 Dn);
        Byy = B_of nsd (Dyy_of nsd a0 Dn);
        IA = ring_pinv A;
        IAx = spec_IAx IA Ax;
        IAxx = spec_IAxx IA IAx Ax Axx;
        IAy = spec_IAx IA Ay;
        IAyy = spec_IAxx IA IAy Ay Ayy;
        v = loop_locals ring_pinv ring_cloud (knn_distances 30 ring_cloud)
              (knn_indices 30 ring_cloud) (a0_of (knn_distances 30 ring_cloud)) 0;
        s = run_loop ring_pinv ring_cloud (knn_distances 30 ring_cloud)
              (knn_indices 30 ring_cloud) (a0_of (knn_distances 30 ring_cloud))
    in nsd = ring_cloud \<and> a0 = 39 / 2 \<and> IA = ring_inv \<and>
       shape 6 6 IA \<and> dot IA A = eye 6 \<and>
       loc_IA v = IA \<and> loc_IAx v = IAx \<and> loc_IAxx v = IAxx \<and>
       loc_IAy v = IAy \<and> loc_IAyy v = IAyy \<and>
       sfx_list s ! 0 = sfx_row IA IAx B Bx \<and>
       sfy_list s ! 0 = sfy_row IA IAy B By \<and>
       sfxx_list s ! 0 = sfxx_row IA IAx IAxx B Bx Bxx \<and>
       sfyy_list s ! 0 = sfyy_row IA IAy IAyy B By Byy \<and>
       dot IAx A = mneg (dot IA Ax) \<and>
       dot IAxx A = mneg (madd (smul 2 (dot IAx Ax)) (dot IA Axx)) \<and>
       dot IAy A = mneg (dot IA Ay) \<and>
       dot IAyy A = mneg (madd (smul 2 (dot IAy Ay)) (dot IA Ayy)))"
proof -
  have h1: "30 \<le> length ring_cloud" and h2: "(0::nat) < length ring_cloud"
    by (simp_all add: ring_cloud_length)
  note t = inverse_derivatives[of ring_cloud 0 ring_pinv, OF h1 h2 ring_pinv_shape,
      unfolded Let_def]
  have p: "ring_pinv (A_of (nsd_of ring_cloud (knn_indices 30 ring_cloud ! 0))
          (Dn_of (knn_distances 30 ring_cloud ! 0) (a0_of (knn_distances 30 ring_cloud) ! 0)))
       = ring_inv" by (simp add: ring_pinv_def)
  show ?thesis
    unfolding Let_def
    using t h1 h2 ring_nsd ring_a0 p ring_pinv_shape ring_pinv_inverse by blast
qed

subsection \<open>C3\<close>

text \<open>
  Claim C3 (second-derivative rows), as amended. For node \<open>i\<close> of a cloud of at least 30
  nodes, with \<open>IA = pinv A\<close> a 6x6 matrix: the row that the loop appends to \<open>sfxx_list\<close>
  is the literal expansion of the claim in the node's \<open>IA\<close>, \<open>IAx\<close>, \<open>IAxx\<close>, \<open>B\<close>, \<open>Bx\<close>,
  \<open>Bxx\<close>, with \<open>w\<^sup>T \<cdot> IAx\<close> twice in the coefficient of \<open>Bx\<^sup>T\<close>, and the row appended to
  \<open>sfyy_list\<close> is the same expansion in \<open>IA\<close>, \<open>IAy\<close>, \<open>IAyy\<close>, \<open>B\<close>, \<open>By\<close>, \<open>Byy\<close>. The
  claim adds that this is not the textbook product-rule expansion; but
  \<open>w\<^sup>T IAx + 2 pdx\<^sup>T IA + w\<^sup>T IAx = 2 (pdx\<^sup>T IA + w\<^sup>T IAx)\<close>, and the literal formula is the
  product rule applied twice to \<open>p\<^sup>T \<cdot> IA \<cdot> B\<^sup>T\<close>. What holds: each of the two rows equals
  the literal expansion and equals the textbook expansion.
\<close>

theorem second_derivative_rows:
  fixes pinv :: "mat \<Rightarrow> mat"
  assumes N: "30 \<le> length distnod" and i: "i < length distnod"
    and IA: "shape 6 6
       (pinv (A_of (nsd_of distnod (knn_indices 30 distnod ! i))
                (Dn_of (knn_distances 30 distnod ! i) (a0_of (knn_distances 30 distnod) ! i))))"
  shows "let nsd = nsd_of distnod (knn_indices 30 distnod ! i);
             a0 = a0_of (knn_distances 30 distnod) ! i;
             Dn = Dn_of (knn_distances 30 distnod ! i) a0;
             Ax = A_of nsd (Dx_of nsd a0 Dn);
             Axx = A_of nsd (Dxx_of nsd a0 Dn);
             Ay = A_of nsd (Dy_of nsd a0 Dn);
             Ayy = A_of nsd (Dyy_of nsd a0 Dn);
             B = B_of nsd Dn;
             Bx = B_of nsd (Dx_of nsd a0 Dn);
             Bxx = B_of nsd (Dxx_of nsd a0 Dn);
             By = B_of nsd (Dy_of nsd a0 Dn);
             Byy = B_of nsd (Dyy_of nsd a0 Dn);
             IA = pinv (A_of nsd Dn);
             IAx = IAx_of IA Ax;
             IAxx = IAxx_of IA Ax Axx;
             IAy = IAx_of IA Ay;
             IAyy = IAxx_of IA Ay Ayy;
             s = run_loop pinv distnod (knn_distances 30 distnod) (knn_indices 30 distnod)
                   (a0_of (knn_distances 30 distnod))
         in sfxx_list s ! i = literal_row (ravel pdx) (ravel pdxx) IA IAx IAxx B Bx Bxx \<and>
            sfyy_list s ! i = literal_row (ravel pdy) (ravel pdyy) IA IAy IAyy B By Byy \<and>
            sfxx_list s ! i = textbook_row (ravel pdx) (ravel pdxx) IA IAx IAxx B Bx Bxx \<and>
            sfyy_list s ! i = textbook_row (ravel pdy) (ravel pdyy) IA IAy IAyy B By Byy"
proof -
  note S = node_shapes[OF N i]
  have k: "(0::nat) < 30" by simp
  note xx = sfxx_literal[OF IA IAx_shape[OF IA S(2)] IAxx_shape[OF IA S(2) S(3)] S(6) S(7) S(8) k]
  note yy = sfyy_literal[OF IA IAx_shape[OF IA S(4)] IAxx_shape[OF IA S(4) S(5)] S(6) S(9) S(10) k]
  show ?thesis
    unfolding Let_def run_loop_derivative_rows[OF i]
    using xx yy by (simp only: literal_is_textbook simp_thms)
qed

text \<open>
  Node 0 of the sample cloud, with the inverse of its moment matrix for \<open>pinv\<close>.
\<close>

theorem second_derivative_rows_witness:
  "30 \<le> length ring_cloud \<and> (0::nat) < length ring_cloud \<and>
   (let nsd = nsd_of ring_cloud (knn_indices 30 ring_cloud ! 0);
        a0 = a0_of (knn_distances 30 ring_cloud) ! 0;
        Dn = Dn_of (knn_distances 30 ring_cloud ! 0) a0;
        Ax = A_of nsd (Dx_of nsd a0 Dn);
        Axx = A_of nsd (Dxx_of nsd a0 Dn);
        Ay = A_of nsd (Dy_of nsd a0 Dn);
        Ayy = A_of nsd (Dyy_of nsd a0 Dn);
        B = B_of nsd Dn;
        Bx = B_of nsd (Dx_of nsd a0 Dn);
        Bxx = B_of nsd (Dxx_of nsd a0 Dn);
        By = B_of nsd (Dy_of nsd a0 Dn);
        Byy = B_of nsd (Dyy_of nsd a0 Dn);
        IA = ring_pinv (A_of nsd Dn);
        IAx = IAx_of IA Ax;
        IAxx = IAxx_of IA Ax Axx;
        IAy = IAx_of IA Ay;
        IAyy = IAxx_of IA Ay Ayy;
        s = run_loop ring_pinv ring_cloud (knn_distances 30 ring_cloud)
              (knn_indices 30 ring_cloud) (a0_of (knn_distances 30 ring_cloud))
    in nsd = ring_cloud \<and> a0 = 39 / 2 \<and> IA = ring_inv \<and> shape 6 6 IA \<and>
       sfxx_list s ! 0 = literal_row (ravel pdx) (ravel pdxx) IA IAx IAxx B Bx Bxx \<and>
       sfyy_list s ! 0 = literal_row (ravel pdy) (ravel pdyy) IA IAy IAyy B By Byy \<and>
       sfxx_list s ! 0 = textbook_row (ravel pdx) (ravel pdxx) IA IAx IAxx B Bx Bxx \<and>
       sfyy_list s ! 0 = textbook_row (ravel pdy) (ravel pdyy) IA IAy IAyy B By Byy)"
proof -
  have h1: "30 \<le> length ring_cloud" and h2: "(0::nat) < length ring_cloud"
    by (simp_all add: ring_cloud_length)
  note t = second_derivative_rows[of ring_cloud 0 ring_pinv, OF h1 h2 ring_pinv_shape,
      unfolded Let_def]
  have p: "ring_pinv (A_of (nsd_of ring_cloud (knn_indices 30 ring_cloud ! 0))
          (Dn_of (knn_distances 30 ring_cloud ! 0) (a0_of (knn_distances 30 ring_cloud) ! 0)))
       = ring_inv" by (simp add: ring_pinv_def)
  show ?thesis
    unfolding Let_def
    using t h1 h2 ring_nsd ring_a0 p ring_pinv_shape by blast
qed

text \<open>
  The claim as stated fails at node 0 of the sample cloud: there the xx row that the loop
  appends is the textbook expansion.
\<close>

theorem textbook_expansion_counterexample:
  "sfxx_list (run_loop ring_pinv ring_cloud (knn_distances 30 ring_cloud)
       (knn_indices 30 ring_cloud) (a0_of (knn_distances 30 ring_cloud))) ! 0
     = textbook_row (ravel pdx) (ravel pdxx) ring_inv ring_IAx ring_IAxx
         (B_of ring_cloud ring_Dn) (B_of ring_cloud ring_Dx) (B_of ring_cloud ring_Dxx)"
proof -
  have h2: "(0::nat) < length ring_cloud" by (simp add: ring_cloud_length)
  have k: "(0::nat) < 30" by simp
  have "sfxx_list (run_loop ring_pinv ring_cloud (knn_distances 30 ring_cloud)
       (knn_indices 30 ring_cloud) (a0_of (knn_distances 30 ring_cloud))) ! 0
     = sfxx_row ring_inv ring_IAx ring_IAxx
         (B_of ring_cloud ring_Dn) (B_of ring_cloud ring_Dx) (B_of ring_cloud ring_Dxx)"
    unfolding run_loop_derivative_rows(3)[OF h2] ring_nsd ring_distances ring_a0 ring_pinv_def
      ring_IAx_def ring_IAxx_def ring_Dx_def ring_Dxx_def ring_Dn_def ..
  also have "\<dots> = literal_row (ravel pdx) (ravel pdxx) ring_inv ring_IAx ring_IAxx
         (B_of ring_cloud ring_Dn) (B_of ring_cloud ring_Dx) (B_of ring_cloud ring_Dxx)"
    by (rule sfxx_literal[OF ring_shapes(1) ring_IAx_shape ring_IAxx_shape
        ring_shapes(5) ring_shapes(6) ring_shapes(7) k])
  finally show ?thesis by (simp only: literal_is_textbook)
qed

subsection \<open>C4\<close>

text \<open>
  Claim C4 (weight kernel). For node \<open>i\<close> of a cloud of at least 30 nodes with positive
  support radius \<open>a0\<close>, and its \<open>j\<close>-th neighbour \<open>q\<close> at Euclidean distance \<open>d\<close>:
  \<open>Dn = exp (-(d/a0)\<^sup>2)\<close>, \<open>Dx = (-2/a0\<^sup>2) (x\<^sub>0 - x) Dn\<close>, \<open>Dy\<close> likewise in \<open>y\<close>,
  \<open>Dxx = (-2/a0\<^sup>4) (a0\<^sup>2 - 2 (x\<^sub>0 - x)\<^sup>2) Dn\<close>, \<open>Dyy\<close> likewise in \<open>y\<close>, where
  \<open>(x\<^sub>0, y\<^sub>0)\<close> are the coordinates of node \<open>i\<close>. At distance 0 this gives
  \<open>Dn = 1\<close>, \<open>Dx = Dy = 0\<close> and \<open>Dxx = Dyy = -2/a0\<^sup>2\<close>.
\<close>

theorem weight_kernel:
  assumes N: "30 \<le> length distnod" and i: "i < length distnod" and j: "j < 30"
    and a0: "0 < a0_of (knn_distances 30 distnod) ! i"
  shows "let nsd = nsd_of distnod (knn_indices 30 distnod ! i);
             a0 = a0_of (knn_distances 30 distnod) ! i;
             Dn = Dn_of (knn_distances 30 distnod ! i) a0;
             q = distnod ! (knn_indices 30 distnod ! i ! j);
             d = euclid (distnod ! i) q;
             x0 = fst (distnod ! i);
             y0 = snd (distnod ! i)
         in Dn ! j = exp (- ((d / a0) ^ 2)) \<and>
            Dx_of nsd a0 Dn ! j = (- 2 / a0 ^ 2) * (x0 - fst q) * Dn ! j \<and>
            Dy_of nsd a0 Dn ! j = (- 2 / a0 ^ 2) * (y0 - snd q) * Dn ! j \<and>
            Dxx_of nsd a0 Dn ! j = (- 2 / a0 ^ 4) * (a0 ^ 2 - 2 * (x0 - fst q) ^ 2) * Dn ! j \<and>
            Dyy_of nsd a0 Dn ! j = (- 2 / a0 ^ 4) * (a0 ^ 2 - 2 * (y0 - snd q) ^ 2) * Dn ! j \<and>
            (d = 0 \<longrightarrow>
               Dn ! j = 1 \<and> Dx_of nsd a0 Dn ! j = 0 \<and> Dy_of nsd a0 Dn ! j = 0 \<and>
               Dxx_of nsd a0 Dn ! j = - 2 / a0 ^ 2 \<and> Dyy_of nsd a0 Dn ! j = - 2 / a0 ^ 2)"
proof -
  let ?nsd = "nsd_of distnod (knn_indices 30 distnod ! i)"
  let ?a0 = "a0_of (knn_distances 30 distnod) ! i"
  let ?ds = "knn_distances 30 distnod ! i"
  let ?Dn = "Dn_of ?ds ?a0"
  let ?q = "distnod ! (knn_indices 30 distnod ! i ! j)"
  let ?d = "euclid (distnod ! i) ?q"
  have l: "length ?nsd = 30" using N i by (simp add: nsd_length)
  have lds: "length ?ds = 30" using N i by (simp add: knn_distances_row_length)
  have lD: "length ?Dn = 30" using lds by (simp add: Dn_length)
  have o: "?nsd ! 0 = distnod ! i" using N i by (simp add: nsd_origin)
  have q: "?nsd ! j = ?q" using N i j by (simp add: nsd_nth)
  have d: "?ds ! j = ?d" using N i j by (simp add: knn_distances_nth)
  have 1: "?Dn ! j = exp (- ((?d / ?a0) ^ 2))" using Dn_nth[of j ?ds ?a0] j lds d by simp
  have 2: "Dx_of ?nsd ?a0 ?Dn ! j = (- 2 / ?a0 ^ 2) * (fst (distnod ! i) - fst ?q) * ?Dn ! j"
    using Dx_nth[of j ?nsd ?Dn ?a0] j l lD o q by simp
  have 3: "Dy_of ?nsd ?a0 ?Dn ! j = (- 2 / ?a0 ^ 2) * (snd (distnod ! i) - snd ?q) * ?Dn ! j"
    using Dy_nth[of j ?nsd ?Dn ?a0] j l lD o q by simp
  have 4: "Dxx_of ?nsd ?a0 ?Dn ! j =
      (- 2 / ?a0 ^ 4) * (?a0 ^ 2 - 2 * (fst (distnod ! i) - fst ?q) ^ 2) * ?Dn ! j"
    using Dxx_nth[of j ?nsd ?Dn ?a0] j l lD o q by simp
  have 5: "Dyy_of ?nsd ?a0 ?Dn ! j =
      (- 2 / ?a0 ^ 4) * (?a0 ^ 2 - 2 * (snd (distnod ! i) - snd ?q) ^ 2) * ?Dn ! j"
    using Dyy_nth[of j ?nsd ?Dn ?a0] j l lD o q by simp
  have 6: "?Dn ! j = 1 \<and> Dx_of ?nsd ?a0 ?Dn ! j = 0 \<and> Dy_of ?nsd ?a0 ?Dn ! j = 0 \<and>
           Dxx_of ?nsd ?a0 ?Dn ! j = - 2 / ?a0 ^ 2 \<and> Dyy_of ?nsd ?a0 ?Dn ! j = - 2 / ?a0 ^ 2"
    if z: "?d = 0"
  proof -
    have e: "?q = distnod ! i" using z by (simp add: euclid_zero_iff)
    have n: "?Dn ! j = 1" using 1 z by simp
    have ne: "?a0 \<noteq> 0" using a0 by simp
    show ?thesis
      unfolding 2 3 4 5 n e using second_at_zero[OF ne] by simp
  qed
  show ?thesis unfolding Let_def using 1 2 3 4 5 6 by blast
qed

text \<open>
  Node 0 of the sample cloud and its neighbour 1.
\<close>

theorem weight_kernel_witness:
  "30 \<le> length ring_cloud \<and> (0::nat) < length ring_cloud \<and> (1::nat) < 30 \<and> (0::nat) < 30 \<and>
   0 < a0_of (knn_distances 30 ring_cloud) ! 0 \<and>
   euclid (ring_cloud ! 0) (ring_cloud ! (knn_indices 30 ring_cloud ! 0 ! 0)) = 0 \<and>
   euclid (ring_cloud ! 0) (ring_cloud ! (knn_indices 30 ring_cloud ! 0 ! 1)) = 65 \<and>
   (let nsd = nsd_of ring_cloud (knn_indices 30 ring_cloud ! 0);
        a0 = a0_of (knn_distances 30 ring_cloud) ! 0;
        Dn = Dn_of (knn_distances 30 ring_cloud ! 0) a0
    in Dn ! 1 = exp (- (100 / 9)) \<and>
       Dx_of nsd a0 Dn ! 1 = 40 / 117 * exp (- (100 / 9)) \<and>
       Dy_of nsd a0 Dn ! 1 = 0 \<and>
       Dxx_of nsd a0 Dn ! 1 = 1528 / 13689 * exp (- (100 / 9)) \<and>
       Dyy_of nsd a0 Dn ! 1 = - (8 / 1521 * exp (- (100 / 9))) \<and>
       Dn ! 0 = 1 \<and> Dx_of nsd a0 Dn ! 0 = 0 \<and> Dy_of nsd a0 Dn ! 0 = 0 \<and>
       Dxx_of nsd a0 Dn ! 0 = - 8 / 1521 \<and> Dyy_of nsd a0 Dn ! 0 = - 8 / 1521)"
proof -
  have h1: "30 \<le> length ring_cloud" and h2: "(0::nat) < length ring_cloud"
    by (simp_all add: ring_cloud_length)
  have h3: "(1::nat) < 30" and h4: "(0::nat) < 30" by simp_all
  have q0: "ring_cloud ! (knn_indices 30 ring_cloud ! 0 ! 0) = (0, 0)"
    by (simp add: ring_indices) (simp add: ring_cloud_def)
  have q1: "ring_cloud ! (knn_indices 30 ring_cloud ! 0 ! 1) = (65, 0)"
    by (simp add: ring_indices) (simp add: ring_cloud_def)
  have d0: "euclid (0, 0) (0, 0) = 0" by (simp add: euclid_def)
  have d1: "euclid (0, 0) (65, 0) = 65" by (simp add: euclid_def)
  have p: "(39 / 2 :: real) ^ 4 = 2313441 / 16" "(39 / 2 :: real) ^ 2 = 1521 / 4"
    "(65 / (39 / 2) :: real) ^ 2 = 100 / 9" "(65 :: real) ^ 2 = 4225"
    by (simp_all add: power4_eq_xxxx power2_eq_square)
  note a = weight_kernel[OF h1 h2 h4 ring_a0_pos, unfolded Let_def q0 ring_origin ring_a0 d0]
  note b = weight_kernel[OF h1 h2 h3 ring_a0_pos, unfolded Let_def q1 ring_origin ring_a0 d1]
  show ?thesis
    unfolding Let_def q0 q1 ring_origin ring_a0 d0 d1
    using a b h1 h2 ring_a0_pos by (simp add: p power2_eq_square)
qed

subsection \<open>C5\<close>

text \<open>
  Claim C5 (self point), as amended. The spec's edge case says that at distance 0 all of
  \<open>Dx\<close>, \<open>Dy\<close>, \<open>Dxx\<close>, \<open>Dyy\<close> vanish. The code computes the second derivatives of the
  Gaussian, which do not vanish at its centre. What holds: for node \<open>i\<close> with positive
  support radius \<open>a0\<close>, the first neighbour lies at distance 0 and there \<open>Dn = 1\<close>,
  \<open>Dx = Dy = 0\<close>, and \<open>Dxx = Dyy = -2/a0\<^sup>2\<close>, which is negative.
\<close>

theorem self_point_kernel:
  assumes N: "30 \<le> length distnod" and i: "i < length distnod"
    and a0: "0 < a0_of (knn_distances 30 distnod) ! i"
  shows "let nsd = nsd_of distnod (knn_indices 30 distnod ! i);
             a0 = a0_of (knn_distances 30 distnod) ! i;
             Dn = Dn_of (knn_distances 30 distnod ! i) a0
         in knn_distances 30 distnod ! i ! 0 = 0 \<and>
            Dn ! 0 = 1 \<and> Dx_of nsd a0 Dn ! 0 = 0 \<and> Dy_of nsd a0 Dn ! 0 = 0 \<and>
            Dxx_of nsd a0 Dn ! 0 = - 2 / a0 ^ 2 \<and> Dyy_of nsd a0 Dn ! 0 = - 2 / a0 ^ 2 \<and>
            Dxx_of nsd a0 Dn ! 0 < 0 \<and> Dyy_of nsd a0 Dn ! 0 < 0"
proof -
  let ?nsd = "nsd_of distnod (knn_indices 30 distnod ! i)"
  let ?a0 = "a0_of (knn_distances 30 distnod) ! i"
  let ?ds = "knn_distances 30 distnod ! i"
  let ?Dn = "Dn_of ?ds ?a0"
  have l: "length ?nsd = 30" using N i by (simp add: nsd_length)
  have lds: "length ?ds = 30" using N i by (simp add: knn_distances_row_length)
  have lD: "length ?Dn = 30" using lds by (simp add: Dn_length)
  have o: "distnod ! (knn_indices 30 distnod ! i ! 0) = distnod ! i"
    using N i nsd_origin[of 30 distnod i] nsd_nth[of 30 distnod i 0] by simp
  have d: "?ds ! 0 = 0" using N i knn_distances_nth[of i distnod 30 0] o by (simp add: euclid_self)
  have n: "?Dn ! 0 = 1" using Dn_nth[of 0 ?ds ?a0] lds d by simp
  have ne: "?a0 \<noteq> 0" using a0 by simp
  have x: "Dx_of ?nsd ?a0 ?Dn ! 0 = 0" using Dx_nth[of 0 ?nsd ?Dn ?a0] l lD by simp
  have y: "Dy_of ?nsd ?a0 ?Dn ! 0 = 0" using Dy_nth[of 0 ?nsd ?Dn ?a0] l lD by simp
  have xx: "Dxx_of ?nsd ?a0 ?Dn ! 0 = - 2 / ?a0 ^ 2"
    using Dxx_nth[of 0 ?nsd ?Dn ?a0] l lD n second_at_zero[OF ne] by simp
  have yy: "Dyy_of ?nsd ?a0 ?Dn ! 0 = - 2 / ?a0 ^ 2"
    using Dyy_nth[of 0 ?nsd ?Dn ?a0] l lD n second_at_zero[OF ne] by simp
  have neg: "- 2 / ?a0 ^ 2 < 0" using a0 by simp
  show ?thesis unfolding Let_def using d n x y xx yy neg by simp
qed

text \<open>
  Node 0 of the sample cloud.
\<close>

theorem self_point_kernel_witness:
  "30 \<le> length ring_cloud \<and> (0::nat) < length ring_cloud \<and>
   0 < a0_of (knn_distances 30 ring_cloud) ! 0 \<and>
   (let nsd = nsd_of ring_cloud (knn_indices 30 ring_cloud ! 0);
        a0 = a0_of (knn_distances 30 ring_cloud) ! 0;
        Dn = Dn_of (knn_distances 30 ring_cloud ! 0) a0
    in knn_distances 30 ring_cloud ! 0 ! 0 = 0 \<and>
       Dn ! 0 = 1 \<and> Dx_of nsd a0 Dn ! 0 = 0 \<and> Dy_of nsd a0 Dn ! 0 = 0 \<and>
       Dxx_of nsd a0 Dn ! 0 = - 2 / a0 ^ 2 \<and> Dyy_of nsd a0 Dn ! 0 = - 2 / a0 ^ 2 \<and>
       Dxx_of nsd a0 Dn ! 0 < 0 \<and> Dyy_of nsd a0 Dn ! 0 < 0)"
proof -
  have h1: "30 \<le> length ring_cloud" and h2: "(0::nat) < length ring_cloud"
    by (simp_all add: ring_cloud_length)
  show ?thesis
    using self_point_kernel[OF h1 h2 ring_a0_pos] h1 h2 ring_a0_pos by blast
qed

text \<open>
  The claim as stated fails at node 0 of the sample cloud: its first neighbour lies at
  distance 0, and there \<open>Dxx = Dyy = -8/1521\<close>, not 0.
\<close>

theorem zero_distance_second_derivative_counterexample:
  "knn_distances 30 ring_cloud ! 0 ! 0 = 0 \<and>
   Dxx_of (nsd_of ring_cloud (knn_indices 30 ring_cloud ! 0))
     (a0_of (knn_distances 30 ring_cloud) ! 0)
     (Dn_of (knn_distances 30 ring_cloud ! 0) (a0_of (knn_distances 30 ring_cloud) ! 0)) ! 0
     = - 8 / 1521 \<and>
   Dyy_of (nsd_of ring_cloud (knn_indices 30 ring_cloud ! 0))
     (a0_of (knn_distances 30 ring_cloud) ! 0)
     (Dn_of (knn_distances 30 ring_cloud ! 0) (a0_of (knn_distances 30 ring_cloud) ! 0)) ! 0
     = - 8 / 1521 \<and>
   Dxx_of (nsd_of ring_cloud (knn_indices 30 ring_cloud ! 0))
     (a0_of (knn_distances 30 ring_cloud) ! 0)
     (Dn_of (knn_distances 30 ring_cloud ! 0) (a0_of (knn_distances 30 ring_cloud) ! 0)) ! 0
     \<noteq> 0"
proof -
  have l: "0 < length ring_cloud" "0 < length (Dn_of ring_ds (39 / 2))"
    by (simp_all add: ring_cloud_length Dn_length ring_ds_length)
  have n: "Dn_of ring_ds (39 / 2) ! 0 = 1" by (simp add: ring_Dn)
  have d: "ring_ds ! 0 = 0" by (simp add: ring_ds_def)
  have xx: "Dxx_of ring_cloud (39 / 2) (Dn_of ring_ds (39 / 2)) ! 0 = - 8 / 1521"
    unfolding Dxx_nth[OF l] n by (simp add: power4_eq_xxxx power2_eq_square)
  have yy: "Dyy_of ring_cloud (39 / 2) (Dn_of ring_ds (39 / 2)) ! 0 = - 8 / 1521"
    unfolding Dyy_nth[OF l] n by (simp add: power4_eq_xxxx power2_eq_square)
  show ?thesis unfolding ring_nsd ring_distances ring_a0 using d xx yy by simp
qed

subsection \<open>C6\<close>

text \<open>
  Claim C6 (basis vector). For node \<open>i\<close> of a cloud of at least 30 nodes, the local origin
  \<^verbatim>\<open>nsd[0]\<close> used by the basis and by the weight derivatives has the coordinates of node
  \<open>i\<close> itself, and the column of \<open>p_\<close> for the \<open>j\<close>-th neighbour \<open>q\<close> is
  \<open>[1, \<Delta>x, \<Delta>y, \<Delta>x\<^sup>2, \<Delta>x \<Delta>y, \<Delta>y\<^sup>2]\<close> with \<open>\<Delta>x = q.x - x\<^sub>i\<close> and \<open>\<Delta>y = q.y - y\<^sub>i\<close>.
\<close>

theorem basis_vector:
  assumes "30 \<le> length distnod" "i < length distnod" "j < 30"
  shows "nsd_of distnod (knn_indices 30 distnod ! i) ! 0 = distnod ! i \<and>
         col (p_mat (nsd_of distnod (knn_indices 30 distnod ! i))) j =
           (let q = distnod ! (knn_indices 30 distnod ! i ! j);
                dx = fst q - fst (distnod ! i);
                dy = snd q - snd (distnod ! i)
            in [1, dx, dy, dx ^ 2, dx * dy, dy ^ 2])"
proof -
  let ?nsd = "nsd_of distnod (knn_indices 30 distnod ! i)"
  have o: "?nsd ! 0 = distnod ! i" using assms by (simp add: nsd_origin)
  have l: "length ?nsd = 30" using assms by (simp add: nsd_length)
  have q: "?nsd ! j = distnod ! (knn_indices 30 distnod ! i ! j)" using assms by (simp add: nsd_nth)
  show ?thesis using o l q assms(3) by (simp add: col_def p_mat_def Let_def)
qed

text \<open>
  Node 0 of the sample cloud and its neighbour 1, the node \<open>(65, 0)\<close>.
\<close>

theorem basis_vector_witness:
  "30 \<le> length ring_cloud \<and> (0::nat) < length ring_cloud \<and> (1::nat) < 30 \<and>
   nsd_of ring_cloud (knn_indices 30 ring_cloud ! 0) ! 0 = ring_cloud ! 0 \<and>
   col (p_mat (nsd_of ring_cloud (knn_indices 30 ring_cloud ! 0))) 1 =
     [1, 65, 0, 4225, 0, 0]"
proof -
  have h1: "30 \<le> length ring_cloud" and h2: "(0::nat) < length ring_cloud"
    by (simp_all add: ring_cloud_length)
  have h3: "(1::nat) < 30" by simp
  have q: "ring_cloud ! (knn_indices 30 ring_cloud ! 0 ! 1) = (65, 0)"
    by (simp add: ring_indices) (simp add: ring_cloud_def)
  have q': "ring_cloud ! (knn_indices 30 ring_cloud ! 0 ! Suc 0) = (65, 0)"
    using q by simp
  show ?thesis
    using basis_vector[OF h1 h2 h3] h1 h2 h3 by (simp add: q' ring_origin Let_def)
qed

subsection \<open>C7\<close>

text \<open>
  Claim C7 (support radius). For node \<open>i\<close> of a cloud of at least 30 nodes,
  \<open>a0(i) = 0.3 \<cdot> d\<^sub>k(i)\<close>, where \<open>d\<^sub>k(i)\<close> is the Euclidean distance from node \<open>i\<close> to its
  30th nearest neighbour, that is the 30th smallest of the distances from node \<open>i\<close> to
  the nodes of the cloud; and \<open>a0(i) > 0\<close> whenever \<open>d\<^sub>k(i) > 0\<close>.
\<close>

theorem support_radius:
  assumes "30 \<le> length distnod" "i < length distnod"
  shows "a0_of (knn_distances 30 distnod) ! i =
           0.3 * euclid (distnod ! i) (distnod ! (knn_indices 30 distnod ! i ! 29)) \<and>
         euclid (distnod ! i) (distnod ! (knn_indices 30 distnod ! i ! 29)) =
           sort (map (euclid (distnod ! i)) distnod) ! 29 \<and>
         (0 < sort (map (euclid (distnod ! i)) distnod) ! 29 \<longrightarrow>
            0 < a0_of (knn_distances 30 distnod) ! i)"
proof -
  have l: "length (knn_distances 30 distnod) = length distnod" by (simp add: knn_distances_def)
  have a: "a0_of (knn_distances 30 distnod) ! i = 0.3 * knn_distances 30 distnod ! i ! 29"
    using assms(2) l by (simp add: a0_of_def)
  have b: "knn_distances 30 distnod ! i ! 29 =
           euclid (distnod ! i) (distnod ! (knn_indices 30 distnod ! i ! 29))"
    using assms by (simp add: knn_distances_nth)
  have c: "knn_distances 30 distnod ! i ! 29 = sort (map (euclid (distnod ! i)) distnod) ! 29"
    using assms by (simp add: knn_distances_row)
  show ?thesis using a b c by simp
qed

text \<open>
  Node 0 of the sample cloud: \<open>d\<^sub>k = 65\<close> and \<open>a0 = 39/2\<close>.
\<close>

theorem support_radius_witness:
  "30 \<le> length ring_cloud \<and> (0::nat) < length ring_cloud \<and>
   a0_of (knn_distances 30 ring_cloud) ! 0 = 39 / 2 \<and>
   euclid (ring_cloud ! 0) (ring_cloud ! (knn_indices 30 ring_cloud ! 0 ! 29)) = 65 \<and>
   sort (map (euclid (ring_cloud ! 0)) ring_cloud) ! 29 = 65 \<and>
   0 < sort (map (euclid (ring_cloud ! 0)) ring_cloud) ! 29 \<and>
   0 < a0_of (knn_distances 30 ring_cloud) ! 0"
proof -
  have h1: "30 \<le> length ring_cloud" and h2: "(0::nat) < length ring_cloud"
    by (simp_all add: ring_cloud_length)
  have s: "sort (map (euclid (ring_cloud ! 0)) ring_cloud) ! 29 = 65"
    using sorted_sort_id[OF ring_ds_sorted] by (simp add: ring_origin ring_keys) (simp add: ring_ds_def)
  show ?thesis
    using support_radius[OF h1 h2] h1 h2 s by (simp add: ring_a0)
qed

subsection \<open>C8\<close>

text \<open>
  Claim C8 (too few points). With fewer than 30 nodes the neighbour query fails with
  \<open>InsufficientPoints\<close> and so does the whole computation, whatever \<open>pinv\<close> is: the
  failure is returned before the loop over the nodes is entered. With at least 30 nodes
  the computation returns the five operators and this error does not occur.
\<close>

theorem insufficient_points:
  "(length distnod < 30 \<longrightarrow>
      kneighbors 30 distnod = Inl InsufficientPoints \<and>
      mls pinv distnod = Inl InsufficientPoints) \<and>
   (30 \<le> length distnod \<longrightarrow>
      (\<exists>ops. mls pinv distnod = Inr ops) \<and> mls pinv distnod \<noteq> Inl InsufficientPoints)"
proof (intro conjI impI)
  assume "length distnod < 30"
  then show "kneighbors 30 distnod = Inl InsufficientPoints"
    by (simp add: kneighbors_def)
next
  assume "length distnod < 30"
  then show "mls pinv distnod = Inl InsufficientPoints" by (rule mls_failure)
next
  assume "30 \<le> length distnod"
  then show "\<exists>ops. mls pinv distnod = Inr ops" using mls_success by blast
next
  assume "30 \<le> length distnod"
  then show "mls pinv distnod \<noteq> Inl InsufficientPoints" using mls_success[of distnod pinv] by simp
qed

text \<open>
  The first 29 nodes of the sample cloud, and the whole sample cloud.
\<close>

theorem insufficient_points_witness:
  "length (take 29 ring_cloud) < 30 \<and>
   kneighbors 30 (take 29 ring_cloud) = Inl InsufficientPoints \<and>
   mls (\<lambda>A. ring_IA (exp (100 / 9))) (take 29 ring_cloud) = Inl InsufficientPoints \<and>
   30 \<le> length ring_cloud \<and>
   (\<exists>ops. mls (\<lambda>A. ring_IA (exp (100 / 9))) ring_cloud = Inr ops) \<and>
   mls (\<lambda>A. ring_IA (exp (100 / 9))) ring_cloud \<noteq> Inl InsufficientPoints"
proof -
  have h1: "length (take 29 ring_cloud) < 30" by (simp add: ring_cloud_length)
  have h2: "30 \<le> length ring_cloud" by (simp add: ring_cloud_length)
  show ?thesis
    using insufficient_points[of "take 29 ring_cloud" "\<lambda>A. ring_IA (exp (100 / 9))"]
      insufficient_points[of ring_cloud "\<lambda>A. ring_IA (exp (100 / 9))"] h1 h2
    by blast
qed

subsection \<open>C9\<close>

text \<open>
  Claim C9 (row sparsity). For a cloud of at least 30 nodes the computation returns five
  operators, and in each of them row \<open>i\<close> stores exactly 30 entries, at pairwise distinct
  columns that are exactly the neighbour indices of node \<open>i\<close>; the value stored at the
  column of the \<open>j\<close>-th neighbour is the \<open>j\<close>-th entry of the row computed for node \<open>i\<close>.
  The neighbour indices of one node are pairwise distinct, so no two triplets of the
  computation collide. For the sparse constructor in general: the value stored at a
  position is the sum of the values of all triplets with that position, and a row stores
  at most as many entries as it has triplets.
\<close>

theorem row_sparsity:
  fixes pinv :: "mat \<Rightarrow> mat"
  assumes N: "30 \<le> length distnod" and i: "i < length distnod"
  shows "(\<exists>ops. mls pinv distnod = Inr ops \<and>
            list_all (\<lambda>S. set (row_cols S i) = set (knn_indices 30 distnod ! i) \<and>
                          length (row_cols S i) = 30 \<and> distinct (row_cols S i))
              [sf ops, sfx ops, sfxx ops, sfy ops, sfyy ops] \<and>
            (\<forall>j<30.
               let s = run_loop pinv distnod (knn_distances 30 distnod)
                         (knn_indices 30 distnod) (a0_of (knn_distances 30 distnod));
                   c = knn_indices 30 distnod ! i ! j
               in entry (sf ops) i c = Some (sf_list s ! i ! j) \<and>
                  entry (sfx ops) i c = Some (sfx_list s ! i ! j) \<and>
                  entry (sfxx ops) i c = Some (sfxx_list s ! i ! j) \<and>
                  entry (sfy ops) i c = Some (sfy_list s ! i ! j) \<and>
                  entry (sfyy ops) i c = Some (sfyy_list s ! i ! j))) \<and>
         entry (csc_matrix data rows cols m n) r c' =
           (if (r, c') \<in> set (map fst (zip (zip rows cols) data))
            then Some (sum_list (map snd (filter (\<lambda>t. fst t = (r, c')) (zip (zip rows cols) data))))
            else None) \<and>
         length (row_cols (csc_matrix data rows cols m n) r) \<le>
           length (filter (\<lambda>t. fst (fst t) = r) (zip (zip rows cols) data))"
proof -
  let ?s = "run_loop pinv distnod (knn_distances 30 distnod) (knn_indices 30 distnod)
              (a0_of (knn_distances 30 distnod))"
  let ?il = "concat (map (\<lambda>i. replicate 30 i) [0..<length distnod])"
  let ?sdi = "concat (knn_indices 30 distnod)"
  let ?n = "length distnod"
  let ?idx = "knn_indices 30 distnod ! i"
  have il: "concat (i_list ?s) = ?il" by (simp only: run_loop_i_list[OF N])
  have k: "length ?idx = 30" using N i by (simp add: knn_indices_row neighbors_length)
  have d: "distinct ?idx" using i by (simp add: knn_indices_row neighbors_distinct)
  have op: "set (row_cols (csc_matrix (concat rws) ?il ?sdi ?n ?n) i) = set ?idx \<and>
            length (row_cols (csc_matrix (concat rws) ?il ?sdi ?n ?n) i) = 30 \<and>
            distinct (row_cols (csc_matrix (concat rws) ?il ?sdi ?n ?n) i)"
    if "length rws = length distnod" "\<And>i. i < length distnod \<Longrightarrow> length (rws ! i) = 30" for rws
    using assembled_row(1)[OF N i that, of "length distnod" "length distnod"] k d by simp
  have en: "entry (csc_matrix (concat rws) ?il ?sdi ?n ?n) i (?idx ! j) = Some (rws ! i ! j)"
    if "length rws = length distnod" "\<And>i. i < length distnod \<Longrightarrow> length (rws ! i) = 30" "j < 30"
    for rws j
    by (rule assembled_row(2)[OF N i that])
  have r1: "length (sf_list ?s) = length distnod" "\<And>i. i < length distnod \<Longrightarrow> length (sf_list ?s ! i) = 30"
    using run_loop_rows(1)[OF N, of _ pinv] i by simp_all
  have r2: "length (sfx_list ?s) = length distnod" "\<And>i. i < length distnod \<Longrightarrow> length (sfx_list ?s ! i) = 30"
    using run_loop_rows(2)[OF N, of _ pinv] i by simp_all
  have r3: "length (sfxx_list ?s) = length distnod" "\<And>i. i < length distnod \<Longrightarrow> length (sfxx_list ?s ! i) = 30"
    using run_loop_rows(3)[OF N, of _ pinv] i by simp_all
  have r4: "length (sfy_list ?s) = length distnod" "\<And>i. i < length distnod \<Longrightarrow> length (sfy_list ?s ! i) = 30"
    using run_loop_rows(4)[OF N, of _ pinv] i by simp_all
  have r5: "length (sfyy_list ?s) = length distnod" "\<And>i. i < length distnod \<Longrightarrow> length (sfyy_list ?s ! i) = 30"
    using run_loop_rows(5)[OF N, of _ pinv] i by simp_all
  let ?ops = "\<lparr> sf = csc_matrix (concat (sf_list ?s)) ?il ?sdi ?n ?n,
                sfx = csc_matrix (concat (sfx_list ?s)) ?il ?sdi ?n ?n,
                sfxx = csc_matrix (concat (sfxx_list ?s)) ?il ?sdi ?n ?n,
                sfy = csc_matrix (concat (sfy_list ?s)) ?il ?sdi ?n ?n,
                sfyy = csc_matrix (concat (sfyy_list ?s)) ?il ?sdi ?n ?n \<rparr>"
  have m: "mls pinv distnod = Inr ?ops"
    unfolding mls_success[OF N] il ..
  have cols: "list_all (\<lambda>S. set (row_cols S i) = set ?idx \<and> length (row_cols S i) = 30 \<and>
                  distinct (row_cols S i)) [sf ?ops, sfx ?ops, sfxx ?ops, sfy ?ops, sfyy ?ops]"
    using op[OF r1] op[OF r2] op[OF r3] op[OF r4] op[OF r5] by simp
  have vals: "\<forall>j<30.
               let s = ?s; c = ?idx ! j
               in entry (sf ?ops) i c = Some (sf_list s ! i ! j) \<and>
                  entry (sfx ?ops) i c = Some (sfx_list s ! i ! j) \<and>
                  entry (sfxx ?ops) i c = Some (sfxx_list s ! i ! j) \<and>
                  entry (sfy ?ops) i c = Some (sfy_list s ! i ! j) \<and>
                  entry (sfyy ?ops) i c = Some (sfyy_list s ! i ! j)"
    unfolding Let_def using en[OF r1] en[OF r2] en[OF r3] en[OF r4] en[OF r5] by simp
  have "\<exists>ops. mls pinv distnod = Inr ops \<and>
            list_all (\<lambda>S. set (row_cols S i) = set ?idx \<and>
                          length (row_cols S i) = 30 \<and> distinct (row_cols S i))
              [sf ops, sfx ops, sfxx ops, sfy ops, sfyy ops] \<and>
            (\<forall>j<30.
               let s = ?s; c = ?idx ! j
               in entry (sf ops) i c = Some (sf_list s ! i ! j) \<and>
                  entry (sfx ops) i c = Some (sfx_list s ! i ! j) \<and>
                  entry (sfxx ops) i c = Some (sfxx_list s ! i ! j) \<and>
                  entry (sfy ops) i c = Some (sfy_list s ! i ! j) \<and>
                  entry (sfyy ops) i c = Some (sfyy_list s ! i ! j))"
    using m cols vals by blast
  then show ?thesis using csc_entry[of data rows cols m n r c'] csc_row_count[of data rows cols m n r]
    by blast
qed

text \<open>
  Row 0 of the operators of the sample cloud; and three triplets in one row, two of them
  at column 5.
\<close>

theorem row_sparsity_witness:
  "30 \<le> length ring_cloud \<and> (0::nat) < length ring_cloud \<and> (0::nat) < 30 \<and>
   (\<exists>ops. mls (\<lambda>A. ring_IA (exp (100 / 9))) ring_cloud = Inr ops \<and>
      set (row_cols (sf ops) 0) = {0..<30} \<and> length (row_cols (sf ops) 0) = 30 \<and>
      distinct (row_cols (sf ops) 0) \<and>
      set (row_cols (sfyy ops) 0) = {0..<30} \<and> length (row_cols (sfyy ops) 0) = 30 \<and>
      distinct (row_cols (sfyy ops) 0) \<and>
      entry (sf ops) 0 0 =
        Some (sf_list (run_loop (\<lambda>A. ring_IA (exp (100 / 9))) ring_cloud
                (knn_distances 30 ring_cloud) (knn_indices 30 ring_cloud)
                (a0_of (knn_distances 30 ring_cloud))) ! 0 ! 0)) \<and>
   entry (csc_matrix [1, 2, 4] [0, 0, 0] [5, 5, 7] 1 8) 0 5 = Some 3 \<and>
   length (row_cols (csc_matrix [1, 2, 4] [0, 0, 0] [5, 5, 7] 1 8) 0) \<le> 3"
proof -
  have h1: "30 \<le> length ring_cloud" and h2: "(0::nat) < length ring_cloud"
    by (simp_all add: ring_cloud_length)
  note t = row_sparsity[OF h1 h2, of "\<lambda>A. ring_IA (exp (100 / 9))" "[1, 2, 4]" "[0, 0, 0]" "[5, 5, 7]" 1 8 0 5]
  from t obtain ops where ops: "mls (\<lambda>A. ring_IA (exp (100 / 9))) ring_cloud = Inr ops"
    "list_all (\<lambda>S. set (row_cols S 0) = set (knn_indices 30 ring_cloud ! 0) \<and>
                          length (row_cols S 0) = 30 \<and> distinct (row_cols S 0))
              [sf ops, sfx ops, sfxx ops, sfy ops, sfyy ops]"
    "\<forall>j<30.
               let s = run_loop (\<lambda>A. ring_IA (exp (100 / 9))) ring_cloud (knn_distances 30 ring_cloud)
                         (knn_indices 30 ring_cloud) (a0_of (knn_distances 30 ring_cloud));
                   c = knn_indices 30 ring_cloud ! 0 ! j
               in entry (sf ops) 0 c = Some (sf_list s ! 0 ! j) \<and>
                  entry (sfx ops) 0 c = Some (sfx_list s ! 0 ! j) \<and>
                  entry (sfxx ops) 0 c = Some (sfxx_list s ! 0 ! j) \<and>
                  entry (sfy ops) 0 c = Some (sfy_list s ! 0 ! j) \<and>
                  entry (sfyy ops) 0 c = Some (sfyy_list s ! 0 ! j)"
    by blast
  have z: "knn_indices 30 ring_cloud ! 0 ! 0 = 0" by (simp add: ring_indices)
  have e: "entry (sf ops) 0 0 =
        Some (sf_list (run_loop (\<lambda>A. ring_IA (exp (100 / 9))) ring_cloud
                (knn_distances 30 ring_cloud) (knn_indices 30 ring_cloud)
                (a0_of (knn_distances 30 ring_cloud))) ! 0 ! 0)"
    using ops(3)[rule_format, of 0] by (simp add: Let_def z)
  have s: "set (knn_indices 30 ring_cloud ! 0) = {0..<30}" by (simp add: ring_indices)
  have c: "set (row_cols (sf ops) 0) = {0..<30} \<and> length (row_cols (sf ops) 0) = 30 \<and>
      distinct (row_cols (sf ops) 0) \<and>
      set (row_cols (sfyy ops) 0) = {0..<30} \<and> length (row_cols (sfyy ops) 0) = 30 \<and>
      distinct (row_cols (sfyy ops) 0)"
    using ops(2) by (simp add: s)
  have d1: "entry (csc_matrix [1, 2, 4] [0, 0, 0] [5, 5, 7] 1 8) 0 5 = Some 3"
    using t by simp
  have d2: "length (row_cols (csc_matrix [1, 2, 4] [0, 0, 0] [5, 5, 7] 1 8) 0) \<le> 3"
    using t by simp
  have h3: "(0::nat) < 30" by simp
  show ?thesis using h1 h2 h3 ops(1) e c d1 d2 by blast
qed

subsection \<open>C10\<close>

text \<open>
  Claim C10 (unguarded divisions), as amended. The claim takes a positive distance \<open>d_k\<close>
  to the 30th neighbour to be enough for finite weights. On \<open>float64\<close> values it is not:
  \<^verbatim>\<open>a0[i] ** 4\<close> underflows to 0 for a small positive \<open>a0\<close>, and the division by it is a
  division by zero. What holds, for node \<open>i\<close> of a cloud of at least 30 nodes, on the
  \<open>float64\<close> reading of the weight lines: when \<open>d_k\<close> lies between \<^verbatim>\<open>2^-250\<close> and
  \<^verbatim>\<open>2^250\<close>, the support radius is the positive number \<open>0.3 \<cdot> d_k\<close>, the divisors
  \<^verbatim>\<open>a0[i] ** 2\<close> and \<^verbatim>\<open>a0[i] ** 4\<close> are its square and its fourth power (finite and not 0),
  the real-valued weights of the loop are the closed forms at this support radius, and
  each of \<open>Dn\<close>, \<open>Dx\<close>, \<open>Dxx\<close>, \<open>Dy\<close>, \<open>Dyy\<close> has 30 entries, all finite. When
  \<open>d_k = 0\<close>, the support radius is 0, all thirty neighbours have the coordinates of
  node \<open>i\<close>, and every one of the five weights of every neighbour is NaN: the weight
  lines yield values, not an error.
\<close>

theorem weights_finite_in_range:
  fixes pinv :: "mat \<Rightarrow> mat"
  assumes N: "30 \<le> length distnod" and i: "i < length distnod"
  shows "let nsd = nsd_of distnod (knn_indices 30 distnod ! i);
             ds = knn_distances 30 distnod ! i;
             d_k = ds ! 29;
             a0 = a0_of (knn_distances 30 distnod) ! i;
             v = loop_locals pinv distnod (knn_distances 30 distnod) (knn_indices 30 distnod)
                   (a0_of (knn_distances 30 distnod)) i
         in (1 / 2 ^ 250 \<le> d_k \<and> d_k \<le> 2 ^ 250 \<longrightarrow>
               a0 = 0.3 * d_k \<and> 0 < a0 \<and>
               loc_a0_fl v = Fin a0 \<and>
               fl_pow (loc_a0_fl v) 2 = Fin (a0 ^ 2) \<and> a0 ^ 2 \<noteq> 0 \<and>
               fl_pow (loc_a0_fl v) 4 = Fin (a0 ^ 4) \<and> a0 ^ 4 \<noteq> 0 \<and>
               loc_Dn v = Dn_of ds a0 \<and>
               loc_Dx v = Dx_of nsd a0 (Dn_of ds a0) \<and>
               loc_Dxx v = Dxx_of nsd a0 (Dn_of ds a0) \<and>
               loc_Dy v = Dy_of nsd a0 (Dn_of ds a0) \<and>
               loc_Dyy v = Dyy_of nsd a0 (Dn_of ds a0) \<and>
               length (loc_Dn_fl v) = 30 \<and> list_all finite_fl (loc_Dn_fl v) \<and>
               length (loc_Dx_fl v) = 30 \<and> list_all finite_fl (loc_Dx_fl v) \<and>
               length (loc_Dxx_fl v) = 30 \<and> list_all finite_fl (loc_Dxx_fl v) \<and>
               length (loc_Dy_fl v) = 30 \<and> list_all finite_fl (loc_Dy_fl v) \<and>
               length (loc_Dyy_fl v) = 30 \<and> list_all finite_fl (loc_Dyy_fl v)) \<and>
            (d_k = 0 \<longrightarrow>
               a0 = 0 \<and> loc_a0_fl v = Fin 0 \<and>
               list_all (\<lambda>q. q = distnod ! i) (loc_nsd v) \<and>
               loc_Dn_fl v = replicate 30 NaN \<and>
               loc_Dx_fl v = replicate 30 NaN \<and>
               loc_Dxx_fl v = replicate 30 NaN \<and>
               loc_Dy_fl v = replicate 30 NaN \<and>
               loc_Dyy_fl v = replicate 30 NaN)"
proof -
  let ?nsd = "nsd_of distnod (knn_indices 30 distnod ! i)"
  let ?ds = "knn_distances 30 distnod ! i"
  let ?dk = "?ds ! 29"
  let ?a0 = "a0_of (knn_distances 30 distnod) ! i"
  let ?v = "loop_locals pinv distnod (knn_distances 30 distnod) (knn_indices 30 distnod)
                   (a0_of (knn_distances 30 distnod)) i"
  have il: "i < length (knn_distances 30 distnod)" using i by (simp add: knn_distances_length)
  note f = locals_fl[OF il, of pinv distnod "knn_indices 30 distnod" "a0_of (knn_distances 30 distnod)"]
  note g = locals_weights[of pinv distnod "knn_distances 30 distnod" "knn_indices 30 distnod"
      "a0_of (knn_distances 30 distnod)" i]
  have a0: "?a0 = 0.3 * ?dk" by (rule a0_of_nth[OF il])
  have ln: "length ?nsd = 30" by (rule nsd_length[OF N i])
  have ld: "length ?ds = 30" by (rule knn_distances_row_length[OF N i])
  have fin: "?a0 = 0.3 * ?dk \<and> 0 < ?a0 \<and>
               loc_a0_fl ?v = Fin ?a0 \<and>
               fl_pow (loc_a0_fl ?v) 2 = Fin (?a0 ^ 2) \<and> ?a0 ^ 2 \<noteq> 0 \<and>
               fl_pow (loc_a0_fl ?v) 4 = Fin (?a0 ^ 4) \<and> ?a0 ^ 4 \<noteq> 0 \<and>
               loc_Dn ?v = Dn_of ?ds ?a0 \<and>
               loc_Dx ?v = Dx_of ?nsd ?a0 (Dn_of ?ds ?a0) \<and>
               loc_Dxx ?v = Dxx_of ?nsd ?a0 (Dn_of ?ds ?a0) \<and>
               loc_Dy ?v = Dy_of ?nsd ?a0 (Dn_of ?ds ?a0) \<and>
               loc_Dyy ?v = Dyy_of ?nsd ?a0 (Dn_of ?ds ?a0) \<and>
               length (loc_Dn_fl ?v) = 30 \<and> list_all finite_fl (loc_Dn_fl ?v) \<and>
               length (loc_Dx_fl ?v) = 30 \<and> list_all finite_fl (loc_Dx_fl ?v) \<and>
               length (loc_Dxx_fl ?v) = 30 \<and> list_all finite_fl (loc_Dxx_fl ?v) \<and>
               length (loc_Dy_fl ?v) = 30 \<and> list_all finite_fl (loc_Dy_fl ?v) \<and>
               length (loc_Dyy_fl ?v) = 30 \<and> list_all finite_fl (loc_Dyy_fl ?v)"
    if lo: "1 / 2 ^ 250 \<le> ?dk" and hi: "?dk \<le> 2 ^ 250"
  proof -
    note r = a0_in_range[OF lo hi, folded a0]
    have a: "fl_mul (Fin 0.3) (Fin ?dk) = Fin ?a0" by (rule r(2))
    have b: "0 \<le> ?ds ! j \<and> ?ds ! j \<le> ?dk" if "j < 30" for j
      using node_bounds(1,2)[OF N i that] by simp
    note w = weights_finite[OF lo hi ln ld b node_bounds(3)[OF N i] node_bounds(4)[OF N i],
        folded a0]
    have nz: "?a0 ^ 2 \<noteq> 0" "?a0 ^ 4 \<noteq> 0" using r(1) by simp_all
    show ?thesis
      unfolding f g a using a0 r(1) r(3) r(4) nz w ln ld
      by (simp only: fl_lengths min.idem simp_thms)
  qed
  have nan: "?a0 = 0 \<and> loc_a0_fl ?v = Fin 0 \<and>
               list_all (\<lambda>q. q = distnod ! i) (loc_nsd ?v) \<and>
               loc_Dn_fl ?v = replicate 30 NaN \<and>
               loc_Dx_fl ?v = replicate 30 NaN \<and>
               loc_Dxx_fl ?v = replicate 30 NaN \<and>
               loc_Dy_fl ?v = replicate 30 NaN \<and>
               loc_Dyy_fl ?v = replicate 30 NaN"
    if z: "?dk = 0"
  proof -
    have a: "fl_mul (Fin 0.3) (Fin ?dk) = Fin 0" unfolding z by (simp add: to_fl_zero)
    have az: "?a0 = 0" using a0 z by simp
    have d: "?ds ! j = 0" if "j < 30" for j by (rule all_coincide(1)[OF N i z that])
    have c: "list_all (\<lambda>q. q = distnod ! i) ?nsd"
      unfolding list_all_length
      using all_coincide(2)[OF N i z] nsd_origin[OF _ N i] ln by simp
    show ?thesis
      unfolding f a g(1) using az c weights_nan[OF ln ld d] by (simp only: simp_thms)
  qed
  show ?thesis unfolding Let_def using fin nan by blast
qed

text \<open>
  Node 0 of the sample cloud, where \<open>d_k = 65\<close>, and node 0 of a cloud of thirty
  coincident nodes, where \<open>d_k = 0\<close>.
\<close>

theorem weights_finite_in_range_witness:
  "30 \<le> length ring_cloud \<and> (0::nat) < length ring_cloud \<and>
   (let nsd = nsd_of ring_cloud (knn_indices 30 ring_cloud ! 0);
        ds = knn_distances 30 ring_cloud ! 0;
        d_k = ds ! 29;
        a0 = a0_of (knn_distances 30 ring_cloud) ! 0;
        v = loop_locals ring_pinv ring_cloud (knn_distances 30 ring_cloud)
              (knn_indices 30 ring_cloud) (a0_of (knn_distances 30 ring_cloud)) 0
    in d_k = 65 \<and> 1 / 2 ^ 250 \<le> d_k \<and> d_k \<le> 2 ^ 250 \<and>
       a0 = 0.3 * d_k \<and> 0 < a0 \<and>
       loc_a0_fl v = Fin a0 \<and>
       fl_pow (loc_a0_fl v) 2 = Fin (a0 ^ 2) \<and> a0 ^ 2 \<noteq> 0 \<and>
       fl_pow (loc_a0_fl v) 4 = Fin (a0 ^ 4) \<and> a0 ^ 4 \<noteq> 0 \<and>
       loc_Dn v = Dn_of ds a0 \<and>
       loc_Dx v = Dx_of nsd a0 (Dn_of ds a0) \<and>
       loc_Dxx v = Dxx_of nsd a0 (Dn_of ds a0) \<and>
       loc_Dy v = Dy_of nsd a0 (Dn_of ds a0) \<and>
       loc_Dyy v = Dyy_of nsd a0 (Dn_of ds a0) \<and>
       length (loc_Dn_fl v) = 30 \<and> list_all finite_fl (loc_Dn_fl v) \<and>
       length (loc_Dx_fl v) = 30 \<and> list_all finite_fl (loc_Dx_fl v) \<and>
       length (loc_Dxx_fl v) = 30 \<and> list_all finite_fl (loc_Dxx_fl v) \<and>
       length (loc_Dy_fl v) = 30 \<and> list_all finite_fl (loc_Dy_fl v) \<and>
       length (loc_Dyy_fl v) = 30 \<and> list_all finite_fl (loc_Dyy_fl v)) \<and>
   30 \<le> length (replicate 30 ((0, 0) :: point)) \<and>
   (0::nat) < length (replicate 30 ((0, 0) :: point)) \<and>
   (let d_k = knn_distances 30 (replicate 30 (0, 0)) ! 0 ! 29;
        a0 = a0_of (knn_distances 30 (replicate 30 (0, 0))) ! 0;
        v = loop_locals ring_pinv (replicate 30 (0, 0)) (knn_distances 30 (replicate 30 (0, 0)))
              (knn_indices 30 (replicate 30 (0, 0)))
              (a0_of (knn_distances 30 (replicate 30 (0, 0)))) 0
    in d_k = 0 \<and> a0 = 0 \<and>
       loc_a0_fl v = Fin 0 \<and>
       list_all (\<lambda>q. q = replicate 30 (0, 0) ! 0) (loc_nsd v) \<and>
       loc_Dn_fl v = replicate 30 NaN \<and>
       loc_Dx_fl v = replicate 30 NaN \<and>
       loc_Dxx_fl v = replicate 30 NaN \<and>
       loc_Dy_fl v = replicate 30 NaN \<and>
       loc_Dyy_fl v = replicate 30 NaN)"
proof -
  have h1: "30 \<le> length ring_cloud" and h2: "(0::nat) < length ring_cloud"
    by (simp_all add: ring_cloud_length)
  have z1: "30 \<le> length (replicate 30 ((0, 0) :: point))"
    and z2: "(0::nat) < length (replicate 30 ((0, 0) :: point))" by simp_all
  have r: "1 / 2 ^ 250 \<le> knn_distances 30 ring_cloud ! 0 ! 29"
      "knn_distances 30 ring_cloud ! 0 ! 29 \<le> 2 ^ 250"
    unfolding ring_kth by simp_all
  note a = weights_finite_in_range[OF h1 h2, of ring_pinv, unfolded Let_def]
  note b = weights_finite_in_range[OF z1 z2, of ring_pinv, unfolded Let_def]
  show ?thesis
    unfolding Let_def
    using a b h1 h2 z1 z2 r ring_kth zero_cloud_kth[of "(0, 0)"] by blast
qed

text \<open>
  The claim as stated fails at node 0 of the sample cloud scaled by \<^verbatim>\<open>2^-300\<close>: the
  distance to the 30th neighbour is \<^verbatim>\<open>65 * 2^-300\<close>, positive; the support radius is
  \<^verbatim>\<open>19.5 * 2^-300\<close>, positive; its fourth power, about \<^verbatim>\<open>2^-1183\<close>, underflows to 0; and
  the first entry of \<open>Dxx\<close> (the node itself) is \<open>-2 / 0\<close> times a positive number,
  minus infinity. The weight fields do not depend on \<open>pinv\<close>, which is the identity here.
\<close>

theorem underflow_counterexample:
  "30 \<le> length tiny_cloud \<and>
   0 < knn_distances 30 tiny_cloud ! 0 ! 29 \<and>
   loc_a0_fl (loop_locals id tiny_cloud (knn_distances 30 tiny_cloud)
      (knn_indices 30 tiny_cloud) (a0_of (knn_distances 30 tiny_cloud)) 0)
     = Fin (39 / 2 / 2 ^ 300) \<and>
   fl_pow (loc_a0_fl (loop_locals id tiny_cloud (knn_distances 30 tiny_cloud)
      (knn_indices 30 tiny_cloud) (a0_of (knn_distances 30 tiny_cloud)) 0)) 4 = Fin 0 \<and>
   loc_Dxx_fl (loop_locals id tiny_cloud (knn_distances 30 tiny_cloud)
      (knn_indices 30 tiny_cloud) (a0_of (knn_distances 30 tiny_cloud)) 0) ! 0 = NInf \<and>
   \<not> finite_fl (loc_Dxx_fl (loop_locals id tiny_cloud (knn_distances 30 tiny_cloud)
      (knn_indices 30 tiny_cloud) (a0_of (knn_distances 30 tiny_cloud)) 0) ! 0)"
proof -
  have il: "0 < length (knn_distances 30 tiny_cloud)"
    by (simp add: knn_distances_length tiny_cloud_length)
  note f = locals_fl[OF il, of id tiny_cloud "knn_indices 30 tiny_cloud"
      "a0_of (knn_distances 30 tiny_cloud)", unfolded tiny_kth tiny_a0 tiny_nsd]
  have dn: "Dn_fl (knn_distances 30 tiny_cloud ! 0) (Fin (39 / 2 / 2 ^ 300)) ! 0 = Fin 1"
    unfolding tiny_distances Dn_fl_def using tiny_Dn0 by simp
  have len: "length (Dn_fl (knn_distances 30 tiny_cloud ! 0) (Fin (39 / 2 / 2 ^ 300))) = 30"
    by (simp add: fl_lengths tiny_distances)
  have "Dxx_fl tiny_cloud (Fin (39 / 2 / 2 ^ 300))
          (Dn_fl (knn_distances 30 tiny_cloud ! 0) (Fin (39 / 2 / 2 ^ 300))) ! 0
        = fl_mul (fl_mul (fl_div (Fin (- 2)) (fl_pow (Fin (39 / 2 / 2 ^ 300)) 4))
      (fl_sub (fl_pow (Fin (39 / 2 / 2 ^ 300)) 2)
         (fl_mul (Fin 2) (fl_pow (fl_sub (Fin 0) (Fin 0)) 2)))) (Fin 1)"
    using len dn
    by (simp add: Dxx_fl_def tiny_cloud_length tiny_origin
          del: fl_pow.simps fl_div.simps fl_sub.simps fl_mul.simps)
  then have x: "Dxx_fl tiny_cloud (Fin (39 / 2 / 2 ^ 300))
          (Dn_fl (knn_distances 30 tiny_cloud ! 0) (Fin (39 / 2 / 2 ^ 300))) ! 0 = NInf"
    by (simp only: tiny_Dxx0)
  show ?thesis
    unfolding f x tiny_kth using tiny_powers(1) by (simp add: tiny_cloud_length)
qed

end
